(* ===== verification/Js_Prelude.thy ===== *)
theory Js_Prelude
  imports Main "HOL-Library.AList" "HOL-Library.Char_ord" "HOL-Library.List_Lexorder"
begin

text \<open>
  Shared vocabulary of the development: the fragment of the TypeScript standard library that the
  modelled sources use, written as executable HOL functions, and the generic facts the component
  theories share.

  \<^item> A JavaScript string is a \<^typ>\<open>string\<close>, one \<^typ>\<open>char\<close> per UTF-16 code unit. The model therefore
    speaks about strings whose code units are below 256 (Latin-1); on those every function below
    computes what the language standard prescribes.
  \<^item> A JavaScript number that the code uses as a counter, a port, a rank or a time stamp is an
    \<^typ>\<open>int\<close>; the rounding of doubles beyond \<open>2 ^ 53\<close> is not modelled.
  \<^item> \<open>undefined\<close> and \<open>null\<close> are \<^const>\<open>None\<close>; a thrown error is \<^const>\<open>Inl\<close> of the sum type.
  \<^item> A \<open>Map\<close> is its list of entries in insertion order, written with \<^const>\<open>AList.update\<close>; a \<open>Set\<close>
    built from an array and spread back is \<open>uniq\<close>.
\<close>

named_theorems js_simps \<open>rewrite rules for the standard library functions\<close>
named_theorems policy_defs \<open>definitions of the policy engine to unfold\<close>
named_theorems license_defs \<open>definitions of the licence component to unfold\<close>
named_theorems billing_defs \<open>definitions of the billing component to unfold\<close>

type_synonym ('e, 'a) result = "'e + 'a"

section \<open>Characters\<close>

definition code_unit :: "char \<Rightarrow> nat" where
  "code_unit c = of_char c"

definition js_ws :: "char \<Rightarrow> bool" where
  "js_ws c = (let n = code_unit c in (9 \<le> n \<and> n \<le> 13) \<or> n = 32 \<or> n = 160)"

definition is_digit :: "char \<Rightarrow> bool" where
  "is_digit c = (48 \<le> code_unit c \<and> code_unit c \<le> 57)"

definition is_hex_digit :: "char \<Rightarrow> bool" where
  "is_hex_digit c = (is_digit c \<or> (65 \<le> code_unit c \<and> code_unit c \<le> 70) \<or>
     (97 \<le> code_unit c \<and> code_unit c \<le> 102))"

definition digit_val :: "char \<Rightarrow> int" where
  "digit_val c = int (code_unit c) - 48"

definition digit_char :: "nat \<Rightarrow> char" where
  "digit_char d = char_of (48 + d)"

definition lower_char :: "char \<Rightarrow> char" where
  "lower_char c = (let n = code_unit c in
     if (65 \<le> n \<and> n \<le> 90) \<or> (192 \<le> n \<and> n \<le> 222 \<and> n \<noteq> 215) then char_of (n + 32) else c)"

section \<open>Strings\<close>

definition trim :: "string \<Rightarrow> string" where
  "trim s = rev (dropWhile js_ws (rev (dropWhile js_ws s)))"

definition toLowerCase :: "string \<Rightarrow> string" where
  "toLowerCase s = map lower_char s"

fun startsWith :: "string \<Rightarrow> string \<Rightarrow> bool" where
  "startsWith s [] = True"
| "startsWith [] (p # ps) = False"
| "startsWith (c # s) (p # ps) = (c = p \<and> startsWith s ps)"

definition endsWith :: "string \<Rightarrow> string \<Rightarrow> bool" where
  "endsWith s p = startsWith (rev s) (rev p)"

fun str_includes :: "string \<Rightarrow> string \<Rightarrow> bool" where
  "str_includes [] p = (p = [])"
| "str_includes (c # s) p = (startsWith (c # s) p \<or> str_includes s p)"

text \<open>\<open>s.split(c)\<close> for a one-character separator, and \<open>parts.join(sep)\<close>.\<close>

fun split_on :: "char \<Rightarrow> string \<Rightarrow> string list" where
  "split_on c [] = [[]]"
| "split_on c (x # xs) =
     (if x = c then [] # split_on c xs
      else (case split_on c xs of [] \<Rightarrow> [[x]] | y # ys \<Rightarrow> (x # y) # ys))"

fun join :: "string \<Rightarrow> string list \<Rightarrow> string" where
  "join sep [] = []"
| "join sep [x] = x"
| "join sep (x # y # ys) = x @ sep @ join sep (y # ys)"

text \<open>\<open>[...new Set(xs)]\<close>: the first occurrence of every value, in order.\<close>

fun uniq :: "'a list \<Rightarrow> 'a list" where
  "uniq [] = []"
| "uniq (x # xs) = x # filter (\<lambda>y. y \<noteq> x) (uniq xs)"

text \<open>\<open>new Map(xs.map(x => [key(x), x]))\<close>: a later entry replaces the value of an earlier one and
  keeps its place.\<close>

definition map_by :: "('a \<Rightarrow> 'k) \<Rightarrow> 'a list \<Rightarrow> ('k \<times> 'a) list" where
  "map_by f xs = foldl (\<lambda>m x. AList.update (f x) x m) [] xs"

section \<open>Numbers as text\<close>

fun digits_val :: "int \<Rightarrow> string \<Rightarrow> int" where
  "digits_val acc [] = acc"
| "digits_val acc (c # cs) = digits_val (acc * 10 + digit_val c) cs"

text \<open>\<open>Number.parseInt(s, 10)\<close>; \<^const>\<open>None\<close> is NaN. Leading white space and a sign are skipped and
  the longest run of digits is read, whatever follows it.\<close>

definition parse_digits :: "string \<Rightarrow> int option" where
  "parse_digits s = (let ds = takeWhile is_digit s in
     if ds = [] then None else Some (digits_val 0 ds))"

definition parseInt :: "string \<Rightarrow> int option" where
  "parseInt s = (case dropWhile js_ws s of
       [] \<Rightarrow> None
     | c # r \<Rightarrow>
         if c = CHR ''-'' then map_option uminus (parse_digits r)
         else if c = CHR ''+'' then parse_digits r
         else parse_digits (c # r))"

text \<open>\<open>String(n)\<close> of an integer.\<close>

fun show_nat :: "nat \<Rightarrow> string" where
  "show_nat n = (if n < 10 then [digit_char n] else show_nat (n div 10) @ [digit_char (n mod 10)])"

declare show_nat.simps [simp del]

definition show_int :: "int \<Rightarrow> string" where
  "show_int i = (if i < 0 then CHR ''-'' # show_nat (nat (- i)) else show_nat (nat i))"

section \<open>Computations that may throw\<close>

text \<open>Sequencing of a computation that may throw, and the loop that applies one to every element of
  an array and stops at the first error.\<close>

fun res_bind :: "'e + 'a \<Rightarrow> ('a \<Rightarrow> 'e + 'b) \<Rightarrow> 'e + 'b" where
  "res_bind (Inl e) f = Inl e"
| "res_bind (Inr x) f = f x"

fun traverse :: "('a \<Rightarrow> 'e + 'b) \<Rightarrow> 'a list \<Rightarrow> 'e + 'b list" where
  "traverse f [] = Inr []"
| "traverse f (x # xs) = res_bind (f x) (\<lambda>y. res_bind (traverse f xs) (\<lambda>ys. Inr (y # ys)))"

text \<open>The same loop where every element contributes several results.\<close>

definition flat_traverse :: "('a \<Rightarrow> 'e + 'b list) \<Rightarrow> 'a list \<Rightarrow> 'e + 'b list" where
  "flat_traverse f xs = res_bind (traverse f xs) (\<lambda>yss. Inr (concat yss))"

definition is_ok :: "'e + 'a \<Rightarrow> bool" where
  "is_ok r = (case r of Inl _ \<Rightarrow> False | Inr _ \<Rightarrow> True)"

section \<open>Interfaces\<close>

text \<open>
  A textual codec: an encoder that is read back by a partial decoder on the values of its domain.
  Printing is then injective, and two codecs compose. A canonical codec also rejects every text
  that is not the encoding of the value it denotes.
\<close>

locale codec =
  fixes enc :: "'a \<Rightarrow> 'b" and dec :: "'b \<Rightarrow> 'a option" and dom_ok :: "'a \<Rightarrow> bool"
  assumes dec_enc: "dom_ok x \<Longrightarrow> dec (enc x) = Some x"
begin

lemma enc_inject: "dom_ok x \<Longrightarrow> dom_ok y \<Longrightarrow> enc x = enc y \<Longrightarrow> x = y"
  by (metis dec_enc option.inject)

lemma enc_inj_on: "inj_on enc {x. dom_ok x}"
  by (auto intro!: inj_onI enc_inject)

end

locale canonical_codec = codec +
  assumes enc_dec: "dec s = Some x \<Longrightarrow> enc x = s"
begin

lemma dec_inject: "dec s = Some x \<Longrightarrow> dec t = Some x \<Longrightarrow> s = t"
  using enc_dec by blast

end

section \<open>Generic facts\<close>

lemma code_unit_bound [simp]: "code_unit c < 256"
  by (simp add: code_unit_def)

lemma code_unit_inject [simp]: "code_unit c = code_unit d \<longleftrightarrow> c = d"
  by (simp add: code_unit_def)

lemma code_unit_char_of [simp]: "n < 256 \<Longrightarrow> code_unit (char_of n) = n"
  by (simp add: code_unit_def)

lemma is_digit_digit_char [simp]: "d < 10 \<Longrightarrow> is_digit (digit_char d)"
  by (simp add: is_digit_def digit_char_def)

lemma digit_val_digit_char [simp]: "d < 10 \<Longrightarrow> digit_val (digit_char d) = int d"
  by (simp add: digit_val_def digit_char_def)

lemma digit_not_ws: "is_digit c \<Longrightarrow> \<not> js_ws c"
  by (simp add: is_digit_def js_ws_def Let_def)

lemma startsWith_iff [js_simps]: "startsWith s p \<longleftrightarrow> (\<exists>t. s = p @ t)"
  by (induction s p rule: startsWith.induct) auto

lemma startsWith_append [simp]: "startsWith (p @ t) p"
  by (induction p) auto

lemma startsWith_drop: "startsWith s p \<Longrightarrow> p @ drop (length p) s = s"
  by (auto simp: startsWith_iff)

lemma trim_Nil [simp]: "trim [] = []"
  by (simp add: trim_def)

lemma dropWhile_hd_id: "\<not> P (hd s) \<Longrightarrow> dropWhile P s = s"
  by (cases s) auto

lemma trim_id: "\<not> js_ws (hd s) \<Longrightarrow> \<not> js_ws (last s) \<Longrightarrow> trim s = s"
  unfolding trim_def by (metis dropWhile_hd_id hd_rev rev_rev_ident)

lemma dropWhile_hd: "dropWhile P xs \<noteq> [] \<Longrightarrow> \<not> P (hd (dropWhile P xs))"
  by (induction xs) auto

lemma dropWhile_rev_dropWhile:
  "\<not> P y \<Longrightarrow> dropWhile P (rev (dropWhile P (rev ys @ [y]))) = rev (dropWhile P (rev ys @ [y]))"
  by (cases "\<forall>x \<in> set ys. P x") (auto simp: dropWhile_append)

lemma trim_idem [simp]: "trim (trim s) = trim s"
proof (cases "dropWhile js_ws s")
  case Nil
  then have "trim s = []" by (simp only: trim_def) simp
  then show ?thesis by simp
next
  case (Cons y ys)
  then have "\<not> js_ws y" using dropWhile_hd [of js_ws s] by simp
  then show ?thesis using Cons by (simp add: trim_def dropWhile_rev_dropWhile)
qed

lemma trim_eq_Nil_iff: "trim s = [] \<longleftrightarrow> (\<forall>c \<in> set s. js_ws c)"
proof -
  have "trim s = [] \<longleftrightarrow> (\<forall>c \<in> set (dropWhile js_ws s). js_ws c)"
    by (simp add: trim_def)
  also have "\<dots> \<longleftrightarrow> dropWhile js_ws s = []"
    using dropWhile_hd [of js_ws s] hd_in_set [of "dropWhile js_ws s"]
    by (metis empty_iff list.set(1))
  finally show ?thesis by simp
qed

section \<open>Computations that may throw\<close>

lemma is_ok_simps [simp]: "is_ok (Inr x)" "\<not> is_ok (Inl e)"
  by (simp_all add: is_ok_def)

lemma is_ok_iff: "is_ok r \<longleftrightarrow> (\<exists>x. r = Inr x)"
  by (cases r) auto

lemma res_bind_Inr_iff: "res_bind r f = Inr y \<longleftrightarrow> (\<exists>x. r = Inr x \<and> f x = Inr y)"
  by (cases r) auto

lemma res_bind_Inl_iff: "res_bind r f = Inl e \<longleftrightarrow> r = Inl e \<or> (\<exists>x. r = Inr x \<and> f x = Inl e)"
  by (cases r) auto

text \<open>Guards: an early return of an error, and a lookup that fails.\<close>

lemma guard_Inr_iff: "(if b then Inl e else r) = Inr x \<longleftrightarrow> \<not> b \<and> r = Inr x"
  by simp

lemma lookup_Inr_iff: "(case v of None \<Rightarrow> Inl e | Some k \<Rightarrow> f k) = Inr x \<longleftrightarrow> (\<exists>k. v = Some k \<and> f k = Inr x)"
  by (cases v) simp_all

lemma is_ok_res_bind [simp]: "is_ok (res_bind r f) \<longleftrightarrow> (\<exists>x. r = Inr x \<and> is_ok (f x))"
  by (cases r) auto

lemma is_ok_map: "is_ok (res_bind r (\<lambda>x. Inr (g x))) = is_ok r"
  by (cases r) auto

lemma traverse_Inr_iff: "traverse f xs = Inr ys \<longleftrightarrow> list_all2 (\<lambda>x y. f x = Inr y) xs ys"
  by (induction xs arbitrary: ys) (auto simp: res_bind_Inr_iff list_all2_Cons1)

lemma is_ok_traverse: "is_ok (traverse f xs) \<longleftrightarrow> (\<forall>x \<in> set xs. is_ok (f x))"
  by (induction xs) (auto simp: is_ok_iff res_bind_Inr_iff)

lemma traverse_elem: "traverse f xs = Inr ys \<Longrightarrow> y \<in> set ys \<longleftrightarrow> (\<exists>x \<in> set xs. f x = Inr y)"
  by (induction xs arbitrary: ys) (auto simp: res_bind_Inr_iff)

lemma traverse_ex: "\<forall>x \<in> set xs. is_ok (f x) \<Longrightarrow> \<exists>ys. traverse f xs = Inr ys"
  by (simp flip: is_ok_iff add: is_ok_traverse)

lemma is_ok_flat_traverse: "is_ok (flat_traverse f xs) \<longleftrightarrow> (\<forall>x \<in> set xs. is_ok (f x))"
  unfolding flat_traverse_def by (simp only: is_ok_map is_ok_traverse)

lemma flat_traverse_elem:
  "flat_traverse f xs = Inr ys \<Longrightarrow> r \<in> set ys \<longleftrightarrow> (\<exists>x \<in> set xs. \<exists>zs. f x = Inr zs \<and> r \<in> set zs)"
  unfolding flat_traverse_def
  by (induction xs arbitrary: ys) (auto simp: res_bind_Inr_iff)

section \<open>Splitting and joining\<close>

lemma split_on_not_Nil [simp]: "split_on c s \<noteq> []"
  by (cases s) (auto split: list.splits)

lemma split_on_free: "c \<notin> set s \<Longrightarrow> split_on c s = [s]"
  by (induction s) auto

lemma split_on_append: "c \<notin> set s \<Longrightarrow> split_on c (s @ c # t) = s # split_on c t"
  by (induction s) auto

lemma split_on_parts: "p \<in> set (split_on c s) \<Longrightarrow> c \<notin> set p"
proof (induction s arbitrary: p)
  case Nil
  then show ?case by simp
next
  case (Cons x xs)
  then show ?case by (cases "split_on c xs") (auto split: if_splits)
qed

lemma join_split_on [simp]: "join [c] (split_on c s) = s"
proof (induction s)
  case Nil
  then show ?case by simp
next
  case (Cons x xs)
  then show ?case by (cases "split_on c xs"; cases "tl (split_on c xs)") auto
qed

lemma split_on_join:
  "ps \<noteq> [] \<Longrightarrow> \<forall>p \<in> set ps. c \<notin> set p \<Longrightarrow> split_on c (join [c] ps) = ps"
  by (induction "[c]" ps rule: join.induct) (auto simp: split_on_free split_on_append)

lemma length_split_on: "length (split_on c s) = Suc (count_list s c)"
proof (induction s)
  case Nil
  then show ?case by simp
next
  case (Cons x xs)
  then show ?case by (cases "split_on c xs") auto
qed

interpretation split_codec: canonical_codec
  "join [c]" "\<lambda>s. Some (split_on c s)" "\<lambda>ps. ps \<noteq> [] \<and> (\<forall>p \<in> set ps. c \<notin> set p)" for c
  by unfold_locales (auto simp: split_on_join)

section \<open>Decimal text\<close>

lemma show_nat_not_Nil [simp]: "show_nat n \<noteq> []"
  by (subst show_nat.simps) simp

lemma show_nat_digits: "c \<in> set (show_nat n) \<Longrightarrow> is_digit c"
proof (induction n rule: show_nat.induct)
  case (1 n)
  then show ?case by (subst (asm) show_nat.simps) (auto split: if_splits)
qed

lemma digits_val_append: "digits_val a (xs @ ys) = digits_val (digits_val a xs) ys"
  by (induction xs arbitrary: a) auto

lemma digits_val_show_nat [simp]: "digits_val 0 (show_nat n) = int n"
proof (induction n rule: show_nat.induct)
  case (1 n)
  show ?case
  proof (cases "n < 10")
    case True
    then show ?thesis by (subst show_nat.simps) simp
  next
    case False
    then have "digits_val 0 (show_nat n) = int (n div 10) * 10 + int (n mod 10)"
      using 1 by (subst show_nat.simps) (simp add: digits_val_append)
    then show ?thesis by (metis div_mult_mod_eq of_nat_add of_nat_mult of_nat_numeral)
  qed
qed

definition no_digit_first :: "string \<Rightarrow> bool" where
  "no_digit_first s = (case s of [] \<Rightarrow> True | c # _ \<Rightarrow> \<not> is_digit c)"

lemma takeWhile_digits:
  "\<forall>c \<in> set ds. is_digit c \<Longrightarrow> no_digit_first r \<Longrightarrow> takeWhile is_digit (ds @ r) = ds"
  by (induction ds) (auto simp: no_digit_first_def takeWhile_append split: list.splits)

lemma parse_digits_show_nat: "no_digit_first r \<Longrightarrow> parse_digits (show_nat n @ r) = Some (int n)"
  using takeWhile_digits [of "show_nat n" r] show_nat_digits [of _ n]
  by (simp add: parse_digits_def Let_def)

lemma parseInt_digit_first:
  "is_digit c \<Longrightarrow> parseInt (c # r) = parse_digits (c # r)"
  by (auto simp: parseInt_def digit_not_ws) (auto simp: is_digit_def code_unit_def)

lemma parseInt_show_nat: "no_digit_first r \<Longrightarrow> parseInt (show_nat n @ r) = Some (int n)"
  using parse_digits_show_nat [of r n] show_nat_digits [of _ n]
  by (cases "show_nat n") (simp_all add: parseInt_digit_first)

lemma minus_not_ws [simp]: "\<not> js_ws (CHR ''-'')"
  by (simp add: js_ws_def code_unit_def Let_def)

lemma parseInt_show_int: "no_digit_first r \<Longrightarrow> parseInt (show_int i @ r) = Some i"
proof (cases "i < 0")
  case True
  assume "no_digit_first r"
  then show ?thesis using True parse_digits_show_nat [of r "nat (- i)"]
    by (simp add: show_int_def parseInt_def)
next
  case False
  assume "no_digit_first r"
  then show ?thesis using False by (simp add: show_int_def parseInt_show_nat)
qed

interpretation int_codec: codec show_int parseInt "\<lambda>_. True"
  using parseInt_show_int [of "[]"] by unfold_locales (simp add: no_digit_first_def)

section \<open>Sets and maps of the language\<close>

lemma set_uniq [simp]: "set (uniq xs) = set xs"
  by (induction xs) auto

lemma distinct_uniq [simp]: "distinct (uniq xs)"
  by (induction xs) auto

lemma uniq_distinct: "distinct xs \<Longrightarrow> uniq xs = xs"
  by (induction xs) (auto simp: filter_id_conv)

lemma uniq_idem [simp]: "uniq (uniq xs) = uniq xs"
  by (simp add: uniq_distinct)

lemma fst_update_set [simp]: "fst ` set (AList.update k v m) = insert k (fst ` set m)"
  by (induction m) auto

lemma foldl_update_keys:
  "fst ` set (foldl (\<lambda>m x. AList.update (f x) x m) m xs) = fst ` set m \<union> f ` set xs"
  by (induction xs arbitrary: m) auto

lemma map_by_keys [simp]: "fst ` set (map_by f xs) = f ` set xs"
  by (simp add: map_by_def foldl_update_keys)

lemma foldl_update_distinct:
  "distinct (map fst m) \<Longrightarrow> distinct (map fst (foldl (\<lambda>m x. AList.update (f x) x m) m xs))"
  by (induction xs arbitrary: m) (auto simp: distinct_update)

lemma map_by_distinct [simp]: "distinct (map fst (map_by f xs))"
  by (simp add: map_by_def foldl_update_distinct)

lemma update_fresh: "k \<notin> fst ` set m \<Longrightarrow> AList.update k v m = m @ [(k, v)]"
  by (induction m) auto

lemma foldl_update_append:
  "distinct (map fst m @ map f xs) \<Longrightarrow>
   foldl (\<lambda>m x. AList.update (f x) x m) m xs = m @ map (\<lambda>x. (f x, x)) xs"
proof (induction xs arbitrary: m)
  case Nil
  then show ?case by simp
next
  case (Cons x xs)
  then have "AList.update (f x) x m = m @ [(f x, x)]"
    by (simp add: update_fresh)
  then show ?case using Cons.IH [of "m @ [(f x, x)]"] Cons.prems by simp
qed

end
