(* ===== verification/Policy_Types.thy ===== *)
theory Policy_Types
  imports Js_Prelude
begin

text \<open>
  The data of the policy engine, packages/policy-engine/src/types.ts: one record per schema object,
  with the fields in the order the schema lists them, and the result types of the engine.

  A field that the schema marks optional is an option; \<open>protocol\<close>, which may be absent or null, is
  an option of an option: \<^const>\<open>None\<close> for absent, \<open>Some None\<close> for null.
\<close>

datatype scope = ScopeOrganization | ScopeNetwork

datatype action = Allow | Deny

datatype icmpPolicy = IcmpAllow | IcmpAcl | IcmpDeny

record tagDefinition =
  tag_name :: string
  tag_owners :: "string list"

record hostAlias =
  alias_name :: string
  alias_target :: string

record ipSet =
  set_name :: string
  set_cidrs :: "string list"

record aclRule =
  acl_name :: string
  acl_slug :: "string option"
  acl_action :: string
  acl_src :: "string list"
  acl_dst :: "string list"
  acl_ports :: "string list"
  acl_protocol :: "string option option"
  acl_priority :: int
  acl_orderIndex :: int
  acl_scope :: scope
  acl_posture :: "string list"
  acl_labels :: "(string \<times> string) list"
  acl_enabled :: bool

record grant =
  grant_name :: string
  grant_principals :: "string list"
  grant_capability :: string
  grant_ports :: "string list"
  grant_protocol :: "string option option"

record sshRule =
  ssh_name :: string
  ssh_src :: "string list"
  ssh_dst :: "string list"
  ssh_action :: string
  ssh_users :: "string list"
  ssh_priority :: int
  ssh_enabled :: bool

record postureDefinition =
  posture_name :: string
  posture_assertions :: "string list"

record autoApprover =
  approver_name :: string
  approver_route :: string
  approver_principals :: "string list"

record nodeAttribute =
  attr_name :: string
  attr_value :: string
  attr_selectors :: "string list"

record policyTest =
  test_name :: string
  test_src :: string
  test_accept :: "string list"
  test_deny :: "string list"

record policyDocument =
  doc_tags :: "tagDefinition list"
  doc_host_aliases :: "hostAlias list"
  doc_ip_sets :: "ipSet list"
  doc_acls :: "aclRule list"
  doc_grants :: "grant list"
  doc_ssh_rules :: "sshRule list"
  doc_postures :: "postureDefinition list"
  doc_auto_approvers :: "autoApprover list"
  doc_node_attributes :: "nodeAttribute list"
  doc_tests :: "policyTest list"
  doc_default_action :: action
  doc_icmp_policy :: icmpPolicy

record validationIssue =
  issue_path :: "string option"
  issue_message :: string

record validationResult =
  res_valid :: bool
  res_errors :: "validationIssue list"
  res_warnings :: "validationIssue list"

datatype diffKind = DiffAdd | DiffChange | DiffRemove

record diffChange =
  chg_kind :: diffKind
  chg_entity :: string
  chg_name :: string
  chg_summary :: "string option"

datatype simulateReason =
    OrgDeny
  | NetworkDeny
  | NetworkAllow
  | DefaultAllow
  | DefaultDeny
  | IcmpPolicyReason
  | PostureSkip

record simulateResult =
  sim_verdict :: action
  sim_reason :: simulateReason
  sim_matchedRules :: "string list"
  sim_ruleSlug :: "string option"
  sim_scope :: "scope option"

record testCaseResult =
  tcr_name :: string
  tcr_passed :: bool
  tcr_message :: "string option"

record testResults =
  tr_passed :: nat
  tr_failed :: nat
  tr_results :: "testCaseResult list"

definition aclKey :: "aclRule \<Rightarrow> string" where
  "aclKey acl = (case acl_slug acl of Some s \<Rightarrow> s | None \<Rightarrow> acl_name acl)"

text \<open>Parsing the empty object yields the default of every field.\<close>

definition emptyDocument :: policyDocument where
  "emptyDocument = \<lparr>doc_tags = [], doc_host_aliases = [], doc_ip_sets = [], doc_acls = [],
     doc_grants = [], doc_ssh_rules = [], doc_postures = [], doc_auto_approvers = [],
     doc_node_attributes = [], doc_tests = [], doc_default_action = Allow,
     doc_icmp_policy = IcmpAllow\<rparr>"

end
