(* ===== verification/Policy_Selector.thy ===== *)
theory Policy_Selector
  imports Policy_Types
begin

text \<open>
  Selectors, packages/policy-engine/src/selector.ts: the parser of a selector string, the resolution
  of what an operator types into the simulator, the tags and the endpoint that a selector stands for
  in a simulation, and the matching of a rule's selector against them; and \<open>selectorToString\<close> of
  packages/policy-engine/src/document-from-rows.ts, its printer.

  The \<open>SelectorParseError\<close> that the source throws is a value of \<open>selectorError\<close> when the parser
  throws it and of \<open>resolveError\<close> when the resolution does, one constructor per message;
  \<open>selectorErrorMessage\<close> is the message of a parse error. The one-character ellipsis that
  the short form of an endpoint may contain is outside the strings of the model; its three-dot
  spelling is modelled.
\<close>

datatype parsedSelector =
    SelAny
  | SelEndpoint string
  | SelTag string
  | SelNetwork string
  | SelCidr string
  | SelUser string
  | SelHostAlias string
  | SelIpSet string

datatype selectorError =
    EmptySelector
  | UnsupportedGroup string
  | InvalidSyntax string

datatype resolveError =
    ParseFailed selectorError
  | UnknownMachine string
  | UnknownSelector string

record endpointResolveEntry =
  ere_endpointId :: string
  ere_name :: string

definition isEndpointHex :: "string \<Rightarrow> bool" where
  "isEndpointHex s = (16 \<le> length s \<and> length s \<le> 64 \<and> (\<forall>c \<in> set s. is_hex_digit c))"

definition cidr_char :: "char \<Rightarrow> bool" where
  "cidr_char c = (is_hex_digit c \<or> c = CHR ''.'' \<or> c = CHR '':'' \<or> c = CHR ''/'')"

definition looksLikeCidr :: "string \<Rightarrow> bool" where
  "looksLikeCidr s = (s \<noteq> [] \<and> (\<forall>c \<in> set s. cidr_char c) \<and> CHR ''/'' \<in> set s)"

definition hasKnownPrefix :: "string \<Rightarrow> bool" where
  "hasKnownPrefix s =
     (startsWith s ''tag:'' \<or> startsWith s ''user:'' \<or> startsWith s ''host:'' \<or>
      startsWith s ''ipset:'' \<or> startsWith s ''network:'' \<or> startsWith s ''machine:'' \<or>
      startsWith s ''group:'')"

text \<open>\<open>token.split(/.../)\<close> on the three-dot separator.\<close>

function split_dots :: "string \<Rightarrow> string list" where
  "split_dots s =
     (if startsWith s ''...'' then [] # split_dots (drop 3 s)
      else case s of
             [] \<Rightarrow> [[]]
           | c # r \<Rightarrow> (case split_dots r of [] \<Rightarrow> [[c]] | y # ys \<Rightarrow> (c # y) # ys))"
  by pat_completeness auto
termination
  by (relation "measure length") (auto simp: startsWith_iff)

declare split_dots.simps [simp del]

definition matchesShortEndpointId :: "string \<Rightarrow> string \<Rightarrow> bool" where
  "matchesShortEndpointId endpointId short =
     (let id = toLowerCase endpointId; token = toLowerCase (trim short) in
      if token = [] then False
      else if id = token then True
      else if (case split_dots token of
                 [prefix, suffix] \<Rightarrow>
                   prefix \<noteq> [] \<and> suffix \<noteq> [] \<and> startsWith id prefix \<and> endsWith id suffix
               | _ \<Rightarrow> False) then True
      else startsWith id token \<or> endsWith id token)"

definition parseSelector :: "string \<Rightarrow> selectorError + parsedSelector" where
  "parseSelector raw =
     (let s = trim raw in
      if s = [] then Inl EmptySelector
      else if s = ''*'' then Inr SelAny
      else if startsWith s ''tag:'' then Inr (SelTag (drop 4 s))
      else if startsWith s ''user:'' then Inr (SelUser (drop 5 s))
      else if startsWith s ''network:'' then Inr (SelNetwork (drop 8 s))
      else if startsWith s ''group:user:'' \<or> startsWith s ''group:device:'' then
        Inl (UnsupportedGroup s)
      else if startsWith s ''host:'' then Inr (SelHostAlias (drop 5 s))
      else if startsWith s ''ipset:'' then Inr (SelIpSet (drop 6 s))
      else if looksLikeCidr s then Inr (SelCidr s)
      else if isEndpointHex s then Inr (SelEndpoint s)
      else Inl (InvalidSyntax s))"

definition selectorErrorMessage :: "selectorError \<Rightarrow> string" where
  "selectorErrorMessage e = (case e of
       EmptySelector \<Rightarrow> ''empty selector''
     | UnsupportedGroup s \<Rightarrow> ''unsupported group selector: '' @ s
     | InvalidSyntax s \<Rightarrow> ''invalid selector syntax: '' @ s)"

definition resolveSimulationSelector ::
    "string \<Rightarrow> endpointResolveEntry list \<Rightarrow> resolveError + string" where
  "resolveSimulationSelector raw endpoints =
     (let trimmed = trim raw in
      if trimmed = [] \<or> trimmed = ''*'' \<or> toLowerCase trimmed = ''any'' then Inr ''*''
      else if startsWith (toLowerCase trimmed) ''machine:'' then
        (case find (\<lambda>e. matchesShortEndpointId (ere_endpointId e) (drop 8 trimmed)) endpoints of
           Some e \<Rightarrow> Inr (ere_endpointId e)
         | None \<Rightarrow> Inl (UnknownMachine trimmed))
      else if hasKnownPrefix trimmed \<or> looksLikeCidr trimmed \<or> isEndpointHex trimmed then
        (case parseSelector trimmed of Inl e \<Rightarrow> Inl (ParseFailed e) | Inr _ \<Rightarrow> Inr trimmed)
      else (case find (\<lambda>e. toLowerCase (ere_name e) = toLowerCase trimmed) endpoints of
              Some e \<Rightarrow> Inr (ere_endpointId e)
            | None \<Rightarrow> Inl (UnknownSelector trimmed)))"

fun simulationTags :: "parsedSelector \<Rightarrow> string list" where
  "simulationTags SelAny = []"
| "simulationTags (SelEndpoint v) = []"
| "simulationTags (SelCidr v) = []"
| "simulationTags (SelTag v) = [v]"
| "simulationTags (SelNetwork v) = [''network:'' @ v, v]"
| "simulationTags (SelUser v) = [''user:'' @ v, v]"
| "simulationTags (SelHostAlias v) = [''host:'' @ v]"
| "simulationTags (SelIpSet v) = [''ipset:'' @ v]"

fun simulationEndpoint :: "parsedSelector \<Rightarrow> string option" where
  "simulationEndpoint (SelEndpoint v) = Some v"
| "simulationEndpoint _ = None"

fun selectorMatches :: "parsedSelector \<Rightarrow> string \<Rightarrow> string list \<Rightarrow> bool" where
  "selectorMatches SelAny endpointHex tags = True"
| "selectorMatches (SelEndpoint v) endpointHex tags = (toLowerCase endpointHex = toLowerCase v)"
| "selectorMatches (SelTag v) endpointHex tags = (v \<in> set tags)"
| "selectorMatches (SelNetwork v) endpointHex tags = (''network:'' @ v \<in> set tags \<or> v \<in> set tags)"
| "selectorMatches (SelUser v) endpointHex tags = (''user:'' @ v \<in> set tags \<or> v \<in> set tags)"
| "selectorMatches (SelHostAlias v) endpointHex tags = (''host:'' @ v \<in> set tags)"
| "selectorMatches (SelIpSet v) endpointHex tags = (''ipset:'' @ v \<in> set tags)"
| "selectorMatches (SelCidr v) endpointHex tags = False"

text \<open>The selectors a policy row can hold, and their printer.\<close>

datatype rowSelector =
    RowAny
  | RowEndpoint string
  | RowTag string
  | RowNetwork string
  | RowCidr string
  | RowUser string

fun selectorToString :: "rowSelector \<Rightarrow> string" where
  "selectorToString RowAny = ''*''"
| "selectorToString (RowEndpoint v) = v"
| "selectorToString (RowTag v) = ''tag:'' @ v"
| "selectorToString (RowNetwork v) = ''network:'' @ v"
| "selectorToString (RowCidr v) = v"
| "selectorToString (RowUser v) = ''user:'' @ v"

text \<open>The engine's selector that a row's selector denotes, and the rows whose text is unambiguous:
  no trailing white space in a name, hexadecimal endpoints, CIDR-shaped address ranges.\<close>

fun rowDenotes :: "rowSelector \<Rightarrow> parsedSelector" where
  "rowDenotes RowAny = SelAny"
| "rowDenotes (RowEndpoint v) = SelEndpoint v"
| "rowDenotes (RowTag v) = SelTag v"
| "rowDenotes (RowNetwork v) = SelNetwork v"
| "rowDenotes (RowCidr v) = SelCidr v"
| "rowDenotes (RowUser v) = SelUser v"

definition no_trailing_ws :: "string \<Rightarrow> bool" where
  "no_trailing_ws v = (v = [] \<or> \<not> js_ws (last v))"

fun rowSelector_wf :: "rowSelector \<Rightarrow> bool" where
  "rowSelector_wf RowAny = True"
| "rowSelector_wf (RowEndpoint v) = isEndpointHex v"
| "rowSelector_wf (RowTag v) = no_trailing_ws v"
| "rowSelector_wf (RowNetwork v) = no_trailing_ws v"
| "rowSelector_wf (RowCidr v) = looksLikeCidr v"
| "rowSelector_wf (RowUser v) = no_trailing_ws v"

section \<open>Character classes\<close>

lemma cidr_char_not_ws: "cidr_char c \<Longrightarrow> \<not> js_ws c"
proof -
  have "\<not> js_ws (CHR ''.'')" "\<not> js_ws (CHR '':'')" "\<not> js_ws (CHR ''/'')"
    by (simp_all add: js_ws_def code_unit_def)
  moreover have "is_hex_digit c \<Longrightarrow> \<not> js_ws c"
    by (auto simp: is_hex_digit_def is_digit_def js_ws_def Let_def)
  moreover assume "cidr_char c"
  ultimately show ?thesis by (auto simp: cidr_char_def)
qed

lemma hex_digit_cidr_char: "is_hex_digit c \<Longrightarrow> cidr_char c"
  by (simp add: cidr_char_def)

lemma hex_digit_not_slash: "is_hex_digit c \<Longrightarrow> c \<noteq> CHR ''/''"
  by (auto simp: is_hex_digit_def is_digit_def code_unit_def)

lemma not_cidr_chars:
  "\<not> cidr_char (CHR ''*'')" "\<not> cidr_char (CHR ''t'')" "\<not> cidr_char (CHR ''u'')" "\<not> cidr_char (CHR ''n'')"
  "\<not> cidr_char (CHR ''g'')" "\<not> cidr_char (CHR ''h'')" "\<not> cidr_char (CHR ''i'')" "\<not> cidr_char (CHR ''m'')"
  by (simp_all add: cidr_char_def is_hex_digit_def is_digit_def code_unit_def)

lemma startsWith_hd: "startsWith s (p # ps) \<Longrightarrow> p \<in> set s"
  by (auto simp: startsWith_iff)

text \<open>A text of address characters is not white-space padded and carries no prefix.\<close>

lemma cidr_text:
  assumes "s \<noteq> []" "\<forall>c \<in> set s. cidr_char c"
  shows "trim s = s" "s \<noteq> ''*''" "\<not> startsWith s ''tag:''" "\<not> startsWith s ''user:''"
    "\<not> startsWith s ''network:''" "\<not> startsWith s ''group:user:''" "\<not> startsWith s ''group:device:''"
    "\<not> startsWith s ''host:''" "\<not> startsWith s ''ipset:''"
  using assms not_cidr_chars by (auto simp: trim_id cidr_char_not_ws dest!: startsWith_hd)

lemma parseSelector_cidr: "looksLikeCidr s \<Longrightarrow> parseSelector s = Inr (SelCidr s)"
  using cidr_text [of s] by (simp add: parseSelector_def Let_def looksLikeCidr_def)

lemma isEndpointHex_text: "isEndpointHex s \<Longrightarrow> s \<noteq> [] \<and> (\<forall>c \<in> set s. cidr_char c) \<and> \<not> looksLikeCidr s"
  unfolding isEndpointHex_def looksLikeCidr_def
  using hex_digit_cidr_char hex_digit_not_slash by fastforce

lemma parseSelector_endpoint: "isEndpointHex s \<Longrightarrow> parseSelector s = Inr (SelEndpoint s)"
  using isEndpointHex_text [of s] cidr_text [of s] by (simp add: parseSelector_def Let_def)

lemma parseSelector_trim [simp]: "parseSelector (trim s) = parseSelector s"
  by (simp add: parseSelector_def)

lemma trim_prefixed:
  "\<not> js_ws (hd p) \<Longrightarrow> \<not> js_ws (last p) \<Longrightarrow> p \<noteq> [] \<Longrightarrow> no_trailing_ws v \<Longrightarrow> trim (p @ v) = p @ v"
  by (rule trim_id) (auto simp: no_trailing_ws_def last_append)

lemma trim_prefixes:
  assumes "no_trailing_ws v"
  shows "trim (''tag:'' @ v) = ''tag:'' @ v" "trim (''user:'' @ v) = ''user:'' @ v"
    "trim (''network:'' @ v) = ''network:'' @ v"
  using assms by (auto intro!: trim_prefixed simp del: append.simps simp: js_ws_def code_unit_def)

section \<open>Printing and parsing\<close>

lemma parseSelector_any: "parseSelector ''*'' = Inr SelAny"
  by (simp add: parseSelector_def trim_def js_ws_def code_unit_def)

lemma selector_round_trip:
  "rowSelector_wf r \<Longrightarrow> parseSelector (selectorToString r) = Inr (rowDenotes r)"
proof (cases r)
  case (RowTag v)
  moreover assume "rowSelector_wf r"
  ultimately show ?thesis using trim_prefixes [of v] by (simp add: parseSelector_def)
next
  case (RowNetwork v)
  moreover assume "rowSelector_wf r"
  ultimately show ?thesis using trim_prefixes [of v] by (simp add: parseSelector_def)
next
  case (RowUser v)
  moreover assume "rowSelector_wf r"
  ultimately show ?thesis using trim_prefixes [of v] by (simp add: parseSelector_def)
qed (simp_all add: parseSelector_any parseSelector_cidr parseSelector_endpoint)

lemma rowDenotes_inject [simp]: "rowDenotes a = rowDenotes b \<longleftrightarrow> a = b"
  by (cases a; cases b) auto

lemma selectorToString_inject:
  "rowSelector_wf a \<Longrightarrow> rowSelector_wf b \<Longrightarrow> selectorToString a = selectorToString b \<Longrightarrow> a = b"
  by (metis selector_round_trip rowDenotes_inject sum.inject(2))

lemma resolve_parses:
  assumes ids: "\<forall>e \<in> set endpoints. isEndpointHex (ere_endpointId e)"
    and res: "resolveSimulationSelector raw endpoints = Inr s"
  shows "\<exists>p. parseSelector s = Inr p"
proof -
  have found: "\<exists>p. parseSelector (ere_endpointId e) = Inr p" if "find P endpoints = Some e" for P e
    using that ids parseSelector_endpoint by (auto simp: find_Some_iff)
  show ?thesis
    using res found parseSelector_any
    by (auto simp: resolveSimulationSelector_def Let_def split: if_splits option.splits sum.splits)
qed

end
