(* ===== verification/Policy_Simulate.thy ===== *)
theory Policy_Simulate
  imports Policy_Selector "HOL-Library.Product_Lexorder"
begin

text \<open>
  The policy simulator, packages/policy-engine/src/simulate.ts: compilation of the ACL rules of a
  document, matching of a rule against one connection, and the evaluation in phases (organization
  deny, network deny, network allow, then the default action).

  The \<open>postureSkip\<close> cell that the phases share is threaded through them. The array sort of a phase is
  the stable \<^const>\<open>sort_key\<close> on the pair of order index and priority, which is what the comparator
  \<open>a.orderIndex - b.orderIndex || a.priority - b.priority\<close> orders by.

  \<open>decision_spec\<close> is the declarative reading of the evaluation; \<open>evaluateRules_refines\<close> shows that
  the phases compute it, from which the order independence of the verdict, the precedence of deny
  rules and the minimality of the reported rule follow.
\<close>

datatype protocol = PTcp | PUdp | PIcmp | PAny

record portRange =
  pr_start :: int
  pr_end :: int

record compiledRule =
  cr_name :: string
  cr_action :: action
  cr_scope :: scope
  cr_srcSelectors :: "parsedSelector list"
  cr_dstSelectors :: "parsedSelector list"
  cr_ports :: "portRange list"
  cr_protocol :: protocol
  cr_priority :: int
  cr_orderIndex :: int
  cr_posture :: "string list"
  cr_enabled :: bool

record scenario =
  sc_src :: string
  sc_dst :: string
  sc_port :: "int option"
  sc_protocol :: "string option"
  sc_srcPostureOk :: "bool option"

text \<open>The ranges that one port specification adds.\<close>

definition parsePort :: "string \<Rightarrow> portRange list" where
  "parsePort spec = (case parseInt spec of
       Some single \<Rightarrow> [\<lparr>pr_start = single, pr_end = single\<rparr>]
     | None \<Rightarrow>
         (case split_on (CHR ''-'') spec of
            [a, b] \<Rightarrow>
              (case (parseInt a, parseInt b) of
                 (Some start, Some end') \<Rightarrow> [\<lparr>pr_start = start, pr_end = end'\<rparr>]
               | _ \<Rightarrow> [])
          | _ \<Rightarrow> []))"

definition parsePorts :: "string list \<Rightarrow> portRange list" where
  "parsePorts specs = concat (map parsePort specs)"

definition parseProtocol :: "string \<Rightarrow> protocol" where
  "parseProtocol proto = (let p = toLowerCase proto in
     if p = ''tcp'' then PTcp else if p = ''udp'' then PUdp else if p = ''icmp'' then PIcmp else PAny)"

definition compileRule :: "aclRule \<Rightarrow> string \<Rightarrow> string \<Rightarrow> selectorError + compiledRule" where
  "compileRule acl src dst =
     res_bind (parseSelector src) (\<lambda>s.
     res_bind (parseSelector dst) (\<lambda>d.
       Inr \<lparr>cr_name = aclKey acl,
            cr_action = (if acl_action acl = ''deny'' then Deny else Allow),
            cr_scope = acl_scope acl,
            cr_srcSelectors = [s],
            cr_dstSelectors = [d],
            cr_ports = parsePorts (acl_ports acl),
            cr_protocol = (case acl_protocol acl of
                Some (Some p) \<Rightarrow> if p = [] then PAny else parseProtocol p
              | _ \<Rightarrow> PAny),
            cr_priority = acl_priority acl,
            cr_orderIndex = acl_orderIndex acl,
            cr_posture = acl_posture acl,
            cr_enabled = acl_enabled acl\<rparr>))"

definition selectors_or_any :: "string list \<Rightarrow> string list" where
  "selectors_or_any sels = (if 0 < length sels then sels else [''*''])"

definition compileAcl :: "aclRule \<Rightarrow> selectorError + compiledRule list" where
  "compileAcl acl =
     flat_traverse (\<lambda>src. traverse (compileRule acl src) (selectors_or_any (acl_dst acl)))
       (selectors_or_any (acl_src acl))"

definition compileRules :: "policyDocument \<Rightarrow> selectorError + compiledRule list" where
  "compileRules doc = flat_traverse compileAcl (filter acl_enabled (doc_acls doc))"

definition endpointForSelector :: "parsedSelector \<Rightarrow> string" where
  "endpointForSelector sel = (case simulationEndpoint sel of
       Some e \<Rightarrow> e | None \<Rightarrow> replicate 64 (CHR ''a''))"

definition tagsForSelector :: "parsedSelector \<Rightarrow> string list" where
  "tagsForSelector sel = simulationTags sel"

definition portMatches :: "portRange list \<Rightarrow> int option \<Rightarrow> protocol \<Rightarrow> bool" where
  "portMatches ports port protocol =
     (if length ports = 0 then True
      else if protocol = PIcmp then True
      else case port of
             None \<Rightarrow> False
           | Some p \<Rightarrow> list_ex (\<lambda>range. pr_start range \<le> p \<and> p \<le> pr_end range) ports)"

definition ruleMatches ::
    "compiledRule \<Rightarrow> string \<Rightarrow> string list \<Rightarrow> string \<Rightarrow> string list \<Rightarrow> int option \<Rightarrow> protocol \<Rightarrow> bool" where
  "ruleMatches rule srcEndpoint srcTags dstEndpoint dstTags port parsedProto =
     (let srcMatch = list_ex (\<lambda>sel. selectorMatches sel srcEndpoint srcTags) (cr_srcSelectors rule);
          dstMatch = list_ex (\<lambda>sel. selectorMatches sel dstEndpoint dstTags) (cr_dstSelectors rule) in
      if \<not> srcMatch \<or> \<not> dstMatch then False
      else if cr_protocol rule \<noteq> PAny \<and> cr_protocol rule \<noteq> parsedProto then False
      else portMatches (cr_ports rule) port parsedProto)"

definition phaseResult :: "compiledRule \<Rightarrow> simulateReason \<Rightarrow> simulateResult" where
  "phaseResult rule reason = \<lparr>sim_verdict = cr_action rule, sim_reason = reason,
     sim_matchedRules = [cr_name rule], sim_ruleSlug = Some (cr_name rule), sim_scope = Some (cr_scope rule)\<rparr>"

definition phaseCandidates :: "compiledRule list \<Rightarrow> scope \<Rightarrow> action \<Rightarrow> compiledRule list" where
  "phaseCandidates rules sc act =
     sort_key (\<lambda>r. (cr_orderIndex r, cr_priority r))
       (filter (\<lambda>r. cr_enabled r \<and> cr_scope r = sc \<and> cr_action r = act) rules)"

fun scanPhase :: "compiledRule list \<Rightarrow> (compiledRule \<Rightarrow> bool) \<Rightarrow> bool \<Rightarrow> compiledRule option \<Rightarrow>
    compiledRule option \<times> compiledRule option" where
  "scanPhase [] match srcPostureOk skip = (None, skip)"
| "scanPhase (rule # rules) match srcPostureOk skip =
     (if \<not> match rule then scanPhase rules match srcPostureOk skip
      else if 0 < length (cr_posture rule) \<and> \<not> srcPostureOk then
        scanPhase rules match srcPostureOk (if skip = None then Some rule else skip)
      else (Some rule, skip))"

definition firstInPhase :: "compiledRule list \<Rightarrow> scope \<Rightarrow> action \<Rightarrow> (compiledRule \<Rightarrow> bool) \<Rightarrow> bool \<Rightarrow>
    compiledRule option \<Rightarrow> compiledRule option \<times> compiledRule option" where
  "firstInPhase rules sc act match srcPostureOk skip =
     scanPhase (phaseCandidates rules sc act) match srcPostureOk skip"

definition evaluateRules :: "compiledRule list \<Rightarrow> string \<Rightarrow> string list \<Rightarrow> string \<Rightarrow> string list \<Rightarrow>
    int option \<Rightarrow> string \<Rightarrow> action \<Rightarrow> icmpPolicy \<Rightarrow> bool \<Rightarrow> simulateResult" where
  "evaluateRules rules srcEndpoint srcTags dstEndpoint dstTags port protocol defaultAction icmpPol srcPostureOk =
     (let parsedProto = parseProtocol protocol in
      if parsedProto = PIcmp \<and> icmpPol = IcmpAllow then
        \<lparr>sim_verdict = Allow, sim_reason = IcmpPolicyReason, sim_matchedRules = [''builtin:icmp''],
         sim_ruleSlug = None, sim_scope = None\<rparr>
      else if parsedProto = PIcmp \<and> icmpPol = IcmpDeny then
        \<lparr>sim_verdict = Deny, sim_reason = IcmpPolicyReason, sim_matchedRules = [''builtin:icmp''],
         sim_ruleSlug = None, sim_scope = None\<rparr>
      else
        let match = (\<lambda>rule. ruleMatches rule srcEndpoint srcTags dstEndpoint dstTags port parsedProto);
            (orgDeny, skip1) = firstInPhase rules ScopeOrganization Deny match srcPostureOk None in
        case orgDeny of
          Some r \<Rightarrow> phaseResult r OrgDeny
        | None \<Rightarrow>
          (let (netDeny, skip2) = firstInPhase rules ScopeNetwork Deny match srcPostureOk skip1 in
           case netDeny of
             Some r \<Rightarrow> phaseResult r NetworkDeny
           | None \<Rightarrow>
             (let (netAllow, skip3) = firstInPhase rules ScopeNetwork Allow match srcPostureOk skip2 in
              case netAllow of
                Some r \<Rightarrow> phaseResult r NetworkAllow
              | None \<Rightarrow>
                (case skip3 of
                   Some r \<Rightarrow>
                     \<lparr>sim_verdict = defaultAction, sim_reason = PostureSkip,
                      sim_matchedRules = [cr_name r], sim_ruleSlug = Some (cr_name r),
                      sim_scope = Some (cr_scope r)\<rparr>
                 | None \<Rightarrow>
                     \<lparr>sim_verdict = defaultAction,
                      sim_reason = (if defaultAction = Allow then DefaultAllow else DefaultDeny),
                      sim_matchedRules = [], sim_ruleSlug = None, sim_scope = None\<rparr>))))"

definition simulateDocument :: "policyDocument \<Rightarrow> scenario \<Rightarrow> selectorError + simulateResult" where
  "simulateDocument doc sc =
     res_bind (compileRules doc) (\<lambda>rules.
     res_bind (parseSelector (sc_src sc)) (\<lambda>srcSel.
     res_bind (parseSelector (sc_dst sc)) (\<lambda>dstSel.
       Inr (evaluateRules rules (endpointForSelector srcSel) (tagsForSelector srcSel)
              (endpointForSelector dstSel) (tagsForSelector dstSel) (sc_port sc)
              (case sc_protocol sc of Some p \<Rightarrow> p | None \<Rightarrow> ''tcp'')
              (doc_default_action doc) (doc_icmp_policy doc)
              (case sc_srcPostureOk sc of Some b \<Rightarrow> b | None \<Rightarrow> True)))))"

definition compileAclRules :: "policyDocument \<Rightarrow> aclRule list" where
  "compileAclRules doc = doc_acls doc"

section \<open>The declarative reading of an evaluation\<close>

definition in_phase :: "scope \<Rightarrow> action \<Rightarrow> compiledRule \<Rightarrow> bool" where
  "in_phase sc act r = (cr_enabled r \<and> cr_scope r = sc \<and> cr_action r = act)"

text \<open>A rule takes effect when it matches and, if it demands a posture, the source satisfies it.\<close>

definition effective :: "(compiledRule \<Rightarrow> bool) \<Rightarrow> bool \<Rightarrow> compiledRule \<Rightarrow> bool" where
  "effective match srcPostureOk r = (match r \<and> (cr_posture r = [] \<or> srcPostureOk))"

definition some_effective ::
    "compiledRule set \<Rightarrow> scope \<Rightarrow> action \<Rightarrow> (compiledRule \<Rightarrow> bool) \<Rightarrow> bool \<Rightarrow> bool" where
  "some_effective R sc act match ok = (\<exists>r \<in> R. in_phase sc act r \<and> effective match ok r)"

definition some_matching :: "compiledRule set \<Rightarrow> scope \<Rightarrow> action \<Rightarrow> (compiledRule \<Rightarrow> bool) \<Rightarrow> bool" where
  "some_matching R sc act match = (\<exists>r \<in> R. in_phase sc act r \<and> match r)"

definition decision_spec ::
    "compiledRule set \<Rightarrow> (compiledRule \<Rightarrow> bool) \<Rightarrow> bool \<Rightarrow> action \<Rightarrow> action \<times> simulateReason" where
  "decision_spec R match ok defaultAction =
     (if some_effective R ScopeOrganization Deny match ok then (Deny, OrgDeny)
      else if some_effective R ScopeNetwork Deny match ok then (Deny, NetworkDeny)
      else if some_effective R ScopeNetwork Allow match ok then (Allow, NetworkAllow)
      else if some_matching R ScopeOrganization Deny match \<or> some_matching R ScopeNetwork Deny match \<or>
              some_matching R ScopeNetwork Allow match then (defaultAction, PostureSkip)
      else (defaultAction, if defaultAction = Allow then DefaultAllow else DefaultDeny))"

definition outcome :: "simulateResult \<Rightarrow> action \<times> simulateReason" where
  "outcome res = (sim_verdict res, sim_reason res)"

definition builtin_icmp :: "string \<Rightarrow> icmpPolicy \<Rightarrow> bool" where
  "builtin_icmp protocol icmpPol = (parseProtocol protocol = PIcmp \<and> icmpPol \<noteq> IcmpAcl)"

section \<open>The phases\<close>

lemma set_phaseCandidates: "set (phaseCandidates rules sc act) = {r \<in> set rules. in_phase sc act r}"
  by (auto simp: phaseCandidates_def in_phase_def)

lemma scanPhase_found: "fst (scanPhase rs match ok skip) = find (effective match ok) rs"
  by (induction rs match ok skip rule: scanPhase.induct) (auto simp: effective_def)

lemma scanPhase_skip:
  "fst (scanPhase rs match ok skip) = None \<Longrightarrow>
   snd (scanPhase rs match ok skip) = (case skip of Some r \<Rightarrow> Some r | None \<Rightarrow> find match rs)"
  by (induction rs match ok skip rule: scanPhase.induct) (auto split: option.splits if_splits)

lemma firstInPhase_found:
  "fst (firstInPhase rules sc act match ok skip) = find (effective match ok) (phaseCandidates rules sc act)"
  by (simp add: firstInPhase_def scanPhase_found)

lemma firstInPhase_None:
  "fst (firstInPhase rules sc act match ok skip) = None \<longleftrightarrow> \<not> some_effective (set rules) sc act match ok"
  by (auto simp: firstInPhase_found find_None_iff set_phaseCandidates some_effective_def)

lemma firstInPhase_skip_None:
  "fst (firstInPhase rules sc act match ok skip) = None \<Longrightarrow>
   snd (firstInPhase rules sc act match ok skip) = None \<longleftrightarrow> skip = None \<and> \<not> some_matching (set rules) sc act match"
  unfolding firstInPhase_def
  by (auto simp: scanPhase_skip find_None_iff set_phaseCandidates some_matching_def split: option.splits)

lemma firstInPhase_elem:
  "fst (firstInPhase rules sc act match ok skip) = Some r \<Longrightarrow>
   r \<in> set rules \<and> in_phase sc act r \<and> effective match ok r"
proof -
  assume "fst (firstInPhase rules sc act match ok skip) = Some r"
  then have "find (effective match ok) (phaseCandidates rules sc act) = Some r"
    by (simp add: firstInPhase_found)
  then have "r \<in> set (phaseCandidates rules sc act)" "effective match ok r"
    by (auto simp: find_Some_iff)
  then show ?thesis by (auto simp: set_phaseCandidates)
qed

lemma sorted_find_least:
  assumes "sorted (map f xs)" "find P xs = Some x" "y \<in> set xs" "P y"
  shows "f x \<le> f y"
  using assms by (induction xs) (auto split: if_splits)

lemma firstInPhase_least:
  assumes "fst (firstInPhase rules sc act match ok skip) = Some r"
    and "q \<in> set rules" "in_phase sc act q" "effective match ok q"
  shows "(cr_orderIndex r, cr_priority r) \<le> (cr_orderIndex q, cr_priority q)"
proof -
  let ?key = "\<lambda>r. (cr_orderIndex r, cr_priority r)"
  have "sorted (map ?key (phaseCandidates rules sc act))"
    by (simp add: phaseCandidates_def)
  moreover have "find (effective match ok) (phaseCandidates rules sc act) = Some r"
    using assms(1) by (simp add: firstInPhase_found)
  moreover have "q \<in> set (phaseCandidates rules sc act)"
    using assms by (auto simp: set_phaseCandidates)
  ultimately show ?thesis using sorted_find_least [of ?key] assms(4) by blast
qed

section \<open>Evaluation\<close>

lemma evaluateRules_phases:
  fixes rules srcEndpoint srcTags dstEndpoint dstTags port protocol defaultAction icmpPol ok
  defines "match \<equiv> \<lambda>rule. ruleMatches rule srcEndpoint srcTags dstEndpoint dstTags port (parseProtocol protocol)"
  defines "p1 \<equiv> firstInPhase rules ScopeOrganization Deny match ok None"
  defines "p2 \<equiv> firstInPhase rules ScopeNetwork Deny match ok (snd p1)"
  defines "p3 \<equiv> firstInPhase rules ScopeNetwork Allow match ok (snd p2)"
  assumes "\<not> builtin_icmp protocol icmpPol"
  shows "evaluateRules rules srcEndpoint srcTags dstEndpoint dstTags port protocol defaultAction icmpPol ok =
    (case fst p1 of Some r \<Rightarrow> phaseResult r OrgDeny
     | None \<Rightarrow> (case fst p2 of Some r \<Rightarrow> phaseResult r NetworkDeny
     | None \<Rightarrow> (case fst p3 of Some r \<Rightarrow> phaseResult r NetworkAllow
     | None \<Rightarrow> (case snd p3 of
          Some r \<Rightarrow> \<lparr>sim_verdict = defaultAction, sim_reason = PostureSkip, sim_matchedRules = [cr_name r],
                     sim_ruleSlug = Some (cr_name r), sim_scope = Some (cr_scope r)\<rparr>
        | None \<Rightarrow> \<lparr>sim_verdict = defaultAction,
                   sim_reason = (if defaultAction = Allow then DefaultAllow else DefaultDeny),
                   sim_matchedRules = [], sim_ruleSlug = None, sim_scope = None\<rparr>))))"
proof -
  have "\<not> (parseProtocol protocol = PIcmp \<and> icmpPol = IcmpAllow)"
    "\<not> (parseProtocol protocol = PIcmp \<and> icmpPol = IcmpDeny)"
    using assms(5) by (auto simp: builtin_icmp_def)
  then show ?thesis
    unfolding evaluateRules_def Let_def p3_def p2_def p1_def match_def
    by (simp only: if_False case_prod_beta)
qed

lemma evaluateRules_decides:
  assumes "\<not> builtin_icmp protocol icmpPol"
  shows "outcome
           (evaluateRules rules srcEndpoint srcTags dstEndpoint dstTags port protocol defaultAction icmpPol ok) =
         decision_spec (set rules)
           (\<lambda>rule. ruleMatches rule srcEndpoint srcTags dstEndpoint dstTags port (parseProtocol protocol))
           ok defaultAction"
proof -
  let ?m = "\<lambda>rule. ruleMatches rule srcEndpoint srcTags dstEndpoint dstTags port (parseProtocol protocol)"
  let ?p1 = "firstInPhase rules ScopeOrganization Deny ?m ok None"
  let ?p2 = "firstInPhase rules ScopeNetwork Deny ?m ok (snd ?p1)"
  let ?p3 = "firstInPhase rules ScopeNetwork Allow ?m ok (snd ?p2)"
  note phases = evaluateRules_phases [OF assms, of rules srcEndpoint srcTags dstEndpoint dstTags port defaultAction ok]
  have act: "cr_action r = act" if "fst (firstInPhase rules sc act ?m ok skip) = Some r" for sc act skip r
    using firstInPhase_elem [OF that] by (simp add: in_phase_def)
  note found = firstInPhase_None [of rules ScopeOrganization Deny ?m ok None]
    firstInPhase_None [of rules ScopeNetwork Deny ?m ok "snd ?p1"]
    firstInPhase_None [of rules ScopeNetwork Allow ?m ok "snd ?p2"]
  note skipped = firstInPhase_skip_None [of rules ScopeOrganization Deny ?m ok None]
    firstInPhase_skip_None [of rules ScopeNetwork Deny ?m ok "snd ?p1"]
    firstInPhase_skip_None [of rules ScopeNetwork Allow ?m ok "snd ?p2"]
  consider r where "fst ?p1 = Some r" | r where "fst ?p1 = None" "fst ?p2 = Some r"
    | r where "fst ?p1 = None" "fst ?p2 = None" "fst ?p3 = Some r"
    | "fst ?p1 = None" "fst ?p2 = None" "fst ?p3 = None"
    by (metis option.exhaust)
  then show ?thesis
  proof cases
    case (4)
    then show ?thesis
      using found skipped by (cases "snd ?p3") (auto simp: phases outcome_def decision_spec_def)
  qed (use found act in \<open>simp_all add: phases outcome_def phaseResult_def decision_spec_def\<close>)
qed

lemma decision_spec_deny:
  assumes "r \<in> R" "cr_enabled r" "cr_action r = Deny" "effective match ok r"
  shows "fst (decision_spec R match ok d) = Deny"
proof -
  have "some_effective R (cr_scope r) Deny match ok"
    using assms by (auto simp: some_effective_def in_phase_def)
  then show ?thesis by (cases "cr_scope r") (auto simp: decision_spec_def)
qed

lemma compileRules_set:
  "compileRules doc = Inr rules \<Longrightarrow> r \<in> set rules \<longleftrightarrow>
     (\<exists>acl \<in> set (doc_acls doc). acl_enabled acl \<and> (\<exists>rs. compileAcl acl = Inr rs \<and> r \<in> set rs))"
  unfolding compileRules_def by (drule flat_traverse_elem) auto

lemma compileRules_ok:
  "is_ok (compileRules doc) \<longleftrightarrow> (\<forall>acl \<in> set (doc_acls doc). acl_enabled acl \<longrightarrow> is_ok (compileAcl acl))"
  by (auto simp: compileRules_def is_ok_flat_traverse)

lemma compileRule_ok: "is_ok (compileRule acl src dst) \<longleftrightarrow> is_ok (parseSelector src) \<and> is_ok (parseSelector dst)"
  by (cases "parseSelector src"; cases "parseSelector dst") (simp_all add: compileRule_def)

lemma compileAcl_ok:
  "is_ok (compileAcl acl) \<longleftrightarrow>
     (\<forall>src \<in> set (selectors_or_any (acl_src acl)). \<forall>dst \<in> set (selectors_or_any (acl_dst acl)).
        is_ok (parseSelector src) \<and> is_ok (parseSelector dst))"
  unfolding compileAcl_def by (simp only: is_ok_flat_traverse is_ok_traverse compileRule_ok)

lemma compileAcl_parses:
  "\<forall>s \<in> set (acl_src acl) \<union> set (acl_dst acl). is_ok (parseSelector s) \<Longrightarrow> is_ok (compileAcl acl)"
  by (simp add: compileAcl_ok selectors_or_any_def parseSelector_any)

lemma compileAcl_elem:
  assumes "compileAcl acl = Inr rs" "src \<in> set (selectors_or_any (acl_src acl))"
    "dst \<in> set (selectors_or_any (acl_dst acl))"
  shows "\<exists>r \<in> set rs. compileRule acl src dst = Inr r"
proof -
  have "\<forall>d \<in> set (selectors_or_any (acl_dst acl)). is_ok (compileRule acl src d)"
    using assms compileAcl_ok [of acl] by (simp add: compileRule_ok)
  then obtain row where row: "traverse (compileRule acl src) (selectors_or_any (acl_dst acl)) = Inr row"
    using traverse_ex by blast
  obtain r where r: "compileRule acl src dst = Inr r"
    using \<open>\<forall>d \<in> _. _\<close> assms(3) by (auto simp: is_ok_iff)
  then have "r \<in> set row" using traverse_elem [OF row] assms(3) by auto
  then have "r \<in> set rs"
    using flat_traverse_elem [OF assms(1) [unfolded compileAcl_def]] row assms(2) by auto
  then show ?thesis using r by blast
qed

lemma simulateDocument_Inr:
  assumes "simulateDocument doc sc = Inr res"
  obtains rules s d where "compileRules doc = Inr rules" "parseSelector (sc_src sc) = Inr s"
    "parseSelector (sc_dst sc) = Inr d"
    "res = evaluateRules rules (endpointForSelector s) (tagsForSelector s) (endpointForSelector d)
       (tagsForSelector d) (sc_port sc) (case sc_protocol sc of Some p \<Rightarrow> p | None \<Rightarrow> ''tcp'')
       (doc_default_action doc) (doc_icmp_policy doc) (case sc_srcPostureOk sc of Some b \<Rightarrow> b | None \<Rightarrow> True)"
  using assms by (auto simp: simulateDocument_def res_bind_Inr_iff)

lemma compileRule_fields:
  assumes "compileRule acl src dst = Inr r"
  shows "cr_name r = aclKey acl" "cr_enabled r = acl_enabled acl" "cr_posture r = acl_posture acl"
    "cr_action r = (if acl_action acl = ''deny'' then Deny else Allow)" "cr_scope r = acl_scope acl"
  using assms by (auto simp: compileRule_def res_bind_Inr_iff)

lemma evaluateRules_cong:
  assumes "set rules = set rules'"
  shows "outcome
           (evaluateRules rules srcEndpoint srcTags dstEndpoint dstTags port protocol d icmp ok) =
         outcome
           (evaluateRules rules' srcEndpoint srcTags dstEndpoint dstTags port protocol d icmp ok)"
proof (cases "builtin_icmp protocol icmp")
  case True
  then show ?thesis by (cases icmp) (auto simp: evaluateRules_def builtin_icmp_def)
next
  case False
  then show ?thesis using assms by (simp add: evaluateRules_decides)
qed

lemma parsePort_range:
  "parsePort (show_nat a @ CHR ''-'' # r) = [\<lparr>pr_start = int a, pr_end = int a\<rparr>]"
proof -
  have "no_digit_first (CHR ''-'' # r)"
    by (simp add: no_digit_first_def is_digit_def code_unit_def)
  then show ?thesis by (simp add: parsePort_def parseInt_show_nat)
qed

section \<open>A worked document\<close>

text \<open>A document that allows everything and denies the database port, listed after the allow rule;
  the witnesses below evaluate the properties on it.\<close>

definition ex_allow :: aclRule where
  "ex_allow = \<lparr>acl_name = ''allow-all'', acl_slug = None, acl_action = ''allow'', acl_src = [], acl_dst = [],
     acl_ports = [], acl_protocol = None, acl_priority = 0, acl_orderIndex = 0, acl_scope = ScopeNetwork,
     acl_posture = [], acl_labels = [], acl_enabled = True\<rparr>"

definition ex_deny :: aclRule where
  "ex_deny = \<lparr>acl_name = ''no-db'', acl_slug = None, acl_action = ''deny'', acl_src = [],
     acl_dst = [''tag:db''], acl_ports = [''5432''], acl_protocol = None, acl_priority = 7,
     acl_orderIndex = 9, acl_scope = ScopeNetwork, acl_posture = [], acl_labels = [], acl_enabled = True\<rparr>"

definition ex_doc :: "aclRule list \<Rightarrow> policyDocument" where
  "ex_doc acls = emptyDocument\<lparr>doc_acls := acls\<rparr>"

definition ex_rule :: "aclRule \<Rightarrow> parsedSelector \<Rightarrow> compiledRule" where
  "ex_rule acl dst = \<lparr>cr_name = aclKey acl, cr_action = (if acl_action acl = ''deny'' then Deny else Allow),
     cr_scope = acl_scope acl, cr_srcSelectors = [SelAny], cr_dstSelectors = [dst],
     cr_ports = parsePorts (acl_ports acl), cr_protocol = PAny, cr_priority = acl_priority acl,
     cr_orderIndex = acl_orderIndex acl, cr_posture = acl_posture acl, cr_enabled = acl_enabled acl\<rparr>"

definition ex_scenario :: scenario where
  "ex_scenario = \<lparr>sc_src = ''tag:web'', sc_dst = ''tag:db'', sc_port = Some 5432, sc_protocol = None,
     sc_srcPostureOk = None\<rparr>"

section \<open>Properties\<close>

text \<open>
  C1. The phased evaluation of the simulator computes the declarative decision: outside the built-in
  ICMP switch, the verdict and the reason are exactly those of \<open>decision_spec\<close>, a function of the
  \<^emph>\<open>set\<close> of compiled rules: an effective organization deny wins, then an effective network deny, then
  an effective network allow, then the default action, reported as a posture skip when a rule was
  passed over only because the source failed its posture.
\<close>

theorem evaluateRules_refines:
  assumes "\<not> builtin_icmp protocol icmpPol"
  shows "outcome
           (evaluateRules rules srcEndpoint srcTags dstEndpoint dstTags port protocol defaultAction icmpPol ok) =
         decision_spec (set rules)
           (\<lambda>rule. ruleMatches rule srcEndpoint srcTags dstEndpoint dstTags port (parseProtocol protocol))
           ok defaultAction"
  using assms by (rule evaluateRules_decides)

theorem evaluateRules_refines_witness:
  "\<not> builtin_icmp ''tcp'' IcmpAllow \<and>
   outcome (evaluateRules [ex_rule ex_allow SelAny, ex_rule ex_deny (SelTag ''db'')]
     ''aa'' [''web''] ''bb'' [''db''] (Some 5432) ''tcp'' Allow IcmpAllow True) = (Deny, NetworkDeny)"
proof -
  have h: "\<not> builtin_icmp ''tcp'' IcmpAllow" by code_simp
  have spec: "decision_spec (set [ex_rule ex_allow SelAny, ex_rule ex_deny (SelTag ''db'')])
      (\<lambda>rule. ruleMatches rule ''aa'' [''web''] ''bb'' [''db''] (Some 5432) (parseProtocol ''tcp'')) True Allow
      = (Deny, NetworkDeny)" by code_simp
  show ?thesis
    using h evaluateRules_refines [OF h, of "[ex_rule ex_allow SelAny, ex_rule ex_deny (SelTag ''db'')]"
        "''aa''" "[''web'']" "''bb''" "[''db'']" "Some 5432" Allow True] spec
    by simp
qed



text \<open>
  C3. The rule a simulation reports is the right one: when the reason names a phase, the reported
  name, slug and scope are those of a rule of that phase that takes effect, and no rule of the phase
  that takes effect has a smaller pair of order index and priority.
\<close>

theorem simulate_reports_least:
  assumes "\<not> builtin_icmp protocol icmpPol"
    and "res = evaluateRules rules srcEndpoint srcTags dstEndpoint dstTags port protocol defaultAction icmpPol ok"
    and "match = (\<lambda>rule. ruleMatches rule srcEndpoint srcTags dstEndpoint dstTags port (parseProtocol protocol))"
    and "(sim_reason res, sc, act) \<in>
      {(OrgDeny, ScopeOrganization, Deny), (NetworkDeny, ScopeNetwork, Deny), (NetworkAllow, ScopeNetwork, Allow)}"
  shows "\<exists>r \<in> set rules. in_phase sc act r \<and> effective match ok r \<and>
    res = phaseResult r (sim_reason res) \<and>
    (\<forall>q \<in> set rules. in_phase sc act q \<and> effective match ok q \<longrightarrow>
       (cr_orderIndex r, cr_priority r) \<le> (cr_orderIndex q, cr_priority q))"
proof -
  let ?p1 = "firstInPhase rules ScopeOrganization Deny match ok None"
  let ?p2 = "firstInPhase rules ScopeNetwork Deny match ok (snd ?p1)"
  let ?p3 = "firstInPhase rules ScopeNetwork Allow match ok (snd ?p2)"
  note phases = evaluateRules_phases [OF assms(1), of rules srcEndpoint srcTags dstEndpoint dstTags port
      defaultAction ok, folded assms(2,3)]
  obtain r skip where r: "fst (firstInPhase rules sc act match ok skip) = Some r" "res = phaseResult r (sim_reason res)"
    using assms(4) phases
    by (cases "fst ?p1"; cases "fst ?p2"; cases "fst ?p3"; cases "snd ?p3")
       (auto simp: phaseResult_def split: if_splits)
  show ?thesis
    using r(2) firstInPhase_elem [OF r(1)] firstInPhase_least [OF r(1)] by blast
qed

theorem simulate_reports_least_witness:
  "\<exists>r \<in> set [ex_rule ex_allow SelAny, ex_rule ex_deny (SelTag ''db'')]. in_phase ScopeNetwork Deny r \<and>
     evaluateRules [ex_rule ex_allow SelAny, ex_rule ex_deny (SelTag ''db'')]
       ''aa'' [''web''] ''bb'' [''db''] (Some 5432) ''tcp'' Allow IcmpAllow True = phaseResult r NetworkDeny"
proof -
  let ?rules = "[ex_rule ex_allow SelAny, ex_rule ex_deny (SelTag ''db'')]"
  let ?res = "evaluateRules ?rules ''aa'' [''web''] ''bb'' [''db''] (Some 5432) ''tcp'' Allow IcmpAllow True"
  have h: "\<not> builtin_icmp ''tcp'' IcmpAllow" by code_simp
  have reason: "sim_reason ?res = NetworkDeny" by code_simp
  show ?thesis
    using simulate_reports_least [OF h refl refl, of ?rules "''aa''" "[''web'']" "''bb''" "[''db'']" "Some 5432"
        Allow True ScopeNetwork Deny] unfolding reason by blast
qed

text \<open>
  C4. The verdict and the reason of a simulation do not depend on the order in which a document
  lists its ACLs: two documents with the same set of ACLs and the same defaults give every scenario
  that both accept the same verdict for the same reason.
\<close>

theorem simulate_order_independent:
  assumes "set (doc_acls doc) = set (doc_acls doc')"
    and "doc_default_action doc = doc_default_action doc'" "doc_icmp_policy doc = doc_icmp_policy doc'"
    and "simulateDocument doc sc = Inr res" "simulateDocument doc' sc = Inr res'"
  shows "sim_verdict res = sim_verdict res' \<and> sim_reason res = sim_reason res'"
proof -
  from assms(4) obtain rules s d where 1: "compileRules doc = Inr rules" "parseSelector (sc_src sc) = Inr s"
    "parseSelector (sc_dst sc) = Inr d"
    "res = evaluateRules rules (endpointForSelector s) (tagsForSelector s) (endpointForSelector d)
       (tagsForSelector d) (sc_port sc) (case sc_protocol sc of Some p \<Rightarrow> p | None \<Rightarrow> ''tcp'')
       (doc_default_action doc) (doc_icmp_policy doc) (case sc_srcPostureOk sc of Some b \<Rightarrow> b | None \<Rightarrow> True)"
    by (rule simulateDocument_Inr)
  from assms(5) 1(2,3) obtain rules' where 2: "compileRules doc' = Inr rules'"
    "res' = evaluateRules rules' (endpointForSelector s) (tagsForSelector s) (endpointForSelector d)
       (tagsForSelector d) (sc_port sc) (case sc_protocol sc of Some p \<Rightarrow> p | None \<Rightarrow> ''tcp'')
       (doc_default_action doc) (doc_icmp_policy doc) (case sc_srcPostureOk sc of Some b \<Rightarrow> b | None \<Rightarrow> True)"
    using assms(2,3) by (auto simp: simulateDocument_def res_bind_Inr_iff)
  have "set rules = set rules'"
    using compileRules_set [OF 1(1)] compileRules_set [OF 2(1)] assms(1) by blast
  then have "outcome res = outcome res'" unfolding 1(4) 2(2) by (rule evaluateRules_cong)
  then show ?thesis by (simp add: outcome_def)
qed

theorem simulate_order_independent_witness:
  "\<exists>res res'. simulateDocument (ex_doc [ex_allow, ex_deny]) ex_scenario = Inr res \<and>
     simulateDocument (ex_doc [ex_deny, ex_allow]) ex_scenario = Inr res' \<and>
     sim_verdict res = sim_verdict res' \<and> sim_reason res = sim_reason res'"
proof -
  have "is_ok (simulateDocument (ex_doc [ex_allow, ex_deny]) ex_scenario)"
    "is_ok (simulateDocument (ex_doc [ex_deny, ex_allow]) ex_scenario)" by code_simp+
  then obtain res res' where res: "simulateDocument (ex_doc [ex_allow, ex_deny]) ex_scenario = Inr res"
    "simulateDocument (ex_doc [ex_deny, ex_allow]) ex_scenario = Inr res'"
    by (auto simp: is_ok_iff)
  have "sim_verdict res = sim_verdict res' \<and> sim_reason res = sim_reason res'"
    by (rule simulate_order_independent [OF _ _ _ res]) (simp_all add: ex_doc_def insert_commute)
  then show ?thesis using res by blast
qed

text \<open>
  A port range is not honoured: whatever range \<open>a-b\<close> a rule names, the compiled rule covers the
  single port \<open>a\<close>, because \<open>parseInt\<close> reads the number before the dash and the branch that splits at
  the dash is reached only when there is none. A deny rule on ports 80-443 therefore does not match a
  connection to port 443.
\<close>

theorem parsePorts_range_collapses:
  "parsePorts [show_nat a @ ''-'' @ show_nat b] = [\<lparr>pr_start = int a, pr_end = int a\<rparr>]"
  by (simp add: parsePorts_def parsePort_range)

end
