(* ===== verification/Json.thy ===== *)
theory Json
  imports Js_Prelude "HOL-Library.Multiset"
begin

text \<open>
  The JSON values the program exchanges, and \<open>JSON.stringify\<close> and \<open>JSON.parse\<close> of the language,
  which the licence token, the policy hash and the policy diff are built on.

  A number is \<open>JInt\<close> when its value is an integer; a number literal with a fractional value is kept
  as its text in \<open>JFrac\<close>, because the modelled code only ever asks whether a number is an integer.
  An object is its list of members in the order in which the language enumerates them
  (\<open>prop_order\<close>): keys that are array indices first, in ascending order, then the others in
  insertion order; the key \<open>__proto__\<close>, whose assignment the language treats apart, is not
  considered. A \<open>\u\<close> escape above \<open>00ff\<close> denotes a code
  unit outside the strings of this model and is not decoded.

  The parser is structurally recursive on a fuel argument; \<open>json_parse\<close> runs it with twice the
  length of the text plus two, and \<open>parse_value_stable\<close> shows that more fuel never changes its
  answer. The main results are that parsing inverts printing on every well-formed value
  (\<open>parse_stringify\<close>), which makes printing injective, collected in the interpretation
  \<open>json_codec\<close>.
\<close>

datatype json =
    JNull
  | JBool bool
  | JInt int
  | JFrac string
  | JStr string
  | JArr "json list"
  | JObj "(string \<times> json) list"

section \<open>Property order\<close>

definition is_index :: "string \<Rightarrow> bool" where
  "is_index k = (k \<noteq> [] \<and> (\<forall>c \<in> set k. is_digit c) \<and> (hd k \<noteq> CHR ''0'' \<or> k = ''0'') \<and>
     digits_val 0 k < 4294967295)"

definition prop_order :: "(string \<times> 'a) list \<Rightarrow> (string \<times> 'a) list" where
  "prop_order kvs = sort_key (\<lambda>kv. digits_val 0 (fst kv)) (filter (\<lambda>kv. is_index (fst kv)) kvs) @
     filter (\<lambda>kv. \<not> is_index (fst kv)) kvs"

section \<open>JSON.stringify\<close>

definition hex_char :: "nat \<Rightarrow> char" where
  "hex_char d = (if d < 10 then char_of (48 + d) else char_of (87 + d))"

definition esc_char :: "char \<Rightarrow> string" where
  "esc_char c = (let n = code_unit c in
     if n = 34 then [CHR 0x5C, CHR 0x22]
     else if n = 92 then [CHR 0x5C, CHR 0x5C]
     else if n = 8 then [CHR 0x5C, CHR ''b'']
     else if n = 9 then [CHR 0x5C, CHR ''t'']
     else if n = 10 then [CHR 0x5C, CHR ''n'']
     else if n = 12 then [CHR 0x5C, CHR ''f'']
     else if n = 13 then [CHR 0x5C, CHR ''r'']
     else if n < 32 then [CHR 0x5C, CHR ''u'', CHR ''0'', CHR ''0'', hex_char (n div 16), hex_char (n mod 16)]
     else [c])"

definition quote :: "string \<Rightarrow> string" where
  "quote s = CHR 0x22 # concat (map esc_char s) @ [CHR 0x22]"

fun stringify :: "json \<Rightarrow> string" where
  "stringify JNull = ''null''"
| "stringify (JBool b) = (if b then ''true'' else ''false'')"
| "stringify (JInt i) = show_int i"
| "stringify (JFrac t) = t"
| "stringify (JStr s) = quote s"
| "stringify (JArr xs) = ''['' @ join '','' (map stringify xs) @ '']''"
| "stringify (JObj kvs) =
     ''{'' @ join '','' (map (\<lambda>kv. quote (fst kv) @ '':'' @ stringify (snd kv)) kvs) @ ''}''"

section \<open>JSON.parse\<close>

definition json_ws :: "char \<Rightarrow> bool" where
  "json_ws c = (c = CHR '' '' \<or> c = CHR 0x09 \<or> c = CHR 0x0A \<or> c = CHR 0x0D)"

definition skip_ws :: "string \<Rightarrow> string" where
  "skip_ws s = dropWhile json_ws s"

definition hex_val :: "char \<Rightarrow> nat option" where
  "hex_val c = (let n = code_unit c in
     if 48 \<le> n \<and> n \<le> 57 then Some (n - 48)
     else if 65 \<le> n \<and> n \<le> 70 then Some (n - 55)
     else if 97 \<le> n \<and> n \<le> 102 then Some (n - 87)
     else None)"

definition unescape :: "char \<Rightarrow> char option" where
  "unescape c =
     (if c = CHR 0x22 \<or> c = CHR 0x5C \<or> c = CHR ''/'' then Some c
      else if c = CHR ''b'' then Some (CHR 0x08)
      else if c = CHR ''f'' then Some (CHR 0x0C)
      else if c = CHR ''n'' then Some (CHR 0x0A)
      else if c = CHR ''r'' then Some (CHR 0x0D)
      else if c = CHR ''t'' then Some (CHR 0x09)
      else None)"

definition unescape_u :: "char \<Rightarrow> char \<Rightarrow> char \<Rightarrow> char \<Rightarrow> char option" where
  "unescape_u a b c d = (case (hex_val a, hex_val b, hex_val c, hex_val d) of
       (Some x, Some y, Some z, Some w) \<Rightarrow>
         if x = 0 \<and> y = 0 then Some (char_of (16 * z + w)) else None
     | _ \<Rightarrow> None)"

text \<open>The body of a string literal, after its opening quote.\<close>

fun parse_str :: "string \<Rightarrow> (string \<times> string) option" where
  "parse_str [] = None"
| "parse_str (c # r) =
     (if c = CHR 0x22 then Some ([], r)
      else if c = CHR 0x5C then
        (case r of
           e # r1 \<Rightarrow>
             if e = CHR ''u'' then
               (case r1 of
                  a # b # x # y # r2 \<Rightarrow>
                    (case unescape_u a b x y of
                       None \<Rightarrow> None
                     | Some u \<Rightarrow> map_option (apfst (Cons u)) (parse_str r2))
                | _ \<Rightarrow> None)
             else (case unescape e of
                     None \<Rightarrow> None
                   | Some u \<Rightarrow> map_option (apfst (Cons u)) (parse_str r1))
         | [] \<Rightarrow> None)
      else if code_unit c < 32 then None
      else map_option (apfst (Cons c)) (parse_str r))"

text \<open>A number literal: optional minus, integer part without leading zeros, optional fraction,
  optional exponent.\<close>

definition number_value :: "bool \<Rightarrow> int \<Rightarrow> int \<Rightarrow> string \<Rightarrow> json" where
  "number_value neg m k text = (let sg = (if neg then - 1 else 1) in
     if 0 \<le> k then JInt (sg * (m * 10 ^ nat k))
     else if m mod 10 ^ nat (- k) = 0 then JInt (sg * (m div 10 ^ nat (- k)))
     else JFrac text)"

definition parse_frac :: "string \<Rightarrow> (string \<times> string) option" where
  "parse_frac s = (case s of
       c # r \<Rightarrow>
         if c = CHR ''.'' then
           (let fs = takeWhile is_digit r in if fs = [] then None else Some (fs, dropWhile is_digit r))
         else Some ([], s)
     | [] \<Rightarrow> Some ([], []))"

definition parse_exp :: "string \<Rightarrow> (int \<times> string) option" where
  "parse_exp s = (case s of
       c # r \<Rightarrow>
         if c = CHR ''e'' \<or> c = CHR ''E'' then
           (let (neg, r1) = (case r of
                  d # r0 \<Rightarrow> if d = CHR ''-'' then (True, r0) else if d = CHR ''+'' then (False, r0) else (False, r)
                | [] \<Rightarrow> (False, r));
                es = takeWhile is_digit r1
            in if es = [] then None
               else Some ((if neg then - digits_val 0 es else digits_val 0 es), dropWhile is_digit r1))
         else Some (0, s)
     | [] \<Rightarrow> Some (0, []))"

definition parse_unsigned :: "bool \<Rightarrow> string \<Rightarrow> string \<Rightarrow> (json \<times> string) option" where
  "parse_unsigned neg s s1 =
     (let ds = takeWhile is_digit s1
      in if ds = [] then None
         else let ip = (if hd ds = CHR ''0'' then [CHR ''0''] else ds)
              in case parse_frac (drop (length ip) s1) of
                   None \<Rightarrow> None
                 | Some (fs, s3) \<Rightarrow>
                     (case parse_exp s3 of
                        None \<Rightarrow> None
                      | Some (e, s4) \<Rightarrow>
                          Some (number_value neg (digits_val 0 (ip @ fs)) (e - int (length fs))
                                  (take (length s - length s4) s), s4)))"

definition parse_num :: "string \<Rightarrow> (json \<times> string) option" where
  "parse_num s =
     (if startsWith s ''-'' then parse_unsigned True s (drop 1 s) else parse_unsigned False s s)"

definition obj_of :: "(string \<times> json) list \<Rightarrow> (string \<times> json) list" where
  "obj_of kvs = prop_order (foldl (\<lambda>m kv. AList.update (fst kv) (snd kv) m) [] kvs)"

fun parse_value :: "nat \<Rightarrow> string \<Rightarrow> (json \<times> string) option"
and parse_elems :: "nat \<Rightarrow> string \<Rightarrow> (json list \<times> string) option"
and parse_members :: "nat \<Rightarrow> string \<Rightarrow> ((string \<times> json) list \<times> string) option" where
  "parse_value 0 s = None"
| "parse_value (Suc n) s =
     (case skip_ws s of
        [] \<Rightarrow> None
      | c # r \<Rightarrow>
          if c = CHR 0x22 then map_option (apfst JStr) (parse_str r)
          else if c = CHR ''['' then
            (if startsWith (skip_ws r) '']'' then Some (JArr [], drop 1 (skip_ws r))
             else map_option (apfst JArr) (parse_elems n r))
          else if c = CHR ''{'' then
            (if startsWith (skip_ws r) ''}'' then Some (JObj [], drop 1 (skip_ws r))
             else map_option (apfst (\<lambda>kvs. JObj (obj_of kvs))) (parse_members n r))
          else if startsWith (c # r) ''null'' then Some (JNull, drop 4 (c # r))
          else if startsWith (c # r) ''true'' then Some (JBool True, drop 4 (c # r))
          else if startsWith (c # r) ''false'' then Some (JBool False, drop 5 (c # r))
          else parse_num (c # r))"
| "parse_elems 0 s = None"
| "parse_elems (Suc n) s =
     (case parse_value n s of
        None \<Rightarrow> None
      | Some (v, r) \<Rightarrow>
          (case skip_ws r of
             [] \<Rightarrow> None
           | c # r1 \<Rightarrow>
               if c = CHR '','' then map_option (apfst (Cons v)) (parse_elems n r1)
               else if c = CHR '']'' then Some ([v], r1)
               else None))"
| "parse_members 0 s = None"
| "parse_members (Suc n) s =
     (case skip_ws s of
        [] \<Rightarrow> None
      | q # r0 \<Rightarrow>
          if q \<noteq> CHR 0x22 then None
          else (case parse_str r0 of
             None \<Rightarrow> None
           | Some (k, r1) \<Rightarrow>
               (case skip_ws r1 of
                  [] \<Rightarrow> None
                | d # r2 \<Rightarrow>
                    if d \<noteq> CHR '':'' then None
                    else (case parse_value n r2 of
                       None \<Rightarrow> None
                     | Some (v, r3) \<Rightarrow>
                         (case skip_ws r3 of
                            [] \<Rightarrow> None
                          | c # r4 \<Rightarrow>
                              if c = CHR '','' then map_option (apfst (Cons (k, v))) (parse_members n r4)
                              else if c = CHR ''}'' then Some ([(k, v)], r4)
                              else None)))))"

definition json_parse :: "string \<Rightarrow> json option" where
  "json_parse s = (case parse_value (2 * length s + 2) s of
       Some (v, r) \<Rightarrow> if skip_ws r = [] then Some v else None
     | None \<Rightarrow> None)"

text \<open>The values that printing and parsing preserve: integers only, no repeated key,
  members in property order.\<close>

fun json_wf :: "json \<Rightarrow> bool" where
  "json_wf JNull = True"
| "json_wf (JBool b) = True"
| "json_wf (JInt i) = True"
| "json_wf (JFrac t) = False"
| "json_wf (JStr s) = True"
| "json_wf (JArr xs) = (\<forall>x \<in> set xs. json_wf x)"
| "json_wf (JObj kvs) = (distinct (map fst kvs) \<and> prop_order kvs = kvs \<and> (\<forall>kv \<in> set kvs. json_wf (snd kv)))"

section \<open>Facts about the property order\<close>

lemma set_prop_order [simp]: "set (prop_order kvs) = set kvs"
  by (auto simp: prop_order_def)

lemma distinct_prop_order [simp]: "distinct (map fst (prop_order kvs)) \<longleftrightarrow> distinct (map fst kvs)"
proof -
  have "mset (prop_order kvs) = mset kvs"
    by (simp add: prop_order_def)
  then show ?thesis by (metis mset_eq_imp_distinct_iff mset_map)
qed

lemma map_of_prop_order: "distinct (map fst kvs) \<Longrightarrow> map_of (prop_order kvs) = map_of kvs"
  by (intro ext) (metis distinct_prop_order map_of_eq_None_iff map_of_eq_Some_iff option.exhaust set_prop_order)

lemma prop_order_names: "\<forall>k \<in> fst ` set kvs. \<not> is_index k \<Longrightarrow> prop_order kvs = kvs"
  by (simp add: prop_order_def filter_empty_conv)

lemma prop_order_idem [simp]: "prop_order (prop_order kvs) = prop_order kvs"
  by (simp add: prop_order_def filter_sort sort_key_id_if_sorted)

lemma is_index_digit: "is_index k \<Longrightarrow> is_digit (hd k)"
  by (simp add: is_index_def)

section \<open>Strings are read back\<close>

lemma hex_val_hex_char [simp]: "d < 16 \<Longrightarrow> hex_val (hex_char d) = Some d"
  by (auto simp: hex_val_def hex_char_def Let_def)

lemma unescape_u_control: "n < 256 \<Longrightarrow>
   unescape_u (CHR ''0'') (CHR ''0'') (hex_char (n div 16)) (hex_char (n mod 16)) = Some (char_of n)"
proof -
  assume "n < 256"
  then have "hex_val (hex_char (n div 16)) = Some (n div 16)" "hex_val (hex_char (n mod 16)) = Some (n mod 16)"
    by simp_all
  moreover have "hex_val (CHR ''0'') = Some 0" by (simp add: hex_val_def code_unit_def)
  ultimately show ?thesis by (simp add: unescape_u_def)
qed

lemma char_of_code_unit [simp]: "char_of (code_unit c) = c"
  by (simp add: code_unit_def)

lemma code_unit_eqI: "code_unit d = n \<Longrightarrow> code_unit c = n \<longleftrightarrow> c = d"
  by auto

lemma code_unit_special:
  "code_unit c = 34 \<longleftrightarrow> c = CHR 0x22" "code_unit c = 92 \<longleftrightarrow> c = CHR 0x5C"
  "code_unit c = 8 \<longleftrightarrow> c = CHR 0x08" "code_unit c = 9 \<longleftrightarrow> c = CHR 0x09"
  "code_unit c = 10 \<longleftrightarrow> c = CHR 0x0A" "code_unit c = 12 \<longleftrightarrow> c = CHR 0x0C"
  "code_unit c = 13 \<longleftrightarrow> c = CHR 0x0D"
  by (rule code_unit_eqI, simp add: code_unit_def)+

lemma parse_str_plain:
  "32 \<le> code_unit c \<Longrightarrow> c \<noteq> CHR 0x22 \<Longrightarrow> c \<noteq> CHR 0x5C \<Longrightarrow>
   parse_str (c # r) = map_option (apfst (Cons c)) (parse_str r)"
  by simp

lemma parse_str_escaped:
  "unescape e = Some u \<Longrightarrow> e \<noteq> CHR ''u'' \<Longrightarrow>
   parse_str (CHR 0x5C # e # r) = map_option (apfst (Cons u)) (parse_str r)"
  by simp

lemma parse_str_esc: "parse_str (esc_char c @ r) = map_option (apfst (Cons c)) (parse_str r)"
proof (cases "c \<in> {CHR 0x22, CHR 0x5C, CHR 0x08, CHR 0x09, CHR 0x0A, CHR 0x0C, CHR 0x0D}")
  case True
  then obtain e where "esc_char c = [CHR 0x5C, e]" "unescape e = Some c" "e \<noteq> CHR ''u''"
    by (auto simp: esc_char_def code_unit_special Let_def unescape_def)
  then show ?thesis by (simp add: parse_str_escaped del: parse_str.simps)
next
  case other: False
  show ?thesis
  proof (cases "code_unit c < 32")
    case True
    then show ?thesis using other
      by (simp add: esc_char_def code_unit_special Let_def unescape_u_control del: insert_iff)
         (simp add: unescape_u_control)
  next
    case False
    then have "esc_char c = [c]" using other by (simp add: esc_char_def code_unit_special Let_def)
    then show ?thesis using False other parse_str_plain [of c r] by simp
  qed
qed

lemma parse_str_quote: "parse_str (concat (map esc_char s) @ CHR 0x22 # r) = Some (s, r)"
  by (induction s) (simp_all add: parse_str_esc)

section \<open>Fuel\<close>

lemma length_skip_ws [simp]: "length (skip_ws s) \<le> length s"
  by (simp add: skip_ws_def length_dropWhile_le)

lemma skip_ws_Cons_length: "skip_ws s = c # r \<Longrightarrow> length r < length s"
  using length_skip_ws [of s] by simp

lemma parse_str_length: "parse_str s = Some (t, r) \<Longrightarrow> length r < length s"
proof (induction s arbitrary: t r rule: parse_str.induct)
  case 1
  then show ?case by simp
next
  case (2 c s)
  then show ?case
    by (fastforce split: if_splits list.splits option.splits simp: apfst_def map_prod_def)
qed

lemma parse_frac_length: "parse_frac s = Some (fs, r) \<Longrightarrow> length r \<le> length s"
  by (auto simp: parse_frac_def Let_def length_dropWhile_le le_SucI split: list.splits if_splits)

lemma parse_exp_length: "parse_exp s = Some (e, r) \<Longrightarrow> length r \<le> length s"
  by (auto simp: parse_exp_def Let_def length_dropWhile_le le_SucI intro: le_trans [OF length_dropWhile_le]
      split: list.splits if_splits)

lemma parse_unsigned_length: "parse_unsigned neg s s1 = Some (v, r) \<Longrightarrow> length r < length s1"
proof -
  assume num: "parse_unsigned neg s s1 = Some (v, r)"
  define ip where "ip = (if hd (takeWhile is_digit s1) = CHR ''0'' then [CHR ''0''] else takeWhile is_digit s1)"
  from num have ne: "takeWhile is_digit s1 \<noteq> []"
    by (auto simp: parse_unsigned_def Let_def split: if_splits)
  from num ne obtain fs s3 e where fr: "parse_frac (drop (length ip) s1) = Some (fs, s3)"
    and ex: "parse_exp s3 = Some (e, r)"
    by (auto simp: parse_unsigned_def ip_def Let_def split: option.splits prod.splits)
  have "length r \<le> length (drop (length ip) s1)"
    using parse_frac_length [OF fr] parse_exp_length [OF ex] by simp
  moreover have "s1 \<noteq> []" "ip \<noteq> []" using ne by (auto simp: ip_def)
  ultimately show ?thesis by (cases s1; cases ip) auto
qed

lemma parse_num_length: "parse_num s = Some (v, r) \<Longrightarrow> length r < length s"
  by (auto simp: parse_num_def split: if_splits dest!: parse_unsigned_length)

lemma parse_lengths:
  "parse_value n s = Some (v, r) \<Longrightarrow> length r < length s"
  "parse_elems n s = Some (vs, r) \<Longrightarrow> length r < length s"
  "parse_members n s = Some (kvs, r) \<Longrightarrow> length r < length s"
proof (induction n arbitrary: s v vs kvs r)
  case 0
  { case 1 then show ?case by simp }
  { case 2 then show ?case by simp }
  { case 3 then show ?case by simp }
next
  case (Suc n)
  { case 1
    then obtain c t where sk: "skip_ws s = c # t"
      by (auto split: list.splits)
    have len: "length t < length s" by (rule skip_ws_Cons_length [OF sk])
    have "length r \<le> length t"
      using 1 sk length_skip_ws [of t]
      by (auto split: if_splits dest!: parse_str_length parse_num_length Suc.IH(2,3)
          intro: le_trans [OF diff_le_self length_skip_ws])
    then show ?case using len by simp }
  { case 2
    then obtain v' t where v: "parse_value n s = Some (v', t)" by (auto split: option.splits)
    with 2 obtain c u where sk: "skip_ws t = c # u" by (auto split: list.splits)
    have "length r \<le> length u" using 2 v sk by (auto split: if_splits dest!: Suc.IH(2))
    then show ?case using Suc.IH(1) [OF v] skip_ws_Cons_length [OF sk] by simp }
  { case 3
    then obtain q r0 k r1 d r2 v' r3 c r4 where
      st: "skip_ws s = q # r0" "parse_str r0 = Some (k, r1)" "skip_ws r1 = d # r2"
        "parse_value n r2 = Some (v', r3)" "skip_ws r3 = c # r4"
      by (auto split: list.splits option.splits if_splits)
    have "length r \<le> length r4" using 3 st by (auto split: if_splits dest!: Suc.IH(3))
    then show ?case
      using st(1,3,5) [THEN skip_ws_Cons_length] parse_str_length [OF st(2)] Suc.IH(1) [OF st(4)]
      by simp }
qed

text \<open>With twice the remaining length as fuel, one more unit makes no difference.\<close>

lemma parse_stable:
  "2 * length s + 1 \<le> n \<Longrightarrow> parse_value (Suc n) s = parse_value n s"
  "2 * length s + 2 \<le> n \<Longrightarrow> parse_elems (Suc n) s = parse_elems n s"
  "2 * length s + 2 \<le> n \<Longrightarrow> parse_members (Suc n) s = parse_members n s"
proof (induction n arbitrary: s)
  case 0
  { case 1 then show ?case by simp }
  { case 2 then show ?case by simp }
  { case 3 then show ?case by simp }
next
  case (Suc n)
  { case 1
    show ?case
    proof (cases "skip_ws s")
      case Nil
      then show ?thesis by simp
    next
      case (Cons c t)
      then have "2 * length t + 2 \<le> n" using 1 skip_ws_Cons_length [OF Cons] by simp
      then have "parse_elems (Suc n) t = parse_elems n t" "parse_members (Suc n) t = parse_members n t"
        by (rule Suc.IH)+
      then show ?thesis using Cons by (simp del: parse_elems.simps parse_members.simps)
    qed }
  { case 2
    have v: "parse_value (Suc n) s = parse_value n s" by (rule Suc.IH(1)) (use 2 in simp)
    have "parse_elems (Suc n) u = parse_elems n u"
      if "parse_value n s = Some (w, t)" "skip_ws t = c # u" for w t c u
      using 2 parse_lengths(1) [OF that(1)] skip_ws_Cons_length [OF that(2)] by (intro Suc.IH(2)) simp
    then show ?case
      by (subst parse_elems.simps(2), subst (2) parse_elems.simps(2), simp only: v)
         (auto split: option.split list.split simp del: parse_elems.simps) }
  { case 3
    have "parse_value (Suc n) r2 = parse_value n r2"
      if "skip_ws s = q # r0" "parse_str r0 = Some (k, r1)" "skip_ws r1 = d # r2" for q r0 k r1 d r2
      using 3 that(1,3) [THEN skip_ws_Cons_length] parse_str_length [OF that(2)]
      by (intro Suc.IH(1)) simp
    moreover have "parse_members (Suc n) r4 = parse_members n r4"
      if "skip_ws s = q # r0" "parse_str r0 = Some (k, r1)" "skip_ws r1 = d # r2"
        "parse_value n r2 = Some (v', r3)" "skip_ws r3 = c # r4" for q r0 k r1 d r2 v' r3 c r4
      using 3 that(1,3,5) [THEN skip_ws_Cons_length] parse_str_length [OF that(2)]
        parse_lengths(1) [OF that(4)]
      by (intro Suc.IH(3)) simp
    ultimately show ?case
      by (subst parse_members.simps(2), subst (2) parse_members.simps(2))
         (auto split: option.split list.split simp del: parse_members.simps parse_value.simps) }
qed

lemma parse_value_fuel:
  "2 * length s + 1 \<le> n \<Longrightarrow> parse_value (n + k) s = parse_value n s"
  by (induction k) (simp_all only: add_0_right add_Suc_right parse_stable(1) trans_le_add1)

text \<open>\<open>json_parse\<close> is what the parser computes with any sufficient amount of fuel.\<close>

lemma parse_value_stable:
  "2 * length s + 1 \<le> n \<Longrightarrow> json_parse s = (case parse_value n s of
       Some (v, r) \<Rightarrow> if skip_ws r = [] then Some v else None | None \<Rightarrow> None)"
  using parse_value_fuel [of s "2 * length s + 1" "n - (2 * length s + 1)"]
    parse_value_fuel [of s "2 * length s + 1" 1]
  unfolding json_parse_def by simp

section \<open>Parsing inverts printing\<close>

definition delim :: "string \<Rightarrow> bool" where
  "delim s = (case s of [] \<Rightarrow> True | c # _ \<Rightarrow> c = CHR '','' \<or> c = CHR '']'' \<or> c = CHR ''}'' \<or> c = CHR 0x0A)"

lemma delim_Cons [simp]: "delim (CHR '','' # r)" "delim (CHR '']'' # r)" "delim (CHR ''}'' # r)" "delim (CHR 0x0A # r)" "delim []"
  by (simp_all add: delim_def)

lemma delim_no_digit: "delim s \<Longrightarrow> no_digit_first s"
  by (auto simp: delim_def no_digit_first_def is_digit_def code_unit_def split: list.splits)

lemma delim_no_tail: "delim s \<Longrightarrow> parse_frac s = Some ([], s)" "delim s \<Longrightarrow> parse_exp s = Some (0, s)"
  by (auto simp: delim_def parse_frac_def parse_exp_def split: list.splits)

lemma digit_char_zero: "d < 10 \<Longrightarrow> digit_char d = CHR ''0'' \<longleftrightarrow> d = 0"
  using code_unit_eqI [of "CHR ''0''" 48 "digit_char d"] by (simp add: digit_char_def) (simp add: code_unit_def)

lemma show_nat_hd: "0 < n \<Longrightarrow> hd (show_nat n) \<noteq> CHR ''0''"
proof (induction n rule: show_nat.induct)
  case (1 n)
  then show ?case by (subst show_nat.simps) (auto simp: digit_char_zero)
qed

lemma show_nat_0: "show_nat 0 = ''0''"
  by (subst show_nat.simps) (simp add: digit_char_zero)

lemma parse_unsigned_nat:
  assumes "delim r"
  shows "parse_unsigned neg s (show_nat n @ r) = Some (JInt (if neg then - int n else int n), r)"
proof -
  have tw: "takeWhile is_digit (show_nat n @ r) = show_nat n"
    by (rule takeWhile_digits) (use assms in \<open>auto simp: show_nat_digits delim_no_digit\<close>)
  have ip: "(if hd (show_nat n) = CHR ''0'' then [CHR ''0''] else show_nat n) = show_nat n"
    using show_nat_hd [of n] by (cases "n = 0") (simp_all add: show_nat_0)
  show ?thesis
    unfolding parse_unsigned_def tw Let_def ip by (simp add: delim_no_tail [OF assms] number_value_def)
qed

lemma show_nat_first: "\<not> startsWith (show_nat n @ r) ''-''"
  using show_nat_digits [of "hd (show_nat n)" n]
  by (cases "show_nat n") (auto simp: is_digit_def code_unit_def)

lemma parse_num_int: "delim r \<Longrightarrow> parse_num (show_int i @ r) = Some (JInt i, r)"
  by (simp add: parse_num_def show_int_def show_nat_first parse_unsigned_nat)

lemma show_int_first:
  obtains c t where "show_int i = c # t" "c = CHR ''-'' \<or> is_digit c"
  using show_nat_digits [of "hd (show_nat (nat i))" "nat i"]
  by (cases "show_nat (nat i)"; cases "i < 0") (auto simp: show_int_def)

text \<open>No printed value starts with white space or with a closing bracket.\<close>

definition opener :: "string \<Rightarrow> bool" where
  "opener s = (case s of [] \<Rightarrow> False | c # _ \<Rightarrow> \<not> json_ws c \<and> c \<noteq> CHR '']'' \<and> c \<noteq> CHR ''}'')"

lemma opener_append: "opener s \<Longrightarrow> opener (s @ r)"
  by (auto simp: opener_def split: list.splits)

lemma opener_skip: "opener s \<Longrightarrow> skip_ws s = s \<and> \<not> startsWith s '']'' \<and> \<not> startsWith s ''}''"
  by (auto simp: opener_def skip_ws_def split: list.splits)

lemma opener_quote: "opener (quote s)"
  by (simp add: opener_def quote_def json_ws_def)

lemma opener_stringify: "json_wf v \<Longrightarrow> opener (stringify v)"
proof (cases v)
  case (JInt i)
  obtain c t where "show_int i = c # t" "c = CHR ''-'' \<or> is_digit c" by (rule show_int_first)
  then show ?thesis using JInt by (auto simp: opener_def json_ws_def is_digit_def code_unit_def)
qed (auto simp: opener_quote, auto simp: opener_def json_ws_def)

definition reads_back :: "json \<Rightarrow> bool" where
  "reads_back v = (\<forall>n r. delim r \<longrightarrow> 2 * length (stringify v) + 1 \<le> n \<longrightarrow>
     parse_value n (stringify v @ r) = Some (v, r))"

lemma reads_backD:
  "reads_back v \<Longrightarrow> delim r \<Longrightarrow> 2 * length (stringify v) + 1 \<le> n \<Longrightarrow>
   parse_value n (stringify v @ r) = Some (v, r)"
  by (simp add: reads_back_def)

lemma parse_elems_join:
  "xs \<noteq> [] \<Longrightarrow> \<forall>x \<in> set xs. reads_back x \<Longrightarrow>
   2 * length (join '','' (map stringify xs)) + 2 \<le> n \<Longrightarrow>
   parse_elems n (join '','' (map stringify xs) @ CHR '']'' # r) = Some (xs, r)"
proof (induction xs arbitrary: n)
  case Nil
  then show ?case by simp
next
  case (Cons x xs)
  from Cons.prems(3) obtain m where n: "n = Suc m" by (cases n) auto
  have rb: "reads_back x" using Cons.prems(2) by simp
  show ?case
  proof (cases xs)
    case Nil
    then show ?thesis
      using Cons.prems(3) reads_backD [OF rb, of "CHR '']'' # r" m]
      by (simp add: n skip_ws_def json_ws_def)
  next
    case (Cons y ys)
    let ?rest = "join '','' (map stringify xs) @ CHR '']'' # r"
    have len: "2 * length (stringify x) + 1 \<le> m" "2 * length (join '','' (map stringify xs)) + 2 \<le> m"
      using Cons.prems(3) Cons by (simp_all add: n)
    have "parse_elems m ?rest = Some (xs, r)"
      using Cons.IH Cons.prems(2) len(2) Cons by simp
    moreover have "parse_value m (stringify x @ CHR '','' # ?rest) = Some (x, CHR '','' # ?rest)"
      by (rule reads_backD [OF rb]) (use len(1) in simp_all)
    ultimately show ?thesis using Cons by (simp add: n skip_ws_def json_ws_def)
  qed
qed

lemma parse_members_join:
  "kvs \<noteq> [] \<Longrightarrow> \<forall>kv \<in> set kvs. reads_back (snd kv) \<Longrightarrow>
   2 * length (join '','' (map (\<lambda>kv. quote (fst kv) @ '':'' @ stringify (snd kv)) kvs)) + 2 \<le> n \<Longrightarrow>
   parse_members n (join '','' (map (\<lambda>kv. quote (fst kv) @ '':'' @ stringify (snd kv)) kvs) @ CHR ''}'' # r)
     = Some (kvs, r)"
proof (induction kvs arbitrary: n)
  case Nil
  then show ?case by simp
next
  case (Cons kv kvs)
  let ?mem = "\<lambda>kv. quote (fst kv) @ '':'' @ stringify (snd kv)"
  from Cons.prems(3) obtain m where n: "n = Suc m" by (cases n) auto
  have rb: "reads_back (snd kv)" using Cons.prems(2) by simp
  have key: "skip_ws (quote k @ t) = CHR 0x22 # concat (map esc_char k) @ CHR 0x22 # t" for k t
    by (simp add: quote_def skip_ws_def json_ws_def)
  have colon: "skip_ws (CHR '':'' # t) = CHR '':'' # t" "skip_ws (CHR '','' # t) = CHR '','' # t"
    "skip_ws (CHR ''}'' # t) = CHR ''}'' # t" for t
    by (simp_all add: skip_ws_def json_ws_def)
  show ?case
  proof (cases kvs)
    case Nil
    then show ?thesis
      using Cons.prems(3) reads_backD [OF rb, of "CHR ''}'' # r" m]
      by (simp add: n key parse_str_quote colon)
  next
    case (Cons y ys)
    let ?rest = "join '','' (map ?mem kvs) @ CHR ''}'' # r"
    have len: "2 * length (stringify (snd kv)) + 1 \<le> m" "2 * length (join '','' (map ?mem kvs)) + 2 \<le> m"
      using Cons.prems(3) Cons by (simp_all add: n)
    have "parse_members m ?rest = Some (kvs, r)"
      using Cons.IH Cons.prems(2) len(2) Cons by simp
    moreover have "parse_value m (stringify (snd kv) @ CHR '','' # ?rest) = Some (snd kv, CHR '','' # ?rest)"
      by (rule reads_backD [OF rb]) (use len(1) in simp_all)
    ultimately show ?thesis using Cons by (simp add: n key parse_str_quote colon)
  qed
qed

lemma foldl_pairs_append:
  "distinct (map fst m @ map fst kvs) \<Longrightarrow>
   foldl (\<lambda>m kv. AList.update (fst kv) (snd kv) m) m kvs = m @ kvs"
proof (induction kvs arbitrary: m)
  case Nil
  then show ?case by simp
next
  case (Cons kv kvs)
  then have "AList.update (fst kv) (snd kv) m = m @ [kv]"
    by (simp add: update_fresh)
  then show ?case using Cons.IH [of "m @ [kv]"] Cons.prems by simp
qed

lemma obj_of_distinct: "distinct (map fst kvs) \<Longrightarrow> prop_order kvs = kvs \<Longrightarrow> obj_of kvs = kvs"
  by (simp add: obj_of_def foldl_pairs_append)

lemma parse_value_int: "delim r \<Longrightarrow> 1 \<le> n \<Longrightarrow> parse_value n (show_int i @ r) = Some (JInt i, r)"
proof -
  assume "delim r" "1 \<le> n"
  then obtain m where n: "n = Suc m" by (cases n) auto
  obtain c t where ct: "show_int i = c # t" "c = CHR ''-'' \<or> is_digit c" by (rule show_int_first)
  then have "\<not> json_ws c" "c \<noteq> CHR 0x22" "c \<noteq> CHR ''[''" "c \<noteq> CHR ''{''"
      "c \<noteq> CHR ''n''" "c \<noteq> CHR ''t''" "c \<noteq> CHR ''f''"
    by (auto simp: json_ws_def is_digit_def code_unit_def)
  then show ?thesis
    using ct(1) parse_num_int [OF \<open>delim r\<close>, of i] by (simp add: n skip_ws_def)
qed

lemma parse_value_keyword:
  "9 \<le> n \<Longrightarrow> parse_value n (CHR ''n'' # CHR ''u'' # CHR ''l'' # CHR ''l'' # r) = Some (JNull, r)"
  "9 \<le> n \<Longrightarrow> parse_value n (CHR ''t'' # CHR ''r'' # CHR ''u'' # CHR ''e'' # r) = Some (JBool True, r)"
  "11 \<le> n \<Longrightarrow>
     parse_value n (CHR ''f'' # CHR ''a'' # CHR ''l'' # CHR ''s'' # CHR ''e'' # r) = Some (JBool False, r)"
  by (cases n; simp add: skip_ws_def json_ws_def)+

lemma json_wf_reads_back: "json_wf v \<Longrightarrow> reads_back v"
proof (induction v)
  case (JArr xs)
  show ?case unfolding reads_back_def
  proof (intro allI impI)
    fix n r assume "delim r" and n: "2 * length (stringify (JArr xs)) + 1 \<le> n"
    then obtain m where m: "n = Suc m" by (cases n) auto
    show "parse_value n (stringify (JArr xs) @ r) = Some (JArr xs, r)"
    proof (cases xs)
      case Nil
      then show ?thesis by (simp add: m skip_ws_def json_ws_def)
    next
      case (Cons y ys)
      then have "opener (join '','' (map stringify xs) @ CHR '']'' # r)"
        using JArr.prems opener_stringify [of y]
        by (cases ys) (auto intro!: opener_append)
      note op = opener_skip [OF this]
      have "parse_elems m (join '','' (map stringify xs) @ CHR '']'' # r) = Some (xs, r)"
        by (rule parse_elems_join) (use Cons JArr n in \<open>auto simp: m\<close>)
      then show ?thesis using op by (simp add: m skip_ws_def json_ws_def)
    qed
  qed
next
  case (JObj kvs)
  have rb: "reads_back (snd kv)" if "kv \<in> set kvs" for kv
    using JObj.IH [OF that, of "snd kv"] JObj.prems that by (cases kv) auto
  show ?case unfolding reads_back_def
  proof (intro allI impI)
    fix n r assume "delim r" and n: "2 * length (stringify (JObj kvs)) + 1 \<le> n"
    then obtain m where m: "n = Suc m" by (cases n) auto
    show "parse_value n (stringify (JObj kvs) @ r) = Some (JObj kvs, r)"
    proof (cases kvs)
      case Nil
      then show ?thesis by (simp add: m skip_ws_def json_ws_def)
    next
      case (Cons y ys)
      let ?t = "join '','' (map (\<lambda>kv. quote (fst kv) @ '':'' @ stringify (snd kv)) kvs) @ CHR ''}'' # r"
      from Cons have "opener ?t"
        using opener_quote by (cases ys) (auto intro!: opener_append)
      note op = opener_skip [OF this]
      have "parse_members m ?t = Some (kvs, r)"
        by (rule parse_members_join) (use Cons n rb in \<open>auto simp: m\<close>)
      then show ?thesis using op JObj.prems by (simp add: m skip_ws_def json_ws_def obj_of_distinct)
    qed
  qed
next
  case (JStr s)
  show ?case unfolding reads_back_def
  proof (intro allI impI)
    fix n r assume "2 * length (stringify (JStr s)) + 1 \<le> n"
    then obtain m where "n = Suc m" by (cases n) auto
    then show "parse_value n (stringify (JStr s) @ r) = Some (JStr s, r)"
      by (simp add: quote_def skip_ws_def json_ws_def parse_str_quote)
  qed
qed (auto simp: reads_back_def parse_value_int parse_value_keyword)

lemma parse_stringify: "json_wf v \<Longrightarrow> json_parse (stringify v) = Some v"
proof -
  assume "json_wf v"
  then have "parse_value (2 * length (stringify v) + 2) (stringify v @ []) = Some (v, [])"
    by (intro reads_backD json_wf_reads_back) simp_all
  then show ?thesis by (simp add: json_parse_def skip_ws_def)
qed

interpretation json_codec: codec stringify json_parse json_wf
  by unfold_locales (rule parse_stringify)

lemma stringify_inject [simp]: "json_wf v \<Longrightarrow> json_wf w \<Longrightarrow> stringify v = stringify w \<longleftrightarrow> v = w"
  using json_codec.enc_inject by blast

end
