(* ===== verification/Json_Pretty.thy ===== *)
theory Json_Pretty
  imports Json
begin

text \<open>
  \<open>JSON.stringify(v, null, 2)\<close>, the indented printer that the policy export and the canonical JSON
  use, and the proof that \<open>JSON.parse\<close> reads its text back.
\<close>

text \<open>\<open>JSON.stringify(v, null, 2)\<close>; the first argument is the current indentation.\<close>

fun stringify_indent :: "string \<Rightarrow> json \<Rightarrow> string" where
  "stringify_indent ind (JArr xs) =
     (if xs = [] then ''[]''
      else ''['' @ [CHR 0x0A] @ join ([CHR '','', CHR 0x0A])
             (map (\<lambda>x. ind @ ''  '' @ stringify_indent (ind @ ''  '') x) xs) @ [CHR 0x0A] @ ind @ '']'')"
| "stringify_indent ind (JObj kvs) =
     (if kvs = [] then ''{}''
      else ''{'' @ [CHR 0x0A] @ join ([CHR '','', CHR 0x0A])
             (map (\<lambda>kv. ind @ ''  '' @ quote (fst kv) @ '': '' @ stringify_indent (ind @ ''  '') (snd kv)) kvs) @
             [CHR 0x0A] @ ind @ ''}'')"
| "stringify_indent ind v = stringify v"

definition ws_text :: "string \<Rightarrow> bool" where
  "ws_text w = (\<forall>c \<in> set w. json_ws c)"

lemma ws_text_simps [simp]: "ws_text []" "ws_text (a @ b) \<longleftrightarrow> ws_text a \<and> ws_text b"
    "ws_text (c # a) \<longleftrightarrow> json_ws c \<and> ws_text a"
  by (auto simp: ws_text_def)

lemma json_ws_literals [simp]: "json_ws (CHR '' '')" "json_ws (CHR 0x0A)" "\<not> json_ws (CHR '','')"
    "\<not> json_ws (CHR '']'')" "\<not> json_ws (CHR ''}'')" "\<not> json_ws (CHR '':'')" "\<not> json_ws (CHR 0x22)"
    "\<not> json_ws (CHR ''['')" "\<not> json_ws (CHR ''{'')"
  by (simp_all add: json_ws_def)

lemma skip_ws_append [simp]: "ws_text w \<Longrightarrow> skip_ws (w @ s) = skip_ws s"
  by (induction w) (auto simp: skip_ws_def)

lemma skip_ws_Cons [simp]: "\<not> json_ws c \<Longrightarrow> skip_ws (c # s) = c # s" "json_ws c \<Longrightarrow> skip_ws (c # s) = skip_ws s"
  by (simp_all add: skip_ws_def)

lemma parse_value_ws [simp]: "ws_text w \<Longrightarrow> parse_value n (w @ s) = parse_value n s"
  by (cases n) simp_all

lemma parse_elems_ws [simp]: "ws_text w \<Longrightarrow> parse_elems n (w @ s) = parse_elems n s"
  by (cases n) simp_all

lemma parse_members_ws [simp]: "ws_text w \<Longrightarrow> parse_members n (w @ s) = parse_members n s"
  by (cases n) simp_all

definition pretty_back :: "json \<Rightarrow> bool" where
  "pretty_back v = (\<forall>ind n r. ws_text ind \<longrightarrow> delim r \<longrightarrow> 2 * length (stringify_indent ind v) + 1 \<le> n \<longrightarrow>
     parse_value n (stringify_indent ind v @ r) = Some (v, r))"

lemma pretty_backD:
  "pretty_back v \<Longrightarrow> ws_text ind \<Longrightarrow> delim r \<Longrightarrow> 2 * length (stringify_indent ind v) + 1 \<le> n \<Longrightarrow>
   parse_value n (stringify_indent ind v @ r) = Some (v, r)"
  by (simp add: pretty_back_def)

definition elem_text :: "string \<Rightarrow> json \<Rightarrow> string" where
  "elem_text ind x = ind @ stringify_indent ind x"

definition member_text :: "string \<Rightarrow> string \<times> json \<Rightarrow> string" where
  "member_text ind kv = ind @ quote (fst kv) @ '': '' @ stringify_indent ind (snd kv)"

definition sep :: string where
  "sep = [CHR '','', CHR 0x0A]"

lemma length_elem_text: "length (elem_text ind x) = length ind + length (stringify_indent ind x)"
  by (simp add: elem_text_def)

lemma length_member_text:
  "length (member_text ind kv) = length ind + length (quote (fst kv)) + 2 + length (stringify_indent ind (snd kv))"
  by (simp add: member_text_def)

lemma elem_text_append: "elem_text ind x @ r = ind @ stringify_indent ind x @ r"
  by (simp add: elem_text_def)

lemma member_text_append:
  "member_text ind kv @ r = ind @ quote (fst kv) @ CHR '':'' # CHR '' '' # stringify_indent ind (snd kv) @ r"
  by (simp add: member_text_def)

lemma pretty_elems:
  "xs \<noteq> [] \<Longrightarrow> \<forall>x \<in> set xs. pretty_back x \<Longrightarrow> ws_text ind \<Longrightarrow> ws_text e \<Longrightarrow>
   2 * length (join sep (map (elem_text ind) xs)) + 2 \<le> n \<Longrightarrow>
   parse_elems n (join sep (map (elem_text ind) xs) @ CHR 0x0A # e @ CHR '']'' # r) = Some (xs, r)"
proof (induction xs arbitrary: n)
  case (Cons x xs)
  from Cons.prems(5) obtain m where n: "n = Suc m" by (cases n) auto
  have pb: "pretty_back x" using Cons.prems(2) by simp
  show ?case
  proof (cases xs)
    case Nil
    then show ?thesis
      using Cons.prems(3-5) pretty_backD [OF pb, of ind "CHR 0x0A # e @ CHR '']'' # r" m]
      by (simp add: n elem_text_append length_elem_text)
  next
    case (Cons y ys)
    let ?rest = "join sep (map (elem_text ind) xs) @ CHR 0x0A # e @ CHR '']'' # r"
    have len: "2 * length (stringify_indent ind x) + 1 \<le> m" "2 * length (join sep (map (elem_text ind) xs)) + 2 \<le> m"
      using Cons.prems(5) Cons by (simp_all add: n length_elem_text sep_def)
    have "parse_elems m ?rest = Some (xs, r)"
      using Cons.IH Cons.prems(2-4) len(2) Cons by simp
    then have "parse_elems m ([CHR 0x0A] @ ?rest) = Some (xs, r)"
      by (subst parse_elems_ws) simp_all
    moreover have "parse_value m (stringify_indent ind x @ CHR '','' # CHR 0x0A # ?rest) =
        Some (x, CHR '','' # CHR 0x0A # ?rest)"
      by (rule pretty_backD [OF pb]) (use len(1) Cons.prems(3) in simp_all)
    ultimately show ?thesis using Cons Cons.prems(3) by (simp add: n elem_text_append sep_def)
  qed
qed simp

lemma pretty_members:
  "kvs \<noteq> [] \<Longrightarrow> \<forall>kv \<in> set kvs. pretty_back (snd kv) \<Longrightarrow> ws_text ind \<Longrightarrow> ws_text e \<Longrightarrow>
   2 * length (join sep (map (member_text ind) kvs)) + 2 \<le> n \<Longrightarrow>
   parse_members n (join sep (map (member_text ind) kvs) @ CHR 0x0A # e @ CHR ''}'' # r) = Some (kvs, r)"
proof (induction kvs arbitrary: n)
  case (Cons kv kvs)
  from Cons.prems(5) obtain m where n: "n = Suc m" by (cases n) auto
  have pb: "pretty_back (snd kv)" using Cons.prems(2) by simp
  have key: "skip_ws (quote k @ t) = CHR 0x22 # concat (map esc_char k) @ CHR 0x22 # t" for k t
    by (simp add: quote_def)
  have gap: "parse_value m (CHR '' '' # t) = parse_value m t" for t
    using parse_value_ws [of "'' ''" m t] by simp
  show ?case
  proof (cases kvs)
    case Nil
    then show ?thesis
      using Cons.prems(3-5) pretty_backD [OF pb, of ind "CHR 0x0A # e @ CHR ''}'' # r" m]
      by (simp add: n member_text_append length_member_text key parse_str_quote gap)
  next
    case (Cons y ys)
    let ?rest = "join sep (map (member_text ind) kvs) @ CHR 0x0A # e @ CHR ''}'' # r"
    have len: "2 * length (stringify_indent ind (snd kv)) + 1 \<le> m"
        "2 * length (join sep (map (member_text ind) kvs)) + 2 \<le> m"
      using Cons.prems(5) Cons by (simp_all add: n length_member_text sep_def)
    have "parse_members m ?rest = Some (kvs, r)"
      using Cons.IH Cons.prems(2-4) len(2) Cons by simp
    then have "parse_members m ([CHR 0x0A] @ ?rest) = Some (kvs, r)"
      by (subst parse_members_ws) simp_all
    moreover have "parse_value m (stringify_indent ind (snd kv) @ CHR '','' # CHR 0x0A # ?rest) =
        Some (snd kv, CHR '','' # CHR 0x0A # ?rest)"
      by (rule pretty_backD [OF pb]) (use len(1) Cons.prems(3) in simp_all)
    ultimately show ?thesis using Cons Cons.prems(3) by (simp add: n member_text_append sep_def key parse_str_quote gap)
  qed
qed simp

lemma stringify_indent_JArr:
  "xs \<noteq> [] \<Longrightarrow> stringify_indent ind (JArr xs) =
     CHR ''['' # CHR 0x0A # join sep (map (elem_text (ind @ ''  '')) xs) @ CHR 0x0A # ind @ '']''"
proof -
  have "elem_text (ind @ ''  '') = (\<lambda>x. ind @ ''  '' @ stringify_indent (ind @ ''  '') x)"
    by (rule ext) (simp add: elem_text_def)
  then show "xs \<noteq> [] \<Longrightarrow> ?thesis" by (simp add: sep_def)
qed

lemma stringify_indent_JObj:
  "kvs \<noteq> [] \<Longrightarrow> stringify_indent ind (JObj kvs) =
     CHR ''{'' # CHR 0x0A # join sep (map (member_text (ind @ ''  '')) kvs) @ CHR 0x0A # ind @ ''}''"
proof -
  have "member_text (ind @ ''  '') =
      (\<lambda>kv. ind @ ''  '' @ quote (fst kv) @ '': '' @ stringify_indent (ind @ ''  '') (snd kv))"
    by (rule ext) (simp add: member_text_def)
  then show "kvs \<noteq> [] \<Longrightarrow> ?thesis" by (simp add: sep_def)
qed

lemma stringify_indent_empty [simp]: "stringify_indent ind (JArr []) = ''[]''" "stringify_indent ind (JObj []) = ''{}''"
  by simp_all

declare stringify_indent.simps(1,2) [simp del]

lemma opener_indent: "json_wf v \<Longrightarrow> opener (stringify_indent ind v)"
  using opener_stringify [of v]
  by (cases v) (auto simp: stringify_indent.simps(1,2), auto simp: opener_def json_ws_def)

lemma join_Cons_append: "\<exists>t. join s (x # xs) = x @ t"
  by (cases xs) simp_all

lemma pretty_back_scalar:
  "(\<And>ind. stringify_indent ind v = stringify v) \<Longrightarrow> json_wf v \<Longrightarrow> pretty_back v"
  unfolding pretty_back_def using reads_backD [OF json_wf_reads_back [of v]] by simp

lemma json_wf_pretty_back: "json_wf v \<Longrightarrow> pretty_back v"
proof (induction v)
  case (JArr xs)
  show ?case unfolding pretty_back_def
  proof (intro allI impI)
    fix ind n r assume ws: "ws_text ind" and "delim r" and n: "2 * length (stringify_indent ind (JArr xs)) + 1 \<le> n"
    then obtain m where m: "n = Suc m" by (cases n) auto
    show "parse_value n (stringify_indent ind (JArr xs) @ r) = Some (JArr xs, r)"
    proof (cases xs)
      case (Cons y ys)
      let ?t = "join sep (map (elem_text (ind @ ''  '')) xs) @ CHR 0x0A # ind @ CHR '']'' # r"
      have "opener (stringify_indent (ind @ ''  '') y)" using JArr.prems Cons by (simp add: opener_indent)
      moreover obtain u where "?t = (ind @ ''  '') @ stringify_indent (ind @ ''  '') y @ u"
        using join_Cons_append [of sep "elem_text (ind @ ''  '') y" "map (elem_text (ind @ ''  '')) ys"]
        by (auto simp: Cons elem_text_def)
      ultimately have op: "\<not> startsWith (skip_ws ?t) '']''"
        using ws opener_skip [OF opener_append] by (simp del: append_assoc)
      have "parse_elems m ?t = Some (xs, r)"
        by (rule pretty_elems) (use Cons JArr n ws in \<open>auto simp: m stringify_indent_JArr\<close>)
      then have "parse_elems m ([CHR 0x0A] @ ?t) = Some (xs, r)" by (subst parse_elems_ws) simp_all
      then show ?thesis using op Cons by (simp add: m stringify_indent_JArr)
    qed (simp add: m)
  qed
next
  case (JObj kvs)
  have pb: "pretty_back (snd kv)" if "kv \<in> set kvs" for kv
    using JObj.IH [OF that, of "snd kv"] JObj.prems that by (cases kv) auto
  show ?case unfolding pretty_back_def
  proof (intro allI impI)
    fix ind n r assume ws: "ws_text ind" and "delim r" and n: "2 * length (stringify_indent ind (JObj kvs)) + 1 \<le> n"
    then obtain m where m: "n = Suc m" by (cases n) auto
    show "parse_value n (stringify_indent ind (JObj kvs) @ r) = Some (JObj kvs, r)"
    proof (cases kvs)
      case (Cons y ys)
      let ?t = "join sep (map (member_text (ind @ ''  '')) kvs) @ CHR 0x0A # ind @ CHR ''}'' # r"
      obtain u where "?t = (ind @ ''  '') @ quote (fst y) @ u"
        using join_Cons_append [of sep "member_text (ind @ ''  '') y" "map (member_text (ind @ ''  '')) ys"]
        by (auto simp: Cons member_text_def)
      then have op: "\<not> startsWith (skip_ws ?t) ''}''"
        using ws opener_skip [OF opener_append [OF opener_quote]] by (simp del: append_assoc)
      have "parse_members m ?t = Some (kvs, r)"
        by (rule pretty_members) (use Cons n ws pb in \<open>auto simp: m stringify_indent_JObj\<close>)
      then have "parse_members m ([CHR 0x0A] @ ?t) = Some (kvs, r)" by (subst parse_members_ws) simp_all
      then show ?thesis
        using op Cons JObj.prems by (simp add: m stringify_indent_JObj obj_of_distinct)
    qed (simp add: m obj_of_distinct)
  qed
qed (rule pretty_back_scalar; simp)+

lemma parse_stringify_indent: "json_wf v \<Longrightarrow> json_parse (stringify_indent [] v) = Some v"
proof -
  assume "json_wf v"
  then have "parse_value (2 * length (stringify_indent [] v) + 2) (stringify_indent [] v @ []) = Some (v, [])"
    by (intro pretty_backD json_wf_pretty_back) simp_all
  then show ?thesis by (simp add: json_parse_def skip_ws_def)
qed

interpretation json_pretty_codec: codec "stringify_indent []" json_parse json_wf
  by unfold_locales (rule parse_stringify_indent)

end
