(* ===== verification/Json_Objects.thy ===== *)
theory Json_Objects
  imports Json
begin

text \<open>
  How typed objects become JSON objects: an object is written from its fields with \<open>obj\<close>, where a field
  that is \<open>undefined\<close> is \<^const>\<open>None\<close> and is left out; an array of strings is \<open>strs\<close>; a record from
  strings to strings is \<open>labels_json\<close>, in the property order of the language (\<open>labels_ok\<close>).
\<close>

fun members :: "(string \<times> json option) list \<Rightarrow> (string \<times> json) list" where
  "members [] = []"
| "members ((k, None) # fs) = members fs"
| "members ((k, Some v) # fs) = (k, v) # members fs"

definition obj :: "(string \<times> json option) list \<Rightarrow> json" where
  "obj fs = JObj (members fs)"

definition strs :: "string list \<Rightarrow> json" where
  "strs xs = JArr (map JStr xs)"

definition labels_json :: "(string \<times> string) list \<Rightarrow> json" where
  "labels_json ls = JObj (map (\<lambda>kv. (fst kv, JStr (snd kv))) ls)"

definition labels_ok :: "(string \<times> string) list \<Rightarrow> bool" where
  "labels_ok ls = (distinct (map fst ls) \<and> prop_order ls = ls)"

section \<open>Fields and well-formedness\<close>

lemma members_keys: "fst ` set (members fs) \<subseteq> fst ` set fs"
  by (induction fs rule: members.induct) auto

lemma members_distinct: "distinct (map fst fs) \<Longrightarrow> distinct (map fst (members fs))"
  using members_keys by (induction fs rule: members.induct) force+

lemma members_fresh: "k \<notin> fst ` set fs \<Longrightarrow> map_of (members fs) k = None"
  using members_keys [of fs] by (auto simp: map_of_eq_None_iff)

lemma map_of_members:
  "distinct (map fst fs) \<Longrightarrow> map_of (members fs) k = (case map_of fs k of Some v \<Rightarrow> v | None \<Rightarrow> None)"
  by (induction fs rule: members.induct) (auto simp: members_fresh)

lemma map_of_same_keys:
  assumes "map fst fs = map fst gs" "distinct (map fst fs)"
  shows "(\<forall>k. (case map_of fs k of Some v \<Rightarrow> f v | None \<Rightarrow> None) = (case map_of gs k of Some v \<Rightarrow> f v | None \<Rightarrow> None))
     \<longleftrightarrow> map (\<lambda>x. f (snd x)) fs = map (\<lambda>x. f (snd x)) gs"
  using assms
proof (induction fs gs rule: list_induct2')
  case (4 x fs y gs)
  obtain k v w where xy: "x = (k, v)" "y = (k, w)" using 4(2) by (metis fst_conv list.sel(1) list.simps(9) surj_pair)
  have tl: "map fst fs = map fst gs" using 4(2) by simp
  have "k \<notin> set (map fst fs)" using 4(3) xy by simp
  then have fresh: "map_of fs k = None" "map_of gs k = None"
    using tl by (simp_all add: map_of_eq_None_iff flip: set_map)
  let ?l = "\<lambda>fs k. case map_of fs k of Some v \<Rightarrow> f v | None \<Rightarrow> None"
  have "(\<forall>j. ?l (x # fs) j = ?l (y # gs) j) \<longleftrightarrow> f v = f w \<and> (\<forall>j. ?l fs j = ?l gs j)"
  proof
    assume all: "\<forall>j. ?l (x # fs) j = ?l (y # gs) j"
    have "?l fs j = ?l gs j" for j
      using spec [OF all, of j] fresh by (cases "j = k") (simp_all add: xy)
    then show "f v = f w \<and> (\<forall>j. ?l fs j = ?l gs j)"
      using spec [OF all, of k] by (simp add: xy)
  qed (simp add: xy)
  then show ?case using 4 xy by simp
qed simp_all

lemma obj_inject:
  assumes "map fst fs = map fst gs" "distinct (map fst fs)"
  shows "obj fs = obj gs \<longleftrightarrow> map snd fs = map snd gs"
proof
  assume "obj fs = obj gs"
  then show "map snd fs = map snd gs"
    using map_of_same_keys [OF assms, of "\<lambda>v. v"] assms map_of_members [of fs] map_of_members [of gs]
    by (simp add: obj_def)
next
  assume "map snd fs = map snd gs"
  then have "fs = gs" using assms(1) by (metis zip_map_fst_snd)
  then show "obj fs = obj gs" by simp
qed

lemma letters_not_digits [simp]:
  "\<not> is_digit (CHR ''a'')" "\<not> is_digit (CHR ''b'')" "\<not> is_digit (CHR ''c'')"
  "\<not> is_digit (CHR ''d'')" "\<not> is_digit (CHR ''e'')" "\<not> is_digit (CHR ''f'')"
  "\<not> is_digit (CHR ''g'')" "\<not> is_digit (CHR ''h'')" "\<not> is_digit (CHR ''i'')"
  "\<not> is_digit (CHR ''j'')" "\<not> is_digit (CHR ''k'')" "\<not> is_digit (CHR ''l'')"
  "\<not> is_digit (CHR ''m'')" "\<not> is_digit (CHR ''n'')" "\<not> is_digit (CHR ''o'')"
  "\<not> is_digit (CHR ''p'')" "\<not> is_digit (CHR ''q'')" "\<not> is_digit (CHR ''r'')"
  "\<not> is_digit (CHR ''s'')" "\<not> is_digit (CHR ''t'')" "\<not> is_digit (CHR ''u'')"
  "\<not> is_digit (CHR ''v'')" "\<not> is_digit (CHR ''w'')" "\<not> is_digit (CHR ''x'')"
  "\<not> is_digit (CHR ''y'')" "\<not> is_digit (CHR ''z'')"
  by (simp_all add: is_digit_def code_unit_def)

lemma is_index_letter [simp]: "\<not> is_digit c \<Longrightarrow> \<not> is_index (c # cs)"
  by (simp add: is_index_def)

lemma json_wf_obj:
  assumes "distinct (map fst fs)" "\<forall>k \<in> fst ` set fs. \<not> is_index k" "\<forall>v. Some v \<in> snd ` set fs \<longrightarrow> json_wf v"
  shows "json_wf (obj fs)"
proof -
  have "(k, v) \<in> set (members fs) \<Longrightarrow> Some v \<in> snd ` set fs" for k v
    by (induction fs rule: members.induct) auto
  moreover have "prop_order (members fs) = members fs"
    using assms(2) members_keys [of fs] by (intro prop_order_names) blast
  ultimately show ?thesis
    using assms(3) members_distinct [OF assms(1)] by (auto simp: obj_def)
qed

lemma inj_JStr: "inj JStr"
  by (simp add: inj_def)

lemma strs_inject [simp]: "strs xs = strs ys \<longleftrightarrow> xs = ys"
  by (simp add: strs_def inj_map_eq_map [OF inj_JStr])

lemma json_wf_strs [simp]: "json_wf (strs xs)"
  by (auto simp: strs_def)

lemma labels_json_inject [simp]: "labels_json xs = labels_json ys \<longleftrightarrow> xs = ys"
proof -
  have "inj (\<lambda>kv :: string \<times> string. (fst kv, JStr (snd kv)))" by (auto intro: injI)
  from inj_map_eq_map [OF this] show ?thesis by (simp add: labels_json_def)
qed

lemma insort_key_fst_map:
  "insort_key (\<lambda>kv. g (fst kv)) (fst x, f (snd x)) (map (\<lambda>kv. (fst kv, f (snd kv))) xs) =
   map (\<lambda>kv. (fst kv, f (snd kv))) (insort_key (\<lambda>kv. g (fst kv)) x xs)"
  by (induction xs) auto

lemma sort_key_fst_map:
  "sort_key (\<lambda>kv. g (fst kv)) (map (\<lambda>kv. (fst kv, f (snd kv))) xs) =
   map (\<lambda>kv. (fst kv, f (snd kv))) (sort_key (\<lambda>kv. g (fst kv)) xs)"
  by (induction xs) (simp_all add: insort_key_fst_map)

lemma prop_order_map:
  "prop_order (map (\<lambda>kv. (fst kv, f (snd kv))) kvs) = map (\<lambda>kv. (fst kv, f (snd kv))) (prop_order kvs)"
  unfolding prop_order_def filter_map comp_def fst_conv sort_key_fst_map [of "digits_val 0"] map_append ..

lemma labels_json_wf: "labels_ok ls \<Longrightarrow> json_wf (labels_json ls)"
  by (auto simp: labels_ok_def labels_json_def prop_order_map comp_def)

lemma map_of_labels: "map_of (map (\<lambda>kv. (fst kv, JStr (snd kv))) ls) k = map_option JStr (map_of ls k)"
  by (induction ls) auto

end
