(* ===== verification/Js_Bytes.thy ===== *)
theory Js_Bytes
  imports Js_Prelude
begin

text \<open>
  Bytes of a string: \<open>TextEncoder\<close> and the fatal \<open>TextDecoder\<close> of the language on code units below
  256, and the proof that they are inverse (\<open>utf8_codec\<close>). A byte is a natural number below 256.
\<close>

definition utf8_char :: "char \<Rightarrow> nat list" where
  "utf8_char c = (let n = code_unit c in if n < 128 then [n] else [192 + n div 64, 128 + n mod 64])"

definition utf8 :: "string \<Rightarrow> nat list" where
  "utf8 s = concat (map utf8_char s)"

fun utf8_units :: "nat list \<Rightarrow> string option" where
  "utf8_units [] = Some []"
| "utf8_units (b # r) =
     (if b < 128 then map_option (Cons (char_of b)) (utf8_units r)
      else case r of
             c # r' \<Rightarrow>
               if (b = 194 \<or> b = 195) \<and> 128 \<le> c \<and> c < 192
               then map_option (Cons (char_of ((b - 192) * 64 + (c - 128)))) (utf8_units r')
               else None
           | [] \<Rightarrow> None)"

text \<open>The fatal decoder, which drops a leading byte order mark.\<close>

definition utf8_decode :: "nat list \<Rightarrow> string option" where
  "utf8_decode bs = utf8_units (if take 3 bs = [239, 187, 191] then drop 3 bs else bs)"

lemma utf8_char_not_Nil [simp]: "utf8_char c \<noteq> []"
  by (simp add: utf8_char_def Let_def)

lemma utf8_char_prefix: "utf8_char c @ r = utf8_char d @ s \<Longrightarrow> c = d \<and> r = s"
proof -
  assume eq: "utf8_char c @ r = utf8_char d @ s"
  have dm: "n div 64 = m div 64 \<Longrightarrow> n mod 64 = m mod 64 \<Longrightarrow> n = m" for n m :: nat
    by (metis div_mult_mod_eq)
  from eq have "code_unit c = code_unit d"
    using dm [of "code_unit c" "code_unit d"] by (auto simp: utf8_char_def Let_def split: if_splits)
  then show ?thesis using eq by simp
qed

lemma utf8_inject [simp]: "utf8 s = utf8 t \<longleftrightarrow> s = t"
proof (induction s arbitrary: t)
  case Nil
  then show ?case by (cases t) (simp_all add: utf8_def)
next
  case (Cons c s)
  show ?case
  proof (cases t)
    case Nil
    then show ?thesis by (simp add: utf8_def)
  next
    case (Cons d t')
    then show ?thesis using Cons.IH utf8_char_prefix [of c "utf8 s" d "utf8 t'"] by (auto simp: utf8_def)
  qed
qed

lemma utf8_bytes: "b \<in> set (utf8 s) \<Longrightarrow> b < 256"
proof -
  have "192 + code_unit c div 64 < 256" "128 + code_unit c mod 64 < 256" for c
    using code_unit_bound [of c] by linarith+
  then show "b \<in> set (utf8 s) \<Longrightarrow> b < 256"
    by (auto simp: utf8_def utf8_char_def Let_def split: if_splits)
qed

lemma utf8_Nil [simp]: "utf8 [] = []"
  by (simp add: utf8_def)

lemma utf8_Cons: "utf8 (c # s) = utf8_char c @ utf8 s"
  by (simp add: utf8_def)

lemma utf8_units_utf8: "utf8_units (utf8 s) = Some s"
proof (induction s)
  case (Cons c s)
  have "code_unit c div 64 = 2 \<or> code_unit c div 64 = 3" if "\<not> code_unit c < 128"
    using that code_unit_bound [of c] by linarith
  moreover have "char_of (code_unit c) = c" by (simp add: code_unit_def)
  moreover have "code_unit c div 64 * 64 + code_unit c mod 64 = code_unit c" by simp
  ultimately show ?case
    using Cons by (auto simp: utf8_Cons utf8_char_def Let_def)
qed simp

lemma utf8_no_bom: "take 3 (utf8 s) \<noteq> [239, 187, 191]"
proof (cases s)
  case (Cons c t)
  have "192 + code_unit c div 64 < 239" using code_unit_bound [of c] by linarith
  then show ?thesis using Cons by (auto simp: utf8_Cons utf8_char_def Let_def)
qed simp

interpretation utf8_codec: codec utf8 utf8_decode "\<lambda>_. True"
  by unfold_locales (simp add: utf8_decode_def utf8_no_bom utf8_units_utf8)

end
