(* ===== verification/Policy_Json.thy ===== *)
theory Policy_Json
  imports Json_Pretty Json_Objects Js_Bytes Policy_Types
begin

text \<open>
  The policy document as the JSON value that the engine serialises (packages/policy-engine/src/types.ts
  gives the fields and their order), the canonical form of packages/policy-engine/src/hash.ts, and the
  two printers \<open>contentHash\<close> and \<open>canonicalJson\<close> built on it.

  A field that is \<open>undefined\<close> is left out (\<open>obj\<close>), as \<open>JSON.stringify\<close> and \<open>canonicalize\<close>
  both do. SHA-256 is the
  platform's: the digest is a parameter of \<open>contentHash\<close>.

  The locale \<open>entity\<close> is the interface that the merge and the diff need of a kind of entity: a key,
  and a JSON encoding that determines the value. It is interpreted on the ten kinds of entity of a
  document.
\<close>

definition scope_json :: "scope \<Rightarrow> json" where
  "scope_json s = JStr (case s of ScopeOrganization \<Rightarrow> ''organization'' | ScopeNetwork \<Rightarrow> ''network'')"

definition action_json :: "action \<Rightarrow> json" where
  "action_json a = JStr (case a of Allow \<Rightarrow> ''allow'' | Deny \<Rightarrow> ''deny'')"

definition icmp_json :: "icmpPolicy \<Rightarrow> json" where
  "icmp_json a = JStr (case a of IcmpAllow \<Rightarrow> ''allow'' | IcmpAcl \<Rightarrow> ''acl'' | IcmpDeny \<Rightarrow> ''deny'')"

definition protocol_json :: "string option option \<Rightarrow> json option" where
  "protocol_json p = map_option (\<lambda>q. case q of None \<Rightarrow> JNull | Some s \<Rightarrow> JStr s) p"

definition tag_json :: "tagDefinition \<Rightarrow> json" where
  "tag_json t = obj [(''name'', Some (JStr (tag_name t))), (''owners'', Some (strs (tag_owners t)))]"

definition alias_json :: "hostAlias \<Rightarrow> json" where
  "alias_json h = obj [(''name'', Some (JStr (alias_name h))), (''target'', Some (JStr (alias_target h)))]"

definition ipSet_json :: "ipSet \<Rightarrow> json" where
  "ipSet_json s = obj [(''name'', Some (JStr (set_name s))), (''cidrs'', Some (strs (set_cidrs s)))]"

definition acl_json :: "aclRule \<Rightarrow> json" where
  "acl_json a = obj [
     (''name'', Some (JStr (acl_name a))), (''slug'', map_option JStr (acl_slug a)),
     (''action'', Some (JStr (acl_action a))), (''src'', Some (strs (acl_src a))),
     (''dst'', Some (strs (acl_dst a))), (''ports'', Some (strs (acl_ports a))),
     (''protocol'', protocol_json (acl_protocol a)), (''priority'', Some (JInt (acl_priority a))),
     (''orderIndex'', Some (JInt (acl_orderIndex a))), (''scope'', Some (scope_json (acl_scope a))),
     (''posture'', Some (strs (acl_posture a))), (''labels'', Some (labels_json (acl_labels a))),
     (''enabled'', Some (JBool (acl_enabled a)))]"

definition grant_json :: "grant \<Rightarrow> json" where
  "grant_json g = obj [
     (''name'', Some (JStr (grant_name g))), (''principals'', Some (strs (grant_principals g))),
     (''capability'', Some (JStr (grant_capability g))), (''ports'', Some (strs (grant_ports g))),
     (''protocol'', protocol_json (grant_protocol g))]"

definition ssh_json :: "sshRule \<Rightarrow> json" where
  "ssh_json r = obj [
     (''name'', Some (JStr (ssh_name r))), (''src'', Some (strs (ssh_src r))),
     (''dst'', Some (strs (ssh_dst r))), (''action'', Some (JStr (ssh_action r))),
     (''users'', Some (strs (ssh_users r))), (''priority'', Some (JInt (ssh_priority r))),
     (''enabled'', Some (JBool (ssh_enabled r)))]"

definition posture_json :: "postureDefinition \<Rightarrow> json" where
  "posture_json p = obj [(''name'', Some (JStr (posture_name p))),
     (''assertions'', Some (strs (posture_assertions p)))]"

definition approver_json :: "autoApprover \<Rightarrow> json" where
  "approver_json a = obj [(''name'', Some (JStr (approver_name a))), (''route'', Some (JStr (approver_route a))),
     (''principals'', Some (strs (approver_principals a)))]"

definition attr_json :: "nodeAttribute \<Rightarrow> json" where
  "attr_json n = obj [(''name'', Some (JStr (attr_name n))), (''value'', Some (JStr (attr_value n))),
     (''selectors'', Some (strs (attr_selectors n)))]"

definition test_json :: "policyTest \<Rightarrow> json" where
  "test_json t = obj [(''name'', Some (JStr (test_name t))), (''src'', Some (JStr (test_src t))),
     (''accept'', Some (strs (test_accept t))), (''deny'', Some (strs (test_deny t)))]"

definition doc_json :: "policyDocument \<Rightarrow> json" where
  "doc_json d = obj [
     (''tags'', Some (JArr (map tag_json (doc_tags d)))),
     (''host_aliases'', Some (JArr (map alias_json (doc_host_aliases d)))),
     (''ip_sets'', Some (JArr (map ipSet_json (doc_ip_sets d)))),
     (''acls'', Some (JArr (map acl_json (doc_acls d)))),
     (''grants'', Some (JArr (map grant_json (doc_grants d)))),
     (''ssh_rules'', Some (JArr (map ssh_json (doc_ssh_rules d)))),
     (''postures'', Some (JArr (map posture_json (doc_postures d)))),
     (''auto_approvers'', Some (JArr (map approver_json (doc_auto_approvers d)))),
     (''node_attributes'', Some (JArr (map attr_json (doc_node_attributes d)))),
     (''tests'', Some (JArr (map test_json (doc_tests d)))),
     (''default_action'', Some (action_json (doc_default_action d))),
     (''icmp_policy'', Some (icmp_json (doc_icmp_policy d)))]"

section \<open>hash.ts\<close>

definition drop_child :: "json \<Rightarrow> bool" where
  "drop_child v = (v = JArr [] \<or> v = JObj [])"

function canonicalize :: "json \<Rightarrow> json" where
  "canonicalize JNull = JNull"
| "canonicalize (JBool b) = JBool b"
| "canonicalize (JInt i) = JInt i"
| "canonicalize (JFrac t) = JFrac t"
| "canonicalize (JStr s) = JStr s"
| "canonicalize (JArr xs) = JArr (map canonicalize xs)"
| "canonicalize (JObj kvs) = JObj (prop_order (map (\<lambda>kv. (fst kv, canonicalize (snd kv)))
     (filter (\<lambda>kv. \<not> drop_child (snd kv)) (sort_key fst kvs))))"
  by pat_completeness auto
termination
proof (relation "measure size")
  fix kvs and kv :: "string \<times> json"
  assume "kv \<in> set (filter (\<lambda>kv. \<not> drop_child (snd kv)) (sort_key fst kvs))"
  then have "kv \<in> set kvs" by simp
  then have "size (snd kv) < size_list (size_prod (\<lambda>_. 0) size) kvs"
    by (rule size_list_estimation) (cases kv, simp)
  then show "(snd kv, JObj kvs) \<in> measure size" by simp
qed (auto simp: less_Suc_eq_le intro: size_list_estimation')

definition hex_byte :: "nat \<Rightarrow> string" where
  "hex_byte b = [hex_char (b div 16), hex_char (b mod 16)]"

definition contentHash :: "(nat list \<Rightarrow> nat list) \<Rightarrow> policyDocument \<Rightarrow> string" where
  "contentHash sha256 doc = concat (map hex_byte (sha256 (utf8 (stringify (canonicalize (doc_json doc))))))"

definition canonicalJson :: "policyDocument \<Rightarrow> string" where
  "canonicalJson doc = stringify_indent [] (canonicalize (doc_json doc))"

section \<open>Canonical form\<close>

text \<open>What the canonical form of an object shows of one of its fields.\<close>

definition shown :: "json option \<Rightarrow> json option" where
  "shown v = (case v of None \<Rightarrow> None | Some w \<Rightarrow> if drop_child w then None else Some (canonicalize w))"

lemma distinct_map_of_eqI:
  "distinct (map fst xs) \<Longrightarrow> distinct (map fst ys) \<Longrightarrow> set xs = set ys \<Longrightarrow> map_of xs = map_of ys"
  by (intro ext) (metis map_of_eq_None_iff map_of_eq_Some_iff option.exhaust)

lemma map_of_filter_map:
  "distinct (map fst xs) \<Longrightarrow>
   map_of (map (\<lambda>kv. (fst kv, f (snd kv))) (filter (\<lambda>kv. P (snd kv)) xs)) k =
   (case map_of xs k of Some v \<Rightarrow> if P v then Some (f v) else None | None \<Rightarrow> None)"
proof (induction xs)
  case (Cons x xs)
  have "fst x \<notin> fst ` set xs \<Longrightarrow> map_of (map (\<lambda>kv. (fst kv, f (snd kv))) (filter (\<lambda>kv. P (snd kv)) xs)) (fst x) = None"
    by (auto simp: map_of_eq_None_iff) (metis fst_conv image_eqI)
  then show ?case using Cons by (cases x) auto
qed simp

definition canon_members :: "(string \<times> json) list \<Rightarrow> (string \<times> json) list" where
  "canon_members kvs = map (\<lambda>kv. (fst kv, canonicalize (snd kv)))
     (filter (\<lambda>kv. \<not> drop_child (snd kv)) (sort_key fst kvs))"

lemma canonicalize_JObj [simp]: "canonicalize (JObj kvs) = JObj (prop_order (canon_members kvs))"
  by (simp add: canon_members_def)

declare canonicalize.simps(7) [simp del]

lemma distinct_sort_key_fst [simp]: "distinct (map fst (sort_key fst kvs)) \<longleftrightarrow> distinct (map fst kvs)"
  by (metis mset_eq_imp_distinct_iff mset_map mset_sort)

lemma distinct_canon_members: "distinct (map fst kvs) \<Longrightarrow> distinct (map fst (canon_members kvs))"
  by (simp add: canon_members_def comp_def distinct_map_filter)

lemma sorted_canon_members: "sorted (map fst (canon_members kvs))"
  by (simp add: canon_members_def comp_def sorted_filter)

lemma map_of_canon_members:
  "distinct (map fst kvs) \<Longrightarrow> map_of (canon_members kvs) k = shown (map_of kvs k)"
proof -
  assume d: "distinct (map fst kvs)"
  then have "map_of (sort_key fst kvs) = map_of kvs" by (intro distinct_map_of_eqI) simp_all
  then show ?thesis
    using d unfolding canon_members_def
    by (subst map_of_filter_map) (auto simp: shown_def split: option.splits)
qed

text \<open>Two lists of members with distinct keys have the same canonical form exactly when the canonical
  form shows the same of every key.\<close>

lemma sorted_distinct_map_of:
  assumes "sorted (map fst xs)" "distinct (map fst xs)" "sorted (map fst ys)" "distinct (map fst ys)"
    "map_of xs = map_of ys"
  shows "xs = ys"
proof -
  have "set xs = set ys" using set_map_of_compr [OF assms(2)] set_map_of_compr [OF assms(4)] assms(5) by simp
  moreover have "inj_on fst (set xs)" using assms(2) by (simp add: distinct_map)
  ultimately show ?thesis
    using map_sorted_distinct_set_unique [of fst xs ys, OF _ assms(1-4)] by simp
qed

lemma canon_eq_iff:
  assumes "distinct (map fst xs)" "distinct (map fst ys)"
  shows "canonicalize (JObj xs) = canonicalize (JObj ys) \<longleftrightarrow> (\<forall>k. shown (map_of xs k) = shown (map_of ys k))"
proof
  assume "canonicalize (JObj xs) = canonicalize (JObj ys)"
  then have "map_of (canon_members xs) = map_of (canon_members ys)"
    using assms distinct_canon_members by (metis canonicalize_JObj json.inject(6) map_of_prop_order)
  then show "\<forall>k. shown (map_of xs k) = shown (map_of ys k)"
    using assms by (metis map_of_canon_members)
next
  assume "\<forall>k. shown (map_of xs k) = shown (map_of ys k)"
  then have "map_of (canon_members xs) = map_of (canon_members ys)"
    using assms by (auto simp: map_of_canon_members)
  then show "canonicalize (JObj xs) = canonicalize (JObj ys)"
    using sorted_distinct_map_of assms by (metis canonicalize_JObj distinct_canon_members sorted_canon_members)
qed

lemma canon_obj_iff:
  assumes "map fst fs = map fst gs" "distinct (map fst fs)"
  shows "canonicalize (obj fs) = canonicalize (obj gs) \<longleftrightarrow> map (\<lambda>x. shown (snd x)) fs = map (\<lambda>x. shown (snd x)) gs"
proof -
  have look: "shown (map_of (members hs) k) = (case map_of hs k of Some v \<Rightarrow> shown v | None \<Rightarrow> None)"
    if "distinct (map fst hs)" for hs k
    using that by (simp add: map_of_members shown_def split: option.splits)
  have d: "distinct (map fst gs)" using assms by simp
  show ?thesis
    unfolding obj_def
    by (simp only: canon_eq_iff [OF members_distinct [OF assms(2)] members_distinct [OF d]]
        look [OF assms(2)] look [OF d] map_of_same_keys [OF assms])
qed

section \<open>Fields\<close>

lemma scope_json_inject [simp]: "scope_json a = scope_json b \<longleftrightarrow> a = b"
  by (cases a; cases b) (simp_all add: scope_json_def)

lemma action_json_inject [simp]: "action_json a = action_json b \<longleftrightarrow> a = b"
  by (cases a; cases b) (simp_all add: action_json_def)

lemma icmp_json_inject [simp]: "icmp_json a = icmp_json b \<longleftrightarrow> a = b"
  by (cases a; cases b) (simp_all add: icmp_json_def)

lemma protocol_json_inject [simp]: "protocol_json a = protocol_json b \<longleftrightarrow> a = b"
  by (cases a; cases b) (auto simp: protocol_json_def split: option.splits)

lemma wf_fields [simp]:
  "json_wf (scope_json s)" "json_wf (action_json a)" "json_wf (icmp_json i)"
  by (auto simp: scope_json_def action_json_def icmp_json_def)

lemma protocol_json_wf: "protocol_json p = Some v \<Longrightarrow> json_wf v"
  by (cases p; cases "the p") (auto simp: protocol_json_def)

lemma slug_inject [simp]: "map_option JStr a = map_option JStr b \<longleftrightarrow> a = b"
  by (cases a; cases b) simp_all

lemma shown_scalar [simp]:
  "shown None = None" "shown (Some (JStr s)) = Some (JStr s)" "shown (Some (JInt i)) = Some (JInt i)"
  "shown (Some (JBool b)) = Some (JBool b)" "shown (map_option JStr sl) = map_option JStr sl"
  "shown (Some (scope_json sc)) = Some (scope_json sc)" "shown (Some (action_json a)) = Some (action_json a)"
  "shown (Some (icmp_json ic)) = Some (icmp_json ic)"
  by (simp_all add: shown_def drop_child_def scope_json_def action_json_def icmp_json_def split: option.splits)

lemma shown_protocol [simp]: "shown (protocol_json p) = protocol_json p"
  by (cases p; cases "the p") (auto simp: shown_def drop_child_def protocol_json_def)

lemma shown_array:
  "shown (Some (JArr (map f xs))) = shown (Some (JArr (map f ys))) \<longleftrightarrow>
   map (\<lambda>x. canonicalize (f x)) xs = map (\<lambda>x. canonicalize (f x)) ys"
  by (cases xs; cases ys) (simp_all add: shown_def drop_child_def comp_def)

lemma shown_strs [simp]: "shown (Some (strs xs)) = shown (Some (strs ys)) \<longleftrightarrow> xs = ys"
  using inj_map_eq_map [OF inj_JStr] by (simp add: strs_def shown_array)

lemma sort_key_map_of:
  assumes "distinct (map fst xs)" "distinct (map fst ys)"
  shows "sort_key fst xs = sort_key fst ys \<longleftrightarrow> map_of xs = map_of (ys :: (string \<times> 'a) list)"
proof
  assume "sort_key fst xs = sort_key fst ys"
  then show "map_of xs = map_of ys"
    using assms by (metis distinct_map_of_eqI set_sort)
next
  assume "map_of xs = map_of ys"
  moreover have "map_of (sort_key fst zs) = map_of zs" if "distinct (map fst zs)"
    for zs :: "(string \<times> 'a) list"
    using that by (intro distinct_map_of_eqI) simp_all
  ultimately show "sort_key fst xs = sort_key fst ys"
    using assms by (intro sorted_distinct_map_of) simp_all
qed

lemma shown_labels:
  assumes "labels_ok xs" "labels_ok ys"
  shows "shown (Some (labels_json xs)) = shown (Some (labels_json ys)) \<longleftrightarrow> sort_key fst xs = sort_key fst ys"
proof -
  have d: "distinct (map fst xs)" "distinct (map fst ys)" using assms by (simp_all add: labels_ok_def)
  have eq: "canonicalize (labels_json xs) = canonicalize (labels_json ys) \<longleftrightarrow> map_of xs = map_of ys"
    using d by (simp only: labels_json_def, subst canon_eq_iff)
      (auto simp: comp_def map_of_labels)
  have sh: "shown (Some (labels_json zs)) = (if zs = [] then None else Some (canonicalize (labels_json zs)))" for zs
    by (simp add: shown_def drop_child_def labels_json_def)
  have nil: "sort_key fst zs = [] \<longleftrightarrow> zs = []" for zs :: "(string \<times> string) list"
    by (metis length_0_conv length_sort)
  show ?thesis
    using nil [of xs] nil [of ys] eq sort_key_map_of [OF d] unfolding sh by (metis option.distinct(1) option.inject)
qed

section \<open>The interface of an entity\<close>

text \<open>A kind of entity: its key and its JSON encoding. The text of an entity determines it, which is
  what the diff relies on when it compares texts.\<close>

locale entity =
  fixes key :: "'a \<Rightarrow> string" and enc :: "'a \<Rightarrow> json" and ok :: "'a \<Rightarrow> bool"
  assumes enc_wf: "ok x \<Longrightarrow> json_wf (enc x)"
    and enc_inj: "ok x \<Longrightarrow> ok y \<Longrightarrow> enc x = enc y \<Longrightarrow> x = y"
begin

lemma text_determines: "ok x \<Longrightarrow> ok y \<Longrightarrow> stringify (enc x) = stringify (enc y) \<longleftrightarrow> x = y"
  using enc_wf enc_inj by (auto simp: stringify_inject)

lemma array_wf: "\<forall>x \<in> set xs. ok x \<Longrightarrow> json_wf (JArr (map enc xs))"
  using enc_wf by auto

end

text \<open>An entity whose canonical form determines it up to a normalisation.\<close>

locale canonical_entity = entity +
  fixes norm :: "'a \<Rightarrow> 'a"
  assumes canon_iff: "ok x \<Longrightarrow> ok y \<Longrightarrow> canonicalize (enc x) = canonicalize (enc y) \<longleftrightarrow> norm x = norm y"
begin

lemma canon_array:
  assumes "\<forall>x \<in> set xs. ok x" "\<forall>y \<in> set ys. ok y"
  shows "shown (Some (JArr (map enc xs))) = shown (Some (JArr (map enc ys))) \<longleftrightarrow> map norm xs = map norm ys"
  unfolding shown_array using assms
  by (induction xs ys rule: list_induct2') (auto simp: canon_iff)

end

abbreviation any_entity :: "'a \<Rightarrow> bool" where
  "any_entity \<equiv> \<lambda>_. True"

definition sort_labels :: "aclRule \<Rightarrow> aclRule" where
  "sort_labels a = a\<lparr>acl_labels := sort_key fst (acl_labels a)\<rparr>"

interpretation tag_entity: canonical_entity tag_name tag_json any_entity id
  by unfold_locales (auto simp: tag_json_def obj_inject canon_obj_iff intro!: json_wf_obj)

interpretation alias_entity: canonical_entity alias_name alias_json any_entity id
  by unfold_locales (auto simp: alias_json_def obj_inject canon_obj_iff intro!: json_wf_obj)

interpretation ipSet_entity: canonical_entity set_name ipSet_json any_entity id
  by unfold_locales (auto simp: ipSet_json_def obj_inject canon_obj_iff intro!: json_wf_obj)

interpretation acl_entity: canonical_entity aclKey acl_json "\<lambda>a. labels_ok (acl_labels a)" sort_labels
proof
  show "json_wf (acl_json a)" if "labels_ok (acl_labels a)" for a
    using that unfolding acl_json_def
    by (intro json_wf_obj) (auto simp: labels_json_wf protocol_json_wf dest!: sym [of "Some _"])
  show "a = b" if "acl_json a = acl_json b" for a b
    using that unfolding acl_json_def by (subst (asm) obj_inject) auto
  show "canonicalize (acl_json a) = canonicalize (acl_json b) \<longleftrightarrow> sort_labels a = sort_labels b"
    if "labels_ok (acl_labels a)" "labels_ok (acl_labels b)" for a b
    using shown_labels [OF that] unfolding acl_json_def
    by (subst canon_obj_iff) (simp_all, cases a, cases b, auto simp: sort_labels_def)
qed

interpretation grant_entity: canonical_entity grant_name grant_json any_entity id
  by unfold_locales
     (auto simp: grant_json_def obj_inject canon_obj_iff protocol_json_wf intro!: json_wf_obj dest!: sym [of "Some _"])

interpretation ssh_entity: canonical_entity ssh_name ssh_json any_entity id
  by unfold_locales (auto simp: ssh_json_def obj_inject canon_obj_iff intro!: json_wf_obj)

interpretation posture_entity: canonical_entity posture_name posture_json any_entity id
  by unfold_locales (auto simp: posture_json_def obj_inject canon_obj_iff intro!: json_wf_obj)

interpretation approver_entity: canonical_entity approver_name approver_json any_entity id
  by unfold_locales (auto simp: approver_json_def obj_inject canon_obj_iff intro!: json_wf_obj)

interpretation attr_entity: canonical_entity attr_name attr_json any_entity id
  by unfold_locales (auto simp: attr_json_def obj_inject canon_obj_iff intro!: json_wf_obj)

interpretation test_entity: canonical_entity test_name test_json any_entity id
  by unfold_locales (auto simp: test_json_def obj_inject canon_obj_iff intro!: json_wf_obj)

section \<open>The canonical text of a document\<close>

definition labels_wf :: "policyDocument \<Rightarrow> bool" where
  "labels_wf d = (\<forall>a \<in> set (doc_acls d). labels_ok (acl_labels a))"

text \<open>The document with the labels of every ACL in key order.\<close>

definition canon_doc :: "policyDocument \<Rightarrow> policyDocument" where
  "canon_doc d = d\<lparr>doc_acls := map sort_labels (doc_acls d)\<rparr>"

lemma doc_json_wf: "labels_wf d \<Longrightarrow> json_wf (doc_json d)"
  unfolding doc_json_def labels_wf_def
  by (intro json_wf_obj)
     (auto simp: acl_entity.enc_wf tag_entity.enc_wf alias_entity.enc_wf ipSet_entity.enc_wf grant_entity.enc_wf
        ssh_entity.enc_wf posture_entity.enc_wf approver_entity.enc_wf attr_entity.enc_wf test_entity.enc_wf)

lemma json_wf_canonicalize: "json_wf v \<Longrightarrow> json_wf (canonicalize v)"
proof (induction v rule: canonicalize.induct)
  case (7 kvs)
  have "json_wf (snd kv)" if "kv \<in> set (canon_members kvs)" for kv
    using that 7 by (auto simp: canon_members_def)
  then show ?case using 7(2) distinct_canon_members [of kvs] by simp
qed auto

lemma canonicalize_doc_iff:
  assumes "labels_wf d" "labels_wf e"
  shows "canonicalize (doc_json d) = canonicalize (doc_json e) \<longleftrightarrow> canon_doc d = canon_doc e"
  unfolding doc_json_def using assms
  by (subst canon_obj_iff)
     (simp_all add: labels_wf_def tag_entity.canon_array alias_entity.canon_array ipSet_entity.canon_array
        acl_entity.canon_array grant_entity.canon_array ssh_entity.canon_array posture_entity.canon_array
        approver_entity.canon_array attr_entity.canon_array test_entity.canon_array,
      cases d, cases e, auto simp: canon_doc_def)

lemma canonical_text_iff:
  assumes "labels_wf d" "labels_wf e"
  shows "stringify (canonicalize (doc_json d)) = stringify (canonicalize (doc_json e)) \<longleftrightarrow> canon_doc d = canon_doc e"
  using assms by (simp add: json_wf_canonicalize doc_json_wf canonicalize_doc_iff)

section \<open>Hexadecimal text\<close>

lemma hex_byte_inject: "a < 256 \<Longrightarrow> b < 256 \<Longrightarrow> hex_byte a = hex_byte b \<Longrightarrow> a = b"
proof -
  assume "a < 256" "b < 256" "hex_byte a = hex_byte b"
  then have "hex_val (hex_char (a div 16)) = hex_val (hex_char (b div 16))"
    "hex_val (hex_char (a mod 16)) = hex_val (hex_char (b mod 16))" "a div 16 < 16" "b div 16 < 16"
    by (auto simp: hex_byte_def)
  then have "a div 16 = b div 16" "a mod 16 = b mod 16" by simp_all
  then show ?thesis by (metis div_mult_mod_eq)
qed

lemma length_hex_byte [simp]: "length (hex_byte b) = 2"
  by (simp add: hex_byte_def)

lemma hex_text_inject:
  "\<forall>b \<in> set bs \<union> set cs. b < 256 \<Longrightarrow> concat (map hex_byte bs) = concat (map hex_byte cs) \<Longrightarrow> bs = cs"
proof (induction bs cs rule: list_induct2')
  case (4 b bs c cs)
  then have "hex_byte b = hex_byte c" "concat (map hex_byte bs) = concat (map hex_byte cs)"
    using append_eq_append_conv [of "hex_byte b" "hex_byte c"] by (simp_all add: length_hex_byte)
  then show ?case using 4(1,2) hex_byte_inject [of b c] by (metis UnI1 UnI2 Un_iff list.set_intros)
qed (simp_all add: hex_byte_def)

section \<open>Properties\<close>

definition ex_labelled :: "(string \<times> string) list \<Rightarrow> policyDocument" where
  "ex_labelled ls = emptyDocument\<lparr>doc_acls := [\<lparr>acl_name = ''a'', acl_slug = None, acl_action = ''deny'',
     acl_src = [], acl_dst = [''*''], acl_ports = [], acl_protocol = Some None, acl_priority = 0,
     acl_orderIndex = 0, acl_scope = ScopeNetwork, acl_posture = [], acl_labels = ls, acl_enabled = True\<rparr>]\<rparr>"

text \<open>
  C9. The content hash identifies a document: two documents have the same hash exactly when they
  agree in every field, up to the order in which the labels of an ACL are written. That empty arrays
  and objects are left out of the hashed text and that keys are sorted loses nothing. The digest is
  assumed to yield bytes and not to collide on the two texts.
\<close>

theorem contentHash_identifies:
  assumes "labels_wf d" "labels_wf e"
    and bytes: "\<And>x. \<forall>b \<in> set (sha256 x). b < 256"
    and collision: "\<And>s t. s \<in> {canonicalize (doc_json d), canonicalize (doc_json e)} \<Longrightarrow>
      t \<in> {canonicalize (doc_json d), canonicalize (doc_json e)} \<Longrightarrow>
      sha256 (utf8 (stringify s)) = sha256 (utf8 (stringify t)) \<Longrightarrow> utf8 (stringify s) = utf8 (stringify t)"
  shows "contentHash sha256 d = contentHash sha256 e \<longleftrightarrow> canon_doc d = canon_doc e"
proof -
  let ?s = "canonicalize (doc_json d)" and ?t = "canonicalize (doc_json e)"
  have "contentHash sha256 d = contentHash sha256 e \<longleftrightarrow> sha256 (utf8 (stringify ?s)) = sha256 (utf8 (stringify ?t))"
    using hex_text_inject [of "sha256 (utf8 (stringify ?s))" "sha256 (utf8 (stringify ?t))"] bytes
    by (auto simp: contentHash_def)
  also have "\<dots> \<longleftrightarrow> stringify ?s = stringify ?t" using collision [of ?s ?t] by auto
  finally show ?thesis using canonical_text_iff [OF assms(1,2)] by simp
qed

theorem contentHash_identifies_witness:
  "contentHash (map (\<lambda>b. b mod 256)) (ex_labelled [(''b'', ''1''), (''a'', ''2'')]) =
     contentHash (map (\<lambda>b. b mod 256)) (ex_labelled [(''a'', ''2''), (''b'', ''1'')])"
proof -
  let ?sha = "map (\<lambda>b. b mod 256) :: nat list \<Rightarrow> nat list"
  let ?d = "ex_labelled [(''b'', ''1''), (''a'', ''2'')]" and ?e = "ex_labelled [(''a'', ''2''), (''b'', ''1'')]"
  have wf: "labels_wf ?d" "labels_wf ?e" by code_simp+
  have bytes: "?sha (utf8 s) = utf8 s" for s
    by (rule map_idI) (simp add: utf8_bytes)
  have "canon_doc ?d = canon_doc ?e" by code_simp
  then show ?thesis using contentHash_identifies [OF wf, of ?sha] bytes by auto
qed

end
