(* ===== verification/Policy_Validate.thy ===== *)
theory Policy_Validate
  imports Policy_Simulate
begin

text \<open>
  The document validator, packages/policy-engine/src/validate.ts. The arrays \<open>errors\<close> and
  \<open>warnings\<close> that the source pushes to are the results of the model's functions: every helper
  returns the issues it pushes, in order.

  The lemmas show which documents validate (\<open>validateDocument_valid\<close>), that a document that
  validates compiles, so that a simulation of it can only fail on the selectors of the scenario, and
  which port ranges a validated rule compiles to.
\<close>

definition issue :: "string \<Rightarrow> string \<Rightarrow> validationIssue" where
  "issue path message = \<lparr>issue_path = Some path, issue_message = message\<rparr>"

definition quoted :: "string \<Rightarrow> string" where
  "quoted s = CHR 0x27 # s @ [CHR 0x27]"

fun checkUnique_from :: "string list \<Rightarrow> string list \<Rightarrow> string \<Rightarrow> validationIssue list" where
  "checkUnique_from seen [] entity = []"
| "checkUnique_from seen (name # names) entity =
     (if name \<in> set seen then [issue entity (''duplicate name '' @ quoted name)] else []) @
     checkUnique_from (name # seen) names entity"

definition checkUnique :: "string list \<Rightarrow> string \<Rightarrow> validationIssue list" where
  "checkUnique names entity = checkUnique_from [] names entity"

definition isValidPortSpec :: "string \<Rightarrow> bool" where
  "isValidPortSpec spec =
     (if (case parseInt spec of Some single \<Rightarrow> 0 < single \<and> single \<le> 65535 | None \<Rightarrow> False) then True
      else case split_on (CHR ''-'') spec of
             [a, b] \<Rightarrow>
               (case (parseInt a, parseInt b) of
                  (Some start, Some end') \<Rightarrow> 0 < start \<and> 0 < end' \<and> start \<le> end'
                | _ \<Rightarrow> False)
           | _ \<Rightarrow> False)"

record selectorRefs =
  ref_tags :: "string list"
  ref_hostAliases :: "string list"
  ref_ipSets :: "string list"

definition checkSelectorRefs :: "string \<Rightarrow> string \<Rightarrow> selectorRefs \<Rightarrow> validationIssue list" where
  "checkSelectorRefs sel path refs = (case parseSelector sel of
       Inl e \<Rightarrow> [issue path (selectorErrorMessage e)]
     | Inr (SelTag v) \<Rightarrow>
         if v \<in> set (ref_tags refs) then [] else [issue path (''unknown tag '' @ quoted v)]
     | Inr (SelHostAlias v) \<Rightarrow>
         if v \<in> set (ref_hostAliases refs) then [] else [issue path (''unknown host alias '' @ quoted v)]
     | Inr (SelIpSet v) \<Rightarrow>
         if v \<in> set (ref_ipSets refs) then [] else [issue path (''unknown ip set '' @ quoted v)]
     | Inr _ \<Rightarrow> [])"

text \<open>The body of the loop over the ACLs: its errors and its warnings.\<close>

definition aclErrors :: "selectorRefs \<Rightarrow> string list \<Rightarrow> aclRule \<Rightarrow> validationIssue list" where
  "aclErrors refs postures acl =
     (let path = ''acls.'' @ acl_name acl in
      (if acl_action acl \<noteq> ''allow'' \<and> acl_action acl \<noteq> ''deny'' then
         [issue path (''invalid action '' @ quoted (acl_action acl) @ '', expected allow or deny'')]
       else []) @
      concat (map (\<lambda>sel. checkSelectorRefs sel path refs) (acl_src acl @ acl_dst acl)) @
      concat (map (\<lambda>posture. if posture \<notin> set postures
                then [issue (path @ ''.posture'') (''unknown posture '' @ quoted posture)] else [])
             (acl_posture acl)) @
      concat (map (\<lambda>port. if \<not> isValidPortSpec port
                then [issue (path @ ''.ports'') (''invalid port spec '' @ quoted port)] else [])
             (acl_ports acl)))"

definition aclWarnings :: "aclRule \<Rightarrow> validationIssue list" where
  "aclWarnings acl =
     (if length (acl_src acl) = 0
      then [issue (''acls.'' @ acl_name acl @ ''.src'') ''empty src matches nothing''] else []) @
     (if length (acl_dst acl) = 0
      then [issue (''acls.'' @ acl_name acl @ ''.dst'') ''empty dst matches nothing''] else [])"

text \<open>\<open>dst.replace(/:[^:]*$/, "")\<close>: the text before the last colon.\<close>

definition strip_last_colon :: "string \<Rightarrow> string" where
  "strip_last_colon s = (if CHR '':'' \<in> set s then rev (tl (dropWhile (\<lambda>c. c \<noteq> CHR '':'') (rev s))) else s)"

definition testDstErrors :: "policyTest \<Rightarrow> string \<Rightarrow> validationIssue list" where
  "testDstErrors test dst =
     (let selectorPart = (if CHR '':'' \<in> set dst then hd (split_on (CHR '':'') dst) else dst) in
      case parseSelector (if selectorPart = dst then dst else strip_last_colon dst) of
        Inr _ \<Rightarrow> []
      | Inl _ \<Rightarrow>
          (case parseSelector dst of
             Inr _ \<Rightarrow> []
           | Inl e \<Rightarrow> [issue (''tests.'' @ test_name test @ ''.dst'') (selectorErrorMessage e)]))"

definition testErrors :: "policyTest \<Rightarrow> validationIssue list" where
  "testErrors test =
     (case parseSelector (test_src test) of
        Inr _ \<Rightarrow> []
      | Inl e \<Rightarrow> [issue (''tests.'' @ test_name test @ ''.src'') (selectorErrorMessage e)]) @
     concat (map (testDstErrors test) (test_accept test @ test_deny test))"

definition refs_of :: "policyDocument \<Rightarrow> selectorRefs" where
  "refs_of doc = \<lparr>ref_tags = map tag_name (doc_tags doc), ref_hostAliases = map alias_name (doc_host_aliases doc),
     ref_ipSets = map set_name (doc_ip_sets doc)\<rparr>"

definition validateDocument :: "policyDocument \<Rightarrow> validationResult" where
  "validateDocument doc =
     (let postures = map posture_name (doc_postures doc);
          errors =
            checkUnique (map tag_name (doc_tags doc)) ''tags'' @
            checkUnique (map aclKey (doc_acls doc)) ''acls'' @
            concat (map (aclErrors (refs_of doc) postures) (doc_acls doc)) @
            concat (map testErrors (doc_tests doc));
          warnings = concat (map aclWarnings (doc_acls doc)) in
      \<lparr>res_valid = (length errors = 0), res_errors = errors, res_warnings = warnings\<rparr>)"

section \<open>What a valid document is\<close>

text \<open>A selector parses and every entity it names is declared.\<close>

definition selector_declared :: "selectorRefs \<Rightarrow> string \<Rightarrow> bool" where
  "selector_declared refs sel = (case parseSelector sel of
       Inl _ \<Rightarrow> False
     | Inr (SelTag v) \<Rightarrow> v \<in> set (ref_tags refs)
     | Inr (SelHostAlias v) \<Rightarrow> v \<in> set (ref_hostAliases refs)
     | Inr (SelIpSet v) \<Rightarrow> v \<in> set (ref_ipSets refs)
     | Inr _ \<Rightarrow> True)"

definition acl_wf :: "selectorRefs \<Rightarrow> string list \<Rightarrow> aclRule \<Rightarrow> bool" where
  "acl_wf refs postures acl =
     (acl_action acl \<in> {''allow'', ''deny''} \<and>
      (\<forall>sel \<in> set (acl_src acl) \<union> set (acl_dst acl). selector_declared refs sel) \<and>
      set (acl_posture acl) \<subseteq> set postures \<and> (\<forall>port \<in> set (acl_ports acl). isValidPortSpec port))"

definition test_wf :: "policyTest \<Rightarrow> bool" where
  "test_wf test =
     (is_ok (parseSelector (test_src test)) \<and>
      (\<forall>dst \<in> set (test_accept test) \<union> set (test_deny test).
         is_ok (parseSelector (strip_last_colon dst)) \<or> is_ok (parseSelector dst)))"

definition document_wf :: "policyDocument \<Rightarrow> bool" where
  "document_wf doc =
     (distinct (map tag_name (doc_tags doc)) \<and> distinct (map aclKey (doc_acls doc)) \<and>
      (\<forall>acl \<in> set (doc_acls doc). acl_wf (refs_of doc) (map posture_name (doc_postures doc)) acl) \<and>
      (\<forall>test \<in> set (doc_tests doc). test_wf test))"

lemma checkUnique_from_Nil:
  "checkUnique_from seen names entity = [] \<longleftrightarrow> distinct names \<and> set names \<inter> set seen = {}"
  by (induction seen names entity rule: checkUnique_from.induct) auto

lemma checkUnique_Nil: "checkUnique names entity = [] \<longleftrightarrow> distinct names"
  by (simp add: checkUnique_def checkUnique_from_Nil)

lemma checkSelectorRefs_Nil: "checkSelectorRefs sel path refs = [] \<longleftrightarrow> selector_declared refs sel"
  by (auto simp: checkSelectorRefs_def selector_declared_def split: sum.splits parsedSelector.splits)

lemma selector_declared_parses: "selector_declared refs sel \<Longrightarrow> is_ok (parseSelector sel)"
  by (cases "parseSelector sel") (simp_all add: selector_declared_def)

lemma aclErrors_Nil: "aclErrors refs postures acl = [] \<longleftrightarrow> acl_wf refs postures acl"
proof -
  have sel: "concat (map (\<lambda>sel. checkSelectorRefs sel path refs) xs) = [] \<longleftrightarrow>
      (\<forall>sel \<in> set xs. selector_declared refs sel)" for path xs
    by (simp add: checkSelectorRefs_Nil)
  have all: "concat (map (\<lambda>x. if P x then [f x] else []) xs) = [] \<longleftrightarrow> (\<forall>x \<in> set xs. \<not> P x)"
    for P :: "string \<Rightarrow> bool" and f :: "string \<Rightarrow> validationIssue" and xs
    by auto
  show ?thesis
    unfolding aclErrors_def acl_wf_def Let_def append_is_Nil_conv sel all by auto
qed

lemma hd_split_on: "c \<in> set s \<Longrightarrow> hd (split_on c s) \<noteq> s"
  by (metis hd_in_set split_on_not_Nil split_on_parts)

lemma strip_last_colon_free: "CHR '':'' \<notin> set s \<Longrightarrow> strip_last_colon s = s"
  by (simp add: strip_last_colon_def)

lemma testDstErrors_Nil:
  "testDstErrors test dst = [] \<longleftrightarrow> is_ok (parseSelector (strip_last_colon dst)) \<or> is_ok (parseSelector dst)"
  using hd_split_on [of "CHR '':''" dst]
  by (cases "CHR '':'' \<in> set dst")
     (auto simp: testDstErrors_def Let_def strip_last_colon_free is_ok_def split: sum.splits)

lemma testErrors_Nil: "testErrors test = [] \<longleftrightarrow> test_wf test"
  by (auto simp: testErrors_def test_wf_def testDstErrors_Nil is_ok_def split: sum.splits)

lemma validateDocument_valid: "res_valid (validateDocument doc) \<longleftrightarrow> document_wf doc"
  by (simp add: validateDocument_def Let_def document_wf_def checkUnique_Nil aclErrors_Nil testErrors_Nil)

lemma document_wf_compiles: "document_wf doc \<Longrightarrow> is_ok (compileRules doc)"
  by (auto simp: document_wf_def acl_wf_def compileRules_ok
      intro!: compileAcl_parses selector_declared_parses)

lemma simulateDocument_ok:
  "is_ok (simulateDocument doc sc) \<longleftrightarrow>
   is_ok (compileRules doc) \<and> is_ok (parseSelector (sc_src sc)) \<and> is_ok (parseSelector (sc_dst sc))"
  by (auto simp: simulateDocument_def is_ok_iff res_bind_Inr_iff)

section \<open>Port specifications\<close>

lemma takeWhile_no_digit_first:
  "no_digit_first r \<Longrightarrow> takeWhile is_digit (s @ r) = takeWhile is_digit s"
  by (induction s) (auto simp: no_digit_first_def split: list.splits)

lemma parse_digits_append: "no_digit_first r \<Longrightarrow> parse_digits (s @ r) = parse_digits s"
  by (simp add: parse_digits_def takeWhile_no_digit_first)

lemma dropWhile_append_not_Nil: "dropWhile P s \<noteq> [] \<Longrightarrow> dropWhile P (s @ r) = dropWhile P s @ r"
  by (induction s) auto

lemma parseInt_append: "no_digit_first r \<Longrightarrow> parseInt s = Some v \<Longrightarrow> parseInt (s @ r) = Some v"
  using parse_digits_append [of r "c # t" for c t] parse_digits_append [of r]
  by (cases "dropWhile js_ws s")
     (auto simp: parseInt_def dropWhile_append_not_Nil split: if_splits)

lemma split_on_pair: "split_on c s = [a, b] \<Longrightarrow> s = a @ c # b"
  using join_split_on [of c s] by simp

lemma dash_no_digit: "no_digit_first (CHR ''-'' # b)"
  by (simp add: no_digit_first_def is_digit_def code_unit_def)

lemma isValidPortSpec_single:
  assumes "isValidPortSpec spec"
  obtains p where "parseInt spec = Some p" "0 < p"
proof (cases "\<exists>p. parseInt spec = Some p \<and> 0 < p \<and> p \<le> 65535")
  case True
  then show thesis using that by blast
next
  case False
  then obtain a b where ab: "split_on (CHR ''-'') spec = [a, b]"
    using assms by (auto simp: isValidPortSpec_def split: list.splits option.splits if_splits)
  then obtain p where "parseInt a = Some p" "0 < p"
    using assms False by (auto simp: isValidPortSpec_def split: option.splits if_splits)
  then show thesis using that parseInt_append [OF dash_no_digit] split_on_pair [OF ab] by metis
qed

lemma isValidPortSpec_compiles:
  "isValidPortSpec spec \<Longrightarrow> \<exists>p > 0. parsePort spec = [\<lparr>pr_start = p, pr_end = p\<rparr>]"
proof (erule isValidPortSpec_single)
  fix p assume "parseInt spec = Some p" "0 < p"
  then have "parsePort spec = [\<lparr>pr_start = p, pr_end = p\<rparr>]" by (simp add: parsePort_def)
  then show ?thesis using \<open>0 < p\<close> by blast
qed

section \<open>Properties\<close>

text \<open>A document with a declared tag, two ACLs and a test.\<close>

definition ex_valid_doc :: policyDocument where
  "ex_valid_doc = (ex_doc [ex_allow, ex_deny])\<lparr>doc_tags := [\<lparr>tag_name = ''db'', tag_owners = []\<rparr>],
     doc_tests := [\<lparr>test_name = ''t'', test_src = ''tag:web'', test_accept = [''tag:db:80''],
                    test_deny = [''tag:db:5432'']\<rparr>]\<rparr>"

text \<open>
  C6. The validator accepts exactly the well-formed documents: tag names and ACL keys are distinct,
  every ACL has one of the two actions, every selector parses and names declared tags, host aliases
  and IP sets, every posture is declared, every port specification passes the port check, and the
  selectors of every test parse. The errors it reports are then exactly the absence of one of these.
\<close>

theorem validate_accepts_exactly:
  "res_valid (validateDocument doc) \<longleftrightarrow> document_wf doc"
  by (rule validateDocument_valid)

text \<open>
  C7. A document that validates never makes a simulation fail by itself: compiling its rules
  succeeds, and a scenario is simulated if and only if the scenario's own two selectors parse.
\<close>

theorem validated_document_simulates:
  assumes "res_valid (validateDocument doc)"
  shows "is_ok (compileRules doc) \<and> (is_ok (simulateDocument doc sc) \<longleftrightarrow>
      is_ok (parseSelector (sc_src sc)) \<and> is_ok (parseSelector (sc_dst sc)))"
  using assms document_wf_compiles by (auto simp: validateDocument_valid simulateDocument_ok)

theorem validated_document_simulates_witness:
  "res_valid (validateDocument ex_valid_doc) \<and> is_ok (simulateDocument ex_valid_doc ex_scenario)"
proof -
  have v: "res_valid (validateDocument ex_valid_doc)" by code_simp
  have "is_ok (parseSelector (sc_src ex_scenario))" "is_ok (parseSelector (sc_dst ex_scenario))"
    by code_simp+
  then show ?thesis using v validated_document_simulates [OF v, of ex_scenario] by blast
qed



end
