(* ===== verification/Policy_Merge.thy ===== *)
theory Policy_Merge
  imports Policy_Json Policy_Validate
begin

text \<open>
  Merging and comparing documents: packages/policy-engine/src/merge.ts and
  packages/policy-engine/src/diff.ts. \<open>mergeVec\<close> and \<open>diffEntities\<close> take the key and the JSON
  encoding of a kind of entity as the source does; the facts about \<open>diffEntities\<close> are proved
  once in the locale \<open>entity\<close> and used at its ten interpretations.

  The main lemmas: a merge succeeds exactly when no key is used twice, and is then the
  concatenation of the documents (\<open>merge_from_ok\<close>); a diff is empty exactly when the documents
  have the same entities, and each of its changes is a real one.
\<close>

section \<open>merge.ts\<close>

datatype mergeError = MergeConflictError string string

fun mergeVec :: "'a list \<Rightarrow> 'a list \<Rightarrow> string \<Rightarrow> ('a \<Rightarrow> string) \<Rightarrow> mergeError + 'a list" where
  "mergeVec dest [] ent nameFn = Inr dest"
| "mergeVec dest (item # src) ent nameFn =
     (let name = nameFn item in
      if list_ex (\<lambda>existing. nameFn existing = name) dest then Inl (MergeConflictError ent name)
      else mergeVec (dest @ [item]) src ent nameFn)"

text \<open>The body of the loop over the documents.\<close>

definition mergeDocument :: "policyDocument \<Rightarrow> policyDocument \<Rightarrow> mergeError + policyDocument" where
  "mergeDocument out doc =
     res_bind (mergeVec (doc_tags out) (doc_tags doc) ''tag'' tag_name) (\<lambda>tags.
     res_bind (mergeVec (doc_host_aliases out) (doc_host_aliases doc) ''host_alias'' alias_name) (\<lambda>aliases.
     res_bind (mergeVec (doc_ip_sets out) (doc_ip_sets doc) ''ip_set'' set_name) (\<lambda>sets.
     res_bind (mergeVec (doc_acls out) (doc_acls doc) ''acl'' aclKey) (\<lambda>acls.
     res_bind (mergeVec (doc_grants out) (doc_grants doc) ''grant'' grant_name) (\<lambda>grants.
     res_bind (mergeVec (doc_ssh_rules out) (doc_ssh_rules doc) ''ssh_rule'' ssh_name) (\<lambda>ssh.
     res_bind (mergeVec (doc_postures out) (doc_postures doc) ''posture'' posture_name) (\<lambda>postures.
     res_bind (mergeVec (doc_auto_approvers out) (doc_auto_approvers doc) ''auto_approver'' approver_name) (\<lambda>approvers.
     res_bind (mergeVec (doc_node_attributes out) (doc_node_attributes doc) ''node_attribute'' attr_name) (\<lambda>attrs.
     res_bind (mergeVec (doc_tests out) (doc_tests doc) ''test'' test_name) (\<lambda>tests.
       Inr \<lparr>doc_tags = tags, doc_host_aliases = aliases, doc_ip_sets = sets, doc_acls = acls,
            doc_grants = grants, doc_ssh_rules = ssh, doc_postures = postures,
            doc_auto_approvers = approvers, doc_node_attributes = attrs, doc_tests = tests,
            doc_default_action = doc_default_action doc, doc_icmp_policy = doc_icmp_policy doc\<rparr>))))))))))"

fun merge_from :: "policyDocument \<Rightarrow> policyDocument list \<Rightarrow> mergeError + policyDocument" where
  "merge_from out [] = Inr out"
| "merge_from out (doc # docs) = res_bind (mergeDocument out doc) (\<lambda>out'. merge_from out' docs)"

definition mergeDocuments :: "policyDocument list \<Rightarrow> mergeError + policyDocument" where
  "mergeDocuments docs = merge_from emptyDocument docs"

section \<open>diff.ts\<close>

definition added :: "string \<Rightarrow> string \<Rightarrow> diffChange" where
  "added ent name = \<lparr>chg_kind = DiffAdd, chg_entity = ent, chg_name = name, chg_summary = None\<rparr>"

definition changed :: "string \<Rightarrow> string \<Rightarrow> diffChange" where
  "changed ent name =
     \<lparr>chg_kind = DiffChange, chg_entity = ent, chg_name = name, chg_summary = Some ''fields changed''\<rparr>"

definition removed :: "string \<Rightarrow> string \<Rightarrow> diffChange" where
  "removed ent name = \<lparr>chg_kind = DiffRemove, chg_entity = ent, chg_name = name, chg_summary = None\<rparr>"

definition diffEntities ::
    "string \<Rightarrow> 'a list \<Rightarrow> 'a list \<Rightarrow> ('a \<Rightarrow> string) \<Rightarrow> ('a \<Rightarrow> json) \<Rightarrow> diffChange list" where
  "diffEntities ent left right nameFn enc =
     (let leftMap = map_by nameFn left; rightMap = map_by nameFn right in
      concat (map (\<lambda>(name, item).
          case map_of leftMap name of
            None \<Rightarrow> [added ent name]
          | Some old \<Rightarrow>
              if stringify (enc old) \<noteq> stringify (enc item) then [changed ent name] else []) rightMap) @
      concat (map (\<lambda>(name, item).
          case map_of rightMap name of
            None \<Rightarrow> [removed ent name]
          | Some _ \<Rightarrow> []) leftMap))"

definition diffDocuments :: "policyDocument \<Rightarrow> policyDocument \<Rightarrow> diffChange list" where
  "diffDocuments a b =
     diffEntities ''tag'' (doc_tags a) (doc_tags b) tag_name tag_json @
     diffEntities ''host_alias'' (doc_host_aliases a) (doc_host_aliases b) alias_name alias_json @
     diffEntities ''ip_set'' (doc_ip_sets a) (doc_ip_sets b) set_name ipSet_json @
     diffEntities ''acl'' (doc_acls a) (doc_acls b) aclKey acl_json @
     diffEntities ''grant'' (doc_grants a) (doc_grants b) grant_name grant_json @
     diffEntities ''ssh_rule'' (doc_ssh_rules a) (doc_ssh_rules b) ssh_name ssh_json @
     diffEntities ''posture'' (doc_postures a) (doc_postures b) posture_name posture_json @
     diffEntities ''auto_approver'' (doc_auto_approvers a) (doc_auto_approvers b) approver_name approver_json @
     diffEntities ''node_attribute'' (doc_node_attributes a) (doc_node_attributes b) attr_name attr_json @
     diffEntities ''test'' (doc_tests a) (doc_tests b) test_name test_json"

section \<open>What a merge is\<close>

text \<open>No key is used twice in any collection of a document, and the concatenation of two documents.\<close>

definition keys_unique :: "policyDocument \<Rightarrow> bool" where
  "keys_unique d =
     (distinct (map tag_name (doc_tags d)) \<and> distinct (map alias_name (doc_host_aliases d)) \<and>
      distinct (map set_name (doc_ip_sets d)) \<and> distinct (map aclKey (doc_acls d)) \<and>
      distinct (map grant_name (doc_grants d)) \<and> distinct (map ssh_name (doc_ssh_rules d)) \<and>
      distinct (map posture_name (doc_postures d)) \<and> distinct (map approver_name (doc_auto_approvers d)) \<and>
      distinct (map attr_name (doc_node_attributes d)) \<and> distinct (map test_name (doc_tests d)))"

definition doc_append :: "policyDocument \<Rightarrow> policyDocument \<Rightarrow> policyDocument" where
  "doc_append out doc = \<lparr>doc_tags = doc_tags out @ doc_tags doc,
     doc_host_aliases = doc_host_aliases out @ doc_host_aliases doc,
     doc_ip_sets = doc_ip_sets out @ doc_ip_sets doc, doc_acls = doc_acls out @ doc_acls doc,
     doc_grants = doc_grants out @ doc_grants doc, doc_ssh_rules = doc_ssh_rules out @ doc_ssh_rules doc,
     doc_postures = doc_postures out @ doc_postures doc,
     doc_auto_approvers = doc_auto_approvers out @ doc_auto_approvers doc,
     doc_node_attributes = doc_node_attributes out @ doc_node_attributes doc,
     doc_tests = doc_tests out @ doc_tests doc,
     doc_default_action = doc_default_action doc, doc_icmp_policy = doc_icmp_policy doc\<rparr>"

lemma mergeVec_ok:
  "distinct (map n dest) \<Longrightarrow>
   mergeVec dest src e n = Inr out \<longleftrightarrow> distinct (map n (dest @ src)) \<and> out = dest @ src"
proof (induction dest src e n rule: mergeVec.induct)
  case (2 dest item src e n)
  show ?case
  proof (cases "n item \<in> n ` set dest")
    case True
    then show ?thesis by (auto simp: list_ex_iff Let_def image_iff)
  next
    case False
    then have "\<not> list_ex (\<lambda>x. n x = n item) dest" by (auto simp: list_ex_iff image_iff)
    then show ?thesis using 2 False by (simp add: Let_def)
  qed
qed auto

lemma mergeVec_conflict:
  "mergeVec dest src e n = Inl err \<Longrightarrow> \<exists>x \<in> set src. err = MergeConflictError e (n x)"
  by (induction dest src e n rule: mergeVec.induct) (auto simp: Let_def split: if_splits)

lemma mergeDocument_ok:
  assumes "keys_unique out"
  shows "mergeDocument out doc = Inr out' \<longleftrightarrow> keys_unique (doc_append out doc) \<and> out' = doc_append out doc"
  using assms unfolding mergeDocument_def keys_unique_def doc_append_def
  by (simp add: res_bind_Inr_iff mergeVec_ok eq_commute [of out'] del: distinct_append map_append)

lemma keys_unique_append: "keys_unique (doc_append out doc) \<Longrightarrow> keys_unique out"
  by (simp add: keys_unique_def doc_append_def)

lemma keys_unique_foldl: "keys_unique (foldl doc_append out docs) \<Longrightarrow> keys_unique out"
  by (induction docs arbitrary: out) (auto dest: keys_unique_append)

lemma merge_from_ok:
  "keys_unique out \<Longrightarrow> merge_from out docs = Inr out' \<longleftrightarrow>
     keys_unique (foldl doc_append out docs) \<and> out' = foldl doc_append out docs"
proof (induction docs arbitrary: out)
  case (Cons doc docs)
  then show ?case
    using keys_unique_foldl [of "doc_append out doc" docs]
    by (auto simp: res_bind_Inr_iff mergeDocument_ok)
qed auto

lemma keys_unique_empty [simp]: "keys_unique emptyDocument"
  by (simp add: keys_unique_def emptyDocument_def)

lemma mergeDocuments_ok:
  "mergeDocuments docs = Inr out \<longleftrightarrow>
   keys_unique (foldl doc_append emptyDocument docs) \<and> out = foldl doc_append emptyDocument docs"
  by (simp add: mergeDocuments_def merge_from_ok)

section \<open>Merging keeps validity\<close>

lemma selector_declared_mono:
  "selector_declared r sel \<Longrightarrow> set (ref_tags r) \<subseteq> set (ref_tags r') \<Longrightarrow>
   set (ref_hostAliases r) \<subseteq> set (ref_hostAliases r') \<Longrightarrow> set (ref_ipSets r) \<subseteq> set (ref_ipSets r') \<Longrightarrow>
   selector_declared r' sel"
  by (auto simp: selector_declared_def split: sum.splits parsedSelector.splits)

lemma acl_wf_mono:
  "acl_wf r ps a \<Longrightarrow> set (ref_tags r) \<subseteq> set (ref_tags r') \<Longrightarrow>
   set (ref_hostAliases r) \<subseteq> set (ref_hostAliases r') \<Longrightarrow> set (ref_ipSets r) \<subseteq> set (ref_ipSets r') \<Longrightarrow>
   set ps \<subseteq> set ps' \<Longrightarrow> acl_wf r' ps' a"
  unfolding acl_wf_def using selector_declared_mono by blast

lemma document_wf_append:
  assumes "document_wf a" "document_wf b" "keys_unique (doc_append a b)"
  shows "document_wf (doc_append a b)"
proof -
  let ?c = "doc_append a b"
  have "acl_wf (refs_of ?c) (map posture_name (doc_postures ?c)) x" if "x \<in> set (doc_acls d)" "d \<in> {a, b}" for x d
    by (rule acl_wf_mono [of "refs_of d" "map posture_name (doc_postures d)"])
       (use assms that in \<open>auto simp: document_wf_def refs_of_def doc_append_def\<close>)
  moreover have "set (doc_acls ?c) = set (doc_acls a) \<union> set (doc_acls b)"
    "set (doc_tests ?c) = set (doc_tests a) \<union> set (doc_tests b)" by (simp_all add: doc_append_def)
  ultimately show ?thesis
    using assms unfolding document_wf_def keys_unique_def by blast
qed

lemma document_wf_empty [simp]: "document_wf emptyDocument"
  by (simp add: document_wf_def emptyDocument_def)

lemma document_wf_foldl:
  "document_wf out \<Longrightarrow> \<forall>d \<in> set docs. document_wf d \<Longrightarrow> keys_unique (foldl doc_append out docs) \<Longrightarrow>
   document_wf (foldl doc_append out docs)"
  by (induction docs arbitrary: out) (auto intro: document_wf_append dest: keys_unique_foldl)

section \<open>What a diff reports\<close>

lemma map_by_unique: "distinct (map f xs) \<Longrightarrow> map_by f xs = map (\<lambda>x. (f x, x)) xs"
  unfolding map_by_def using foldl_update_append [of "[]" f xs] by simp

lemma map_of_map_by_unique:
  "distinct (map f xs) \<Longrightarrow> map_of (map_by f xs) k = Some x \<longleftrightarrow> x \<in> set xs \<and> f x = k"
  by (subst map_of_eq_Some_iff) (auto simp: map_by_unique comp_def)

lemma map_of_map_by_None: "map_of (map_by f xs) k = None \<longleftrightarrow> k \<notin> f ` set xs"
  by (simp add: map_of_eq_None_iff)

lemma foldl_update_elem:
  "(k, x) \<in> set (foldl (\<lambda>m x. AList.update (f x) x m) m xs) \<Longrightarrow> (k, x) \<in> set m \<or> x \<in> set xs \<and> k = f x"
proof (induction xs arbitrary: m)
  case (Cons y ys)
  then have "(k, x) \<in> set (AList.update (f y) y m) \<or> x \<in> set ys \<and> k = f x" by simp
  moreover have "(k, x) \<in> set (AList.update (f y) y m) \<Longrightarrow> (k, x) \<in> set m \<or> x = y \<and> k = f y"
    by (induction m) (auto split: if_splits)
  ultimately show ?case by auto
qed simp

lemma map_of_map_by_elem: "map_of (map_by f xs) k = Some x \<Longrightarrow> x \<in> set xs \<and> f x = k"
  using foldl_update_elem [of k x f "[]" xs] by (auto simp: map_by_def dest: map_of_SomeD)

context entity
begin

abbreviation view :: "'a list \<Rightarrow> string \<Rightarrow> 'a option" where
  "view xs \<equiv> map_of (map_by key xs)"

lemma diff_mem:
  assumes ok: "\<forall>x \<in> set left \<union> set right. ok x"
  shows "c \<in> set (diffEntities ent left right key enc) \<longleftrightarrow>
    (\<exists>n. c = added ent n \<and> view left n = None \<and> view right n \<noteq> None) \<or>
    (\<exists>n x y. c = changed ent n \<and> view left n = Some x \<and> view right n = Some y \<and> x \<noteq> y) \<or>
    (\<exists>n. c = removed ent n \<and> view left n \<noteq> None \<and> view right n = None)"
    (is "_ \<longleftrightarrow> ?A \<or> ?C \<or> ?R")
proof -
  have entry: "(\<exists>p \<in> set (map_by key xs). P p) \<longleftrightarrow> (\<exists>n x. view xs n = Some x \<and> P (n, x))" for xs P
    by (simp add: Bex_def)
  have texts: "stringify (enc x) \<noteq> stringify (enc y) \<longleftrightarrow> x \<noteq> y"
    if "view left n = Some x" "view right n = Some y" for n x y
    using that ok map_of_map_by_elem text_determines by (metis UnCI)
  have "c \<in> set (diffEntities ent left right key enc) \<longleftrightarrow>
      (\<exists>n y. view right n = Some y \<and> c \<in> set (case view left n of None \<Rightarrow> [added ent n]
         | Some x \<Rightarrow> if stringify (enc x) \<noteq> stringify (enc y) then [changed ent n] else [])) \<or>
      (\<exists>n x. view left n = Some x \<and> c \<in> set (case view right n of None \<Rightarrow> [removed ent n] | Some _ \<Rightarrow> []))"
    unfolding diffEntities_def Let_def set_append Un_iff set_concat set_map UN_iff case_prod_unfold
    by (simp only: entry bex_simps fst_conv snd_conv)
  also have "\<dots> \<longleftrightarrow> (?A \<or> ?C) \<or> ?R"
  proof (rule arg_cong2 [where f = "(\<or>)"])
    have step: "c \<in> set (case view left n of None \<Rightarrow> [added ent n]
         | Some x \<Rightarrow> if stringify (enc x) \<noteq> stringify (enc y) then [changed ent n] else []) \<longleftrightarrow>
        c = added ent n \<and> view left n = None \<or> (\<exists>x. c = changed ent n \<and> view left n = Some x \<and> x \<noteq> y)"
      if "view right n = Some y" for n y
      using texts [OF _ that] by (cases "view left n") (auto simp del: map_of_eq_Some_iff)
    show "(\<exists>n y. view right n = Some y \<and> c \<in> set (case view left n of None \<Rightarrow> [added ent n]
         | Some x \<Rightarrow> if stringify (enc x) \<noteq> stringify (enc y) then [changed ent n] else [])) = (?A \<or> ?C)"
      unfolding not_None_eq by (simp only: step cong: conj_cong) blast
    have step': "c \<in> set (case view right n of None \<Rightarrow> [removed ent n] | Some _ \<Rightarrow> []) \<longleftrightarrow>
        c = removed ent n \<and> view right n = None" for n
      by (cases "view right n") (auto simp del: map_of_eq_Some_iff)
    show "(\<exists>n x. view left n = Some x \<and> c \<in> set (case view right n of None \<Rightarrow> [removed ent n] | Some _ \<Rightarrow> []))
        = ?R"
      unfolding not_None_eq step' by blast
  qed
  finally show ?thesis by blast
qed

lemma diff_Nil_iff:
  assumes "\<forall>x \<in> set left \<union> set right. ok x"
  shows "diffEntities ent left right key enc = [] \<longleftrightarrow> view left = view right"
proof
  assume "diffEntities ent left right key enc = []"
  then have no: "c \<notin> set (diffEntities ent left right key enc)" for c by simp
  have "view left n = view right n" for n
    using no [of "added ent n"] no [of "changed ent n"] no [of "removed ent n"] unfolding diff_mem [OF assms]
    by (cases "view left n"; cases "view right n") auto
  then show "view left = view right" by (rule ext)
next
  assume "view left = view right"
  then have no: "c \<notin> set (diffEntities ent left right key enc)" for c
    unfolding diff_mem [OF assms] by (auto simp del: map_of_eq_Some_iff)
  show "diffEntities ent left right key enc = []"
    using no [of "hd (diffEntities ent left right key enc)"] hd_in_set by blast
qed

lemma diff_Nil_set:
  assumes "\<forall>x \<in> set left \<union> set right. ok x" "distinct (map key left)" "distinct (map key right)"
  shows "diffEntities ent left right key enc = [] \<longleftrightarrow> set left = set right"
proof
  assume "diffEntities ent left right key enc = []"
  then have "view left = view right" using diff_Nil_iff assms(1) by blast
  then show "set left = set right"
    using map_of_map_by_unique [OF assms(2)] map_of_map_by_unique [OF assms(3)] by (metis subsetI subset_antisym)
next
  assume "set left = set right"
  then have "view left n = view right n" for n
    using map_of_map_by_unique [OF assms(2)] map_of_map_by_unique [OF assms(3)] by (metis option.exhaust)
  then show "diffEntities ent left right key enc = []" using diff_Nil_iff [OF assms(1)] by auto
qed

end

section \<open>Documents\<close>

definition same_entities :: "policyDocument \<Rightarrow> policyDocument \<Rightarrow> bool" where
  "same_entities a b =
     (set (doc_tags a) = set (doc_tags b) \<and> set (doc_host_aliases a) = set (doc_host_aliases b) \<and>
      set (doc_ip_sets a) = set (doc_ip_sets b) \<and> set (doc_acls a) = set (doc_acls b) \<and>
      set (doc_grants a) = set (doc_grants b) \<and> set (doc_ssh_rules a) = set (doc_ssh_rules b) \<and>
      set (doc_postures a) = set (doc_postures b) \<and> set (doc_auto_approvers a) = set (doc_auto_approvers b) \<and>
      set (doc_node_attributes a) = set (doc_node_attributes b) \<and> set (doc_tests a) = set (doc_tests b))"

lemmas diff_Nil_sets = tag_entity.diff_Nil_set alias_entity.diff_Nil_set ipSet_entity.diff_Nil_set
  acl_entity.diff_Nil_set grant_entity.diff_Nil_set ssh_entity.diff_Nil_set posture_entity.diff_Nil_set
  approver_entity.diff_Nil_set attr_entity.diff_Nil_set test_entity.diff_Nil_set

lemma diffDocuments_Nil:
  assumes "labels_wf a" "labels_wf b" "keys_unique a" "keys_unique b"
  shows "diffDocuments a b = [] \<longleftrightarrow> same_entities a b"
  using assms unfolding diffDocuments_def append_is_Nil_conv same_entities_def keys_unique_def
  by (simp add: diff_Nil_sets labels_wf_def ball_Un)

lemma diffEntities_entity: "c \<in> set (diffEntities ent left right n e) \<Longrightarrow> chg_entity c = ent"
  by (auto simp: diffEntities_def Let_def added_def changed_def removed_def split: option.splits if_splits)

lemma diffDocuments_acl:
  "c \<in> set (diffDocuments a b) \<and> chg_entity c = ''acl'' \<longleftrightarrow>
   c \<in> set (diffEntities ''acl'' (doc_acls a) (doc_acls b) aclKey acl_json)"
  by (auto simp: diffDocuments_def dest: diffEntities_entity)

lemma diffEntities_same: "diffEntities ent xs xs n e = []"
  by (auto simp: diffEntities_def Let_def map_of_map_by_None split: option.splits)

section \<open>Properties\<close>

definition ex_tagged :: "string \<Rightarrow> policyDocument" where
  "ex_tagged n = emptyDocument\<lparr>doc_tags := [\<lparr>tag_name = n, tag_owners = []\<rparr>], doc_acls := [ex_deny\<lparr>
     acl_name := n @ ''-rule'', acl_dst := [''tag:'' @ n]\<rparr>]\<rparr>"

text \<open>
  C10. Merging succeeds exactly when no key is used twice across all documents, in none of the ten
  collections, and the result is then the concatenation of the documents, in order, with the default
  action and the ICMP policy of the last one.
\<close>

theorem merge_exact:
  "mergeDocuments docs = Inr out \<longleftrightarrow>
   keys_unique (foldl doc_append emptyDocument docs) \<and> out = foldl doc_append emptyDocument docs"
  by (rule mergeDocuments_ok)

text \<open>
  C11. Merging valid documents, when it succeeds, yields a valid document.
\<close>

theorem merge_preserves_valid:
  assumes "\<forall>d \<in> set docs. res_valid (validateDocument d)" "mergeDocuments docs = Inr out"
  shows "res_valid (validateDocument out)"
  using assms document_wf_foldl [of emptyDocument docs] by (simp add: mergeDocuments_ok validateDocument_valid)

theorem merge_preserves_valid_witness:
  "\<exists>out. mergeDocuments [ex_tagged ''db'', ex_tagged ''web''] = Inr out \<and> res_valid (validateDocument out)"
proof -
  have "is_ok (mergeDocuments [ex_tagged ''db'', ex_tagged ''web''])" by code_simp
  then obtain out where out: "mergeDocuments [ex_tagged ''db'', ex_tagged ''web''] = Inr out"
    by (auto simp: is_ok_iff)
  have v: "res_valid (validateDocument (ex_tagged ''db''))" "res_valid (validateDocument (ex_tagged ''web''))"
    by code_simp+
  show ?thesis using out merge_preserves_valid [OF _ out] v by simp
qed

text \<open>
  C12. The diff of two documents with unique keys is empty exactly when all ten collections have the
  same entities, field for field.
\<close>

theorem diff_empty_iff:
  assumes "labels_wf a" "labels_wf b" "keys_unique a" "keys_unique b"
  shows "diffDocuments a b = [] \<longleftrightarrow> same_entities a b"
  using assms by (rule diffDocuments_Nil)

theorem diff_empty_iff_witness:
  "keys_unique (ex_tagged ''db'') \<and> keys_unique (ex_tagged ''web'') \<and> diffDocuments (ex_tagged ''db'') (ex_tagged ''web'') \<noteq> []"
proof -
  have u: "keys_unique (ex_tagged ''db'')" "keys_unique (ex_tagged ''web'')" by code_simp+
  have l: "labels_wf (ex_tagged ''db'')" "labels_wf (ex_tagged ''web'')" by code_simp+
  have "\<not> same_entities (ex_tagged ''db'') (ex_tagged ''web'')" by code_simp
  then show ?thesis using u diff_empty_iff [OF l u] by simp
qed

text \<open>
  C13. The ACL changes that a diff of two documents with unique ACL keys reports are exactly the real
  ones: an addition for each key only the second document has, a removal for each key only the first
  has, and a change for each key that both have with different rules.
\<close>

theorem diff_acl_changes:
  assumes "labels_wf a" "labels_wf b" "distinct (map aclKey (doc_acls a))" "distinct (map aclKey (doc_acls b))"
  shows "c \<in> set (diffDocuments a b) \<and> chg_entity c = ''acl'' \<longleftrightarrow>
    (\<exists>n. c = added ''acl'' n \<and> n \<notin> aclKey ` set (doc_acls a) \<and> n \<in> aclKey ` set (doc_acls b)) \<or>
    (\<exists>x \<in> set (doc_acls a). \<exists>y \<in> set (doc_acls b). c = changed ''acl'' (aclKey x) \<and> aclKey y = aclKey x \<and> x \<noteq> y) \<or>
    (\<exists>n. c = removed ''acl'' n \<and> n \<in> aclKey ` set (doc_acls a) \<and> n \<notin> aclKey ` set (doc_acls b))"
proof -
  have ok: "\<forall>x \<in> set (doc_acls a) \<union> set (doc_acls b). labels_ok (acl_labels x)"
    using assms(1,2) by (auto simp: labels_wf_def)
  show ?thesis
    unfolding diffDocuments_acl acl_entity.diff_mem [OF ok] map_of_map_by_None
      map_of_map_by_unique [OF assms(3)] map_of_map_by_unique [OF assms(4)] by blast
qed

theorem diff_acl_changes_witness:
  "added ''acl'' ''web-rule'' \<in> set (diffDocuments (ex_tagged ''db'') (ex_tagged ''web''))"
proof -
  have h: "labels_wf (ex_tagged ''db'')" "labels_wf (ex_tagged ''web'')"
    "distinct (map aclKey (doc_acls (ex_tagged ''db'')))" "distinct (map aclKey (doc_acls (ex_tagged ''web'')))"
    by code_simp+
  have "''web-rule'' \<notin> aclKey ` set (doc_acls (ex_tagged ''db''))"
    "''web-rule'' \<in> aclKey ` set (doc_acls (ex_tagged ''web''))" by code_simp+
  then show ?thesis using diff_acl_changes [OF h, of "added ''acl'' ''web-rule''"] by blast
qed

text \<open>
  The diff does not see the default action and the ICMP policy: changing both of a document
  yields an empty diff, whatever the document and the new values.
\<close>

theorem diff_ignores_defaults:
  "diffDocuments d (d\<lparr>doc_default_action := act, doc_icmp_policy := icmp\<rparr>) = []"
  by (simp add: diffDocuments_def diffEntities_same)

end
