(* ===== verification/Policy_Rows.thy ===== *)
theory Policy_Rows
  imports Policy_Json Policy_Validate
begin

text \<open>
  From database rows to a document and out again: packages/policy-engine/src/document-from-rows.ts,
  packages/policy-engine/src/export.ts, packages/policy-engine/src/parse.ts, and the policy tests of
  packages/policy-engine/src/test-runner.ts.

  The YAML library and the schema validation (zod) are third-party code: the YAML printer and parser
  and the schema's \<open>parse\<close> are parameters of \<open>exportDocument\<close> and \<open>parseDocument\<close>.

  The main lemmas say what the rules of a document built from rows compile to, and what the verdict
  of a policy test means.
\<close>

section \<open>document-from-rows.ts\<close>

definition formatPorts :: "portRange list \<Rightarrow> string list" where
  "formatPorts ports = map (\<lambda>p. if pr_start p = pr_end p then show_int (pr_start p)
     else show_int (pr_start p) @ ''-'' @ show_int (pr_end p)) ports"

record policyRow =
  row_slug :: "string option"
  row_name :: "string option"
  row_action :: string
  row_scope :: "scope option"
  row_srcSelector :: rowSelector
  row_dstSelector :: rowSelector
  row_ports :: "portRange list"
  row_protocol :: "string option"
  row_priority :: int
  row_orderIndex :: "int option"
  row_srcPosture :: "string list option"
  row_enabled :: "bool option"

record grantRow =
  grow_slug :: string
  grow_principals :: "string list option"
  grow_srcSelectors :: "rowSelector list option"
  grow_appCapabilities :: "json list option"

record sshRow =
  srow_id :: string
  srow_srcSelector :: rowSelector
  srow_dstSelector :: rowSelector
  srow_action :: string
  srow_users :: "string list"
  srow_priority :: int

record approverRow =
  arow_slug :: string
  arow_routes :: "(string \<times> string list) list"
  arow_exitNodes :: "string list"

record attributeRow =
  nrow_key :: string
  nrow_value :: string
  nrow_endpointId :: "string option"

record policyRows =
  rows_tags :: "tagDefinition list"
  rows_hostAliases :: "hostAlias list"
  rows_ipSets :: "(string \<times> string list) list"
  rows_policies :: "policyRow list"
  rows_grants :: "grantRow list"
  rows_sshPolicies :: "sshRow list"
  rows_postures :: "postureDefinition list"
  rows_autoApprovers :: "approverRow list"
  rows_nodeAttributes :: "attributeRow list"
  rows_tests :: "policyTest list option"
  rows_defaultAction :: "action option"
  rows_icmpPolicy :: "icmpPolicy option"

text \<open>\<open>a ?? b\<close>, and \<open>String(v)\<close> of a JSON value.\<close>

definition nullish :: "'a option \<Rightarrow> 'a \<Rightarrow> 'a" where
  "nullish a b = (case a of Some x \<Rightarrow> x | None \<Rightarrow> b)"

fun js_String :: "json \<Rightarrow> string" where
  "js_String JNull = ''null''"
| "js_String (JBool b) = (if b then ''true'' else ''false'')"
| "js_String (JInt i) = show_int i"
| "js_String (JFrac t) = t"
| "js_String (JStr s) = s"
| "js_String (JArr xs) = join '','' (map (\<lambda>x. case x of JNull \<Rightarrow> [] | _ \<Rightarrow> js_String x) xs)"
| "js_String (JObj kvs) = ''[object Object]''"

definition row_key :: "nat \<Rightarrow> policyRow \<Rightarrow> string" where
  "row_key i row = nullish (row_slug row) (nullish (row_name row) (''acl-'' @ show_nat (i + 1)))"

definition aclFromRow :: "nat \<Rightarrow> policyRow \<Rightarrow> aclRule" where
  "aclFromRow i row = \<lparr>acl_name = row_key i row, acl_slug = row_slug row, acl_action = row_action row,
     acl_src = [selectorToString (row_srcSelector row)], acl_dst = [selectorToString (row_dstSelector row)],
     acl_ports = formatPorts (row_ports row),
     acl_protocol = Some (if row_protocol row = Some ''any'' then None else row_protocol row),
     acl_priority = row_priority row, acl_orderIndex = nullish (row_orderIndex row) 0,
     acl_scope = nullish (row_scope row) ScopeNetwork, acl_posture = nullish (row_srcPosture row) [],
     acl_labels = [], acl_enabled = nullish (row_enabled row) True\<rparr>"

definition grantFromRow :: "grantRow \<Rightarrow> grant" where
  "grantFromRow row = \<lparr>grant_name = grow_slug row,
     grant_principals = nullish (grow_principals row) (map selectorToString (nullish (grow_srcSelectors row) [])),
     grant_capability = (case grow_appCapabilities row of Some (c # _) \<Rightarrow> js_String c | _ \<Rightarrow> []),
     grant_ports = [], grant_protocol = Some None\<rparr>"

definition documentFromRows :: "policyRows \<Rightarrow> policyDocument" where
  "documentFromRows rows = \<lparr>
     doc_tags = map (\<lambda>tag. \<lparr>tag_name = tag_name tag, tag_owners = tag_owners tag\<rparr>) (rows_tags rows),
     doc_host_aliases =
       map (\<lambda>h. \<lparr>alias_name = alias_name h, alias_target = alias_target h\<rparr>) (rows_hostAliases rows),
     doc_ip_sets = map (\<lambda>(name, entries). \<lparr>set_name = name, set_cidrs = entries\<rparr>) (rows_ipSets rows),
     doc_acls = map (\<lambda>(i, row). aclFromRow i row) (enumerate 0 (rows_policies rows)),
     doc_grants = map grantFromRow (rows_grants rows),
     doc_ssh_rules = map (\<lambda>r. \<lparr>ssh_name = srow_id r, ssh_src = [selectorToString (srow_srcSelector r)],
         ssh_dst = [selectorToString (srow_dstSelector r)], ssh_action = srow_action r,
         ssh_users = srow_users r, ssh_priority = srow_priority r, ssh_enabled = True\<rparr>) (rows_sshPolicies rows),
     doc_postures = map (\<lambda>p. \<lparr>posture_name = posture_name p, posture_assertions = posture_assertions p\<rparr>)
         (rows_postures rows),
     doc_auto_approvers = concat (map (\<lambda>a. map (\<lambda>(route, principals).
         \<lparr>approver_name = arow_slug a @ ''-'' @ route, approver_route = route,
          approver_principals = principals\<rparr>) (arow_routes a)) (rows_autoApprovers rows)),
     doc_node_attributes = map (\<lambda>a. \<lparr>attr_name = nrow_key a, attr_value = nrow_value a,
         attr_selectors = (case nrow_endpointId a of
             Some e \<Rightarrow> if e = [] then [] else [e] | None \<Rightarrow> [])\<rparr>) (rows_nodeAttributes rows),
     doc_tests = nullish (rows_tests rows) [],
     doc_default_action = nullish (rows_defaultAction rows) Allow,
     doc_icmp_policy = nullish (rows_icmpPolicy rows) IcmpAllow\<rparr>"

section \<open>export.ts and parse.ts\<close>

abbreviation dq :: string where
  "dq \<equiv> [CHR 0x22]"

abbreviation nl :: string where
  "nl \<equiv> [CHR 0x0A]"

definition renderStringList :: "string list \<Rightarrow> string" where
  "renderStringList items = ''['' @ join '', '' (map (\<lambda>s. dq @ s @ dq) items) @ '']''"

definition exportJson :: "policyDocument \<Rightarrow> string" where
  "exportJson doc = stringify_indent [] (doc_json doc)"

definition listLine :: "string \<Rightarrow> string list \<Rightarrow> string" where
  "listLine label items = (if 0 < length items then label @ renderStringList items @ nl else [])"

definition hclTag :: "tagDefinition \<Rightarrow> string" where
  "hclTag tag = ''tag '' @ dq @ tag_name tag @ dq @ '' {'' @ nl @
     listLine ''  owners = '' (tag_owners tag) @ ''}'' @ nl @ nl"

definition hclAlias :: "hostAlias \<Rightarrow> string" where
  "hclAlias h = ''host_alias '' @ dq @ alias_name h @ dq @ '' {'' @ nl @
     ''  target = '' @ dq @ alias_target h @ dq @ nl @ ''}'' @ nl @ nl"

definition hclIpSet :: "ipSet \<Rightarrow> string" where
  "hclIpSet s = ''ip_set '' @ dq @ set_name s @ dq @ '' {'' @ nl @
     listLine ''  cidrs = '' (set_cidrs s) @ ''}'' @ nl @ nl"

definition hclAcl :: "aclRule \<Rightarrow> string" where
  "hclAcl acl = ''acl '' @ dq @ acl_name acl @ dq @ '' {'' @ nl @
     ''  action   = '' @ dq @ acl_action acl @ dq @ nl @
     ''  priority = '' @ show_int (acl_priority acl) @ nl @
     listLine ''  src      = '' (acl_src acl) @
     listLine ''  dst      = '' (acl_dst acl) @
     listLine ''  ports    = '' (acl_ports acl) @
     (case acl_protocol acl of
        Some (Some p) \<Rightarrow> if p = [] then [] else ''  protocol = '' @ dq @ p @ dq @ nl
      | _ \<Rightarrow> []) @
     (if \<not> acl_enabled acl then ''  enabled  = false'' @ nl else []) @ ''}'' @ nl @ nl"

definition hclTest :: "policyTest \<Rightarrow> string" where
  "hclTest test = ''test '' @ dq @ test_name test @ dq @ '' {'' @ nl @
     ''  src = '' @ dq @ test_src test @ dq @ nl @
     listLine ''  accept = '' (test_accept test) @
     listLine ''  deny   = '' (test_deny test) @ ''}'' @ nl @ nl"

definition exportHcl :: "policyDocument \<Rightarrow> string" where
  "exportHcl doc = concat (map hclTag (doc_tags doc)) @ concat (map hclAlias (doc_host_aliases doc)) @
     concat (map hclIpSet (doc_ip_sets doc)) @ concat (map hclAcl (doc_acls doc)) @
     concat (map hclTest (doc_tests doc))"

datatype documentFormat = FormatJson | FormatYaml | FormatHcl

definition exportDocument :: "(json \<Rightarrow> string) \<Rightarrow> policyDocument \<Rightarrow> documentFormat \<Rightarrow> string" where
  "exportDocument stringifyYaml doc format = (case format of
       FormatJson \<Rightarrow> exportJson doc
     | FormatYaml \<Rightarrow> stringifyYaml (doc_json doc)
     | FormatHcl \<Rightarrow> exportHcl doc)"

datatype parseError = JsonSyntax | YamlSyntax | SchemaMismatch | HclUnsupported

definition schema_parse :: "(json \<Rightarrow> policyDocument option) \<Rightarrow> json \<Rightarrow> parseError + policyDocument" where
  "schema_parse schema v = (case schema v of Some d \<Rightarrow> Inr d | None \<Rightarrow> Inl SchemaMismatch)"

definition parseJsonDocument :: "(json \<Rightarrow> policyDocument option) \<Rightarrow> string \<Rightarrow> parseError + policyDocument" where
  "parseJsonDocument schema content = (case json_parse content of
       None \<Rightarrow> Inl JsonSyntax
     | Some parsed \<Rightarrow> schema_parse schema parsed)"

definition parseDocument :: "(json \<Rightarrow> policyDocument option) \<Rightarrow> (string \<Rightarrow> json option) \<Rightarrow>
    documentFormat \<Rightarrow> string \<Rightarrow> parseError + policyDocument" where
  "parseDocument schema parseYaml format content = (case format of
       FormatJson \<Rightarrow> parseJsonDocument schema content
     | FormatYaml \<Rightarrow> (case parseYaml content of None \<Rightarrow> Inl YamlSyntax | Some v \<Rightarrow> schema_parse schema v)
     | FormatHcl \<Rightarrow> Inl HclUnsupported)"

section \<open>test-runner.ts\<close>

record splitDestination =
  sd_selector :: string
  sd_port :: "int option"
  sd_protocol :: string

definition splitDst :: "string \<Rightarrow> splitDestination" where
  "splitDst dst =
     (let parts = split_on (CHR '':'') dst in
      if 2 \<le> length parts then
        let lst = last parts; portPart = hd (split_on (CHR ''/'') lst) in
        case parseInt portPart of
          Some port \<Rightarrow>
            if 0 < port then
              \<lparr>sd_selector = join '':'' (butlast parts), sd_port = Some port,
               sd_protocol = (case split_on (CHR ''/'') lst of _ # p # _ \<Rightarrow> p | _ \<Rightarrow> ''tcp'')\<rparr>
            else \<lparr>sd_selector = dst, sd_port = None, sd_protocol = ''tcp''\<rparr>
        | None \<Rightarrow> \<lparr>sd_selector = dst, sd_port = None, sd_protocol = ''tcp''\<rparr>
      else \<lparr>sd_selector = dst, sd_port = None, sd_protocol = ''tcp''\<rparr>)"

definition action_name :: "action \<Rightarrow> string" where
  "action_name a = (case a of Allow \<Rightarrow> ''allow'' | Deny \<Rightarrow> ''deny'')"

definition testScenario :: "policyTest \<Rightarrow> string \<Rightarrow> scenario" where
  "testScenario test dst = (let sd = splitDst dst in
     \<lparr>sc_src = test_src test, sc_dst = sd_selector sd, sc_port = sd_port sd,
      sc_protocol = Some (sd_protocol sd), sc_srcPostureOk = None\<rparr>)"

text \<open>The messages that one destination adds, in the loop over \<open>accept\<close> and in the one over \<open>deny\<close>.\<close>

definition checkDst :: "policyDocument \<Rightarrow> policyTest \<Rightarrow> action \<Rightarrow> string \<Rightarrow> selectorError + string list" where
  "checkDst doc test expected dst =
     res_bind (simulateDocument doc (testScenario test dst)) (\<lambda>result.
       Inr (if sim_verdict result \<noteq> expected then
              [''expected '' @ action_name expected @ '' for dst '' @ quoted dst @ '', got '' @
               action_name (sim_verdict result) @ '' (rules: '' @ join '', '' (sim_matchedRules result) @ '')'']
            else []))"

definition runTest :: "policyDocument \<Rightarrow> policyTest \<Rightarrow> selectorError + testCaseResult" where
  "runTest doc test =
     res_bind (flat_traverse (checkDst doc test Allow) (test_accept test)) (\<lambda>accepted.
     res_bind (flat_traverse (checkDst doc test Deny) (test_deny test)) (\<lambda>denied.
       let messages = accepted @ denied; ok = (length messages = 0) in
       Inr \<lparr>tcr_name = test_name test, tcr_passed = ok,
            tcr_message = (if ok then None else Some (join ''; '' messages))\<rparr>))"

fun runTests_from :: "policyDocument \<Rightarrow> policyTest list \<Rightarrow> testResults \<Rightarrow> selectorError + testResults" where
  "runTests_from doc [] acc = Inr acc"
| "runTests_from doc (test # tests) acc =
     res_bind (runTest doc test) (\<lambda>res. runTests_from doc tests
       \<lparr>tr_passed = (if tcr_passed res then tr_passed acc + 1 else tr_passed acc),
        tr_failed = (if tcr_passed res then tr_failed acc else tr_failed acc + 1),
        tr_results = tr_results acc @ [res]\<rparr>)"

definition runTests :: "policyDocument \<Rightarrow> selectorError + testResults" where
  "runTests doc = runTests_from doc (doc_tests doc) \<lparr>tr_passed = 0, tr_failed = 0, tr_results = []\<rparr>"

section \<open>The rules of a document built from rows\<close>

text \<open>The compiled rule of an enabled policy row, port ranges cut to their first port.\<close>

definition rule_of_row :: "nat \<times> policyRow \<Rightarrow> compiledRule" where
  "rule_of_row ir = (case ir of (i, row) \<Rightarrow> \<lparr>cr_name = row_key i row,
     cr_action = (if row_action row = ''deny'' then Deny else Allow),
     cr_scope = nullish (row_scope row) ScopeNetwork,
     cr_srcSelectors = [rowDenotes (row_srcSelector row)], cr_dstSelectors = [rowDenotes (row_dstSelector row)],
     cr_ports = map (\<lambda>p. \<lparr>pr_start = pr_start p, pr_end = pr_start p\<rparr>) (row_ports row),
     cr_protocol = (case row_protocol row of
         Some p \<Rightarrow> if p = ''any'' \<or> p = [] then PAny else parseProtocol p | None \<Rightarrow> PAny),
     cr_priority = row_priority row, cr_orderIndex = nullish (row_orderIndex row) 0,
     cr_posture = nullish (row_srcPosture row) [], cr_enabled = nullish (row_enabled row) True\<rparr>)"

definition rows_wf :: "policyRows \<Rightarrow> bool" where
  "rows_wf rows = (\<forall>row \<in> set (rows_policies rows). rowSelector_wf (row_srcSelector row) \<and> rowSelector_wf (row_dstSelector row))"

lemma parsePort_format:
  "parsePort (if pr_start p = pr_end p then show_int (pr_start p)
     else show_int (pr_start p) @ ''-'' @ show_int (pr_end p)) = [\<lparr>pr_start = pr_start p, pr_end = pr_start p\<rparr>]"
  using parseInt_show_int [of "[]" "pr_start p"] parseInt_show_int [OF dash_no_digit, of "pr_start p" "show_int (pr_end p)"]
  by (cases "pr_start p = pr_end p") (simp_all add: parsePort_def no_digit_first_def)

lemma parsePorts_format:
  "parsePorts (formatPorts ports) = map (\<lambda>p. \<lparr>pr_start = pr_start p, pr_end = pr_start p\<rparr>) ports"
  unfolding parsePorts_def formatPorts_def by (induction ports) (simp_all add: parsePort_format del: append.simps)

lemma compileAcl_row:
  assumes "rowSelector_wf (row_srcSelector row)" "rowSelector_wf (row_dstSelector row)"
  shows "compileAcl (aclFromRow i row) = Inr [rule_of_row (i, row)]"
proof -
  have key: "aclKey (aclFromRow i row) = row_key i row"
    by (simp add: aclKey_def aclFromRow_def row_key_def nullish_def split: option.splits)
  have "compileRule (aclFromRow i row) (selectorToString (row_srcSelector row)) (selectorToString (row_dstSelector row))
      = Inr (rule_of_row (i, row))"
    unfolding compileRule_def key selector_round_trip [OF assms(1)] selector_round_trip [OF assms(2)] res_bind.simps
    by (simp add: rule_of_row_def aclFromRow_def parsePorts_format split: option.splits)
  moreover have "acl_src (aclFromRow i row) = [selectorToString (row_srcSelector row)]"
    "acl_dst (aclFromRow i row) = [selectorToString (row_dstSelector row)]" by (simp_all add: aclFromRow_def)
  ultimately show ?thesis by (simp add: compileAcl_def flat_traverse_def selectors_or_any_def)
qed

lemma flat_traverse_single:
  "\<forall>x \<in> set xs. f x = Inr [g x] \<Longrightarrow> flat_traverse f xs = Inr (map g xs)"
proof -
  assume "\<forall>x \<in> set xs. f x = Inr [g x]"
  then have "traverse f xs = Inr (map (\<lambda>x. [g x]) xs)" by (induction xs) simp_all
  then show ?thesis by (simp add: flat_traverse_def)
qed

lemma flat_traverse_map: "flat_traverse f (map h xs) = flat_traverse (\<lambda>x. f (h x)) xs"
proof -
  have "traverse f (map h xs) = traverse (\<lambda>x. f (h x)) xs" by (induction xs) simp_all
  then show ?thesis by (simp add: flat_traverse_def)
qed

lemma compileRules_rows:
  assumes "rows_wf rows"
  shows "compileRules (documentFromRows rows) =
    Inr (map rule_of_row (filter (\<lambda>(i, row). nullish (row_enabled row) True) (enumerate 0 (rows_policies rows))))"
proof -
  let ?rows = "enumerate 0 (rows_policies rows)"
  have "filter acl_enabled (doc_acls (documentFromRows rows)) =
      map (\<lambda>(i, row). aclFromRow i row) (filter (\<lambda>(i, row). nullish (row_enabled row) True) ?rows)"
    by (simp add: documentFromRows_def filter_map comp_def case_prod_unfold aclFromRow_def)
  moreover have "compileAcl (case ir of (i, row) \<Rightarrow> aclFromRow i row) = Inr [rule_of_row ir]" if "ir \<in> set ?rows" for ir
  proof -
    obtain i row where ir: "ir = (i, row)" by fastforce
    then have "row \<in> set (rows_policies rows)" using that by (auto simp: in_set_enumerate_eq)
    then show ?thesis using assms compileAcl_row by (simp add: ir rows_wf_def)
  qed
  ultimately show ?thesis
    unfolding compileRules_def by (simp only: flat_traverse_map) (rule flat_traverse_single, simp)
qed

section \<open>What a policy test means\<close>

definition dst_verdict :: "policyDocument \<Rightarrow> policyTest \<Rightarrow> string \<Rightarrow> action \<Rightarrow> bool" where
  "dst_verdict doc test dst act = (case simulateDocument doc (testScenario test dst) of
     Inl _ \<Rightarrow> False | Inr res \<Rightarrow> sim_verdict res = act)"

definition test_holds :: "policyDocument \<Rightarrow> policyTest \<Rightarrow> bool" where
  "test_holds doc test = ((\<forall>dst \<in> set (test_accept test). dst_verdict doc test dst Allow) \<and>
     (\<forall>dst \<in> set (test_deny test). dst_verdict doc test dst Deny))"

lemma checkDst_Nil: "checkDst doc test act dst = Inr ms \<Longrightarrow> ms = [] \<longleftrightarrow> dst_verdict doc test dst act"
  by (cases "simulateDocument doc (testScenario test dst)") (auto simp: checkDst_def dst_verdict_def split: if_splits)

lemma checkDsts_Nil:
  "flat_traverse (checkDst doc test act) dsts = Inr ms \<Longrightarrow>
   ms = [] \<longleftrightarrow> (\<forall>dst \<in> set dsts. dst_verdict doc test dst act)"
  unfolding flat_traverse_def
proof (induction dsts arbitrary: ms)
  case (Cons d ds)
  then obtain y yss where y: "checkDst doc test act d = Inr y" "traverse (checkDst doc test act) ds = Inr yss"
    "ms = y @ concat yss" by (auto simp: res_bind_Inr_iff)
  then show ?case using Cons.IH [of "concat yss"] checkDst_Nil [OF y(1)] by simp
qed simp

definition result_of :: "policyDocument \<Rightarrow> policyTest \<Rightarrow> testCaseResult \<Rightarrow> bool" where
  "result_of doc test res = (tcr_name res = test_name test \<and> (tcr_passed res \<longleftrightarrow> test_holds doc test) \<and>
     (tcr_message res = None \<longleftrightarrow> tcr_passed res))"

lemma runTest_result: "runTest doc test = Inr res \<Longrightarrow> result_of doc test res"
  unfolding runTest_def result_of_def test_holds_def
  by (auto simp: res_bind_Inr_iff Let_def dest!: checkDsts_Nil split: if_splits)

lemma runTests_from_result:
  "runTests_from doc tests acc = Inr res \<Longrightarrow>
   \<exists>rs. tr_results res = tr_results acc @ rs \<and> list_all2 (result_of doc) tests rs \<and>
     tr_passed res = tr_passed acc + length (filter tcr_passed rs) \<and>
     tr_failed res = tr_failed acc + length (filter (\<lambda>r. \<not> tcr_passed r) rs)"
proof (induction doc tests acc rule: runTests_from.induct)
  case (2 doc test tests acc)
  then obtain r where r: "runTest doc test = Inr r" by (auto simp: res_bind_Inr_iff)
  from 2(1) [of r] 2(2) r obtain rs where "tr_results res = (tr_results acc @ [r]) @ rs"
    "list_all2 (result_of doc) tests rs"
    "tr_passed res = (if tcr_passed r then tr_passed acc + 1 else tr_passed acc) + length (filter tcr_passed rs)"
    "tr_failed res = (if tcr_passed r then tr_failed acc else tr_failed acc + 1) +
       length (filter (\<lambda>r. \<not> tcr_passed r) rs)" by auto
  then show ?case using runTest_result [OF r] by (intro exI [of _ "r # rs"]) simp
qed simp

section \<open>Properties\<close>

definition ex_row :: policyRow where
  "ex_row = \<lparr>row_slug = None, row_name = None, row_action = ''deny'', row_scope = None, row_srcSelector = RowAny,
     row_dstSelector = RowTag ''db'', row_ports = [\<lparr>pr_start = 80, pr_end = 443\<rparr>], row_protocol = Some ''any'',
     row_priority = 0, row_orderIndex = None, row_srcPosture = None, row_enabled = None\<rparr>"

definition ex_rows :: policyRows where
  "ex_rows = \<lparr>rows_tags = [], rows_hostAliases = [], rows_ipSets = [], rows_policies = [ex_row], rows_grants = [],
     rows_sshPolicies = [], rows_postures = [], rows_autoApprovers = [], rows_nodeAttributes = [],
     rows_tests = None, rows_defaultAction = None, rows_icmpPolicy = None\<rparr>"

text \<open>
  C15. The document built from well-formed policy rows always compiles, to one rule per enabled row in
  the order of the rows, with the row's selectors, action, scope, priority, order index, posture and
  protocol; of every port range only the first port remains.
\<close>

theorem rows_compile:
  assumes "rows_wf rows"
  shows "compileRules (documentFromRows rows) =
    Inr (map rule_of_row (filter (\<lambda>(i, row). nullish (row_enabled row) True) (enumerate 0 (rows_policies rows))))"
  using assms by (rule compileRules_rows)

theorem rows_compile_witness:
  "rows_wf ex_rows \<and> compileRules (documentFromRows ex_rows) = Inr [rule_of_row (0, ex_row)]"
proof -
  have h: "rows_wf ex_rows" by code_simp
  have "filter (\<lambda>(i, row). nullish (row_enabled row) True) (enumerate 0 (rows_policies ex_rows)) = [(0, ex_row)]"
    by code_simp
  then show ?thesis using h rows_compile [OF h] by simp
qed



text \<open>
  C17. The results of the policy tests mean what they say: when the run finishes there is one result
  per test, in order and under its name; a test passes exactly when every destination it accepts is
  allowed by the simulation and every destination it denies is denied; a failing test, and only a
  failing one, has a message; and the two counters count the results.
\<close>

theorem runTests_meaning:
  assumes "runTests doc = Inr res"
  shows "list_all2 (result_of doc) (doc_tests doc) (tr_results res) \<and>
    tr_passed res = length (filter tcr_passed (tr_results res)) \<and>
    tr_failed res = length (filter (\<lambda>r. \<not> tcr_passed r) (tr_results res)) \<and>
    tr_passed res + tr_failed res = length (doc_tests doc)"
proof -
  from runTests_from_result [OF assms [unfolded runTests_def]]
  have "list_all2 (result_of doc) (doc_tests doc) (tr_results res)"
    "tr_passed res = length (filter tcr_passed (tr_results res))"
    "tr_failed res = length (filter (\<lambda>r. \<not> tcr_passed r) (tr_results res))" by auto
  then show ?thesis
    using sum_length_filter_compl [of tcr_passed "tr_results res"] list_all2_lengthD by fastforce
qed

theorem runTests_meaning_witness:
  "\<exists>res. runTests ex_valid_doc = Inr res \<and> tr_passed res + tr_failed res = 1"
proof -
  have "is_ok (runTests ex_valid_doc)" by code_simp
  then obtain res where res: "runTests ex_valid_doc = Inr res" by (auto simp: is_ok_iff)
  have "length (doc_tests ex_valid_doc) = 1" by code_simp
  then show ?thesis using res runTests_meaning [OF res] by auto
qed

definition ex_colliding_test :: policyDocument where
  "ex_colliding_test = emptyDocument\<lparr>doc_tests :=
     [\<lparr>test_name = ''t'', test_src = ''*'', test_accept = [''tag:80''], test_deny = []\<rparr>]\<rparr>"


end
