(* ===== verification/License_Features.thy ===== *)
theory License_Features
  imports Js_Prelude
begin

text \<open>
  The vocabulary of the licence: packages/license/src/errors.ts and packages/license/src/features.ts.
  The finite unions are datatypes whose order is the order of the source's arrays; a map over all
  features or all limits is a function. A limit of \<^const>\<open>None\<close> is the source's \<open>null\<close>: unlimited.
\<close>

datatype licenseFailureCode =
    NotConfigured
  | SourceUnavailable
  | TooLarge
  | Malformed
  | UnsupportedFormat
  | UnknownKey
  | KeyRevoked
  | AlgMismatch
  | BadSignature
  | UnsupportedClaim
  | InvalidClaims
  | IssuerMismatch
  | AudienceMismatch
  | NotYetValid
  | Expired
  | Revoked
  | ClockRollback

text \<open>The reason a manager reports: a failure code, or the source's own reason that the code casts to
  one.\<close>

datatype reason = Failure licenseFailureCode | SourceReason string

datatype licenseTier = Community | Cloud | Enterprise

datatype feature =
    MultiOrganization
  | CloudLanding
  | CloudInfrastructure
  | OpenSignUp
  | ClickhouseAudit
  | AuditEnterpriseStreams
  | ComplianceExport

datatype limit = Organizations | Nodes | Seats | Relays

datatype licenseStatus = StatusCommunity | StatusActive | StatusGrace | StatusExpired

type_synonym featureMap = "feature \<Rightarrow> bool"
type_synonym limitMap = "limit \<Rightarrow> int option"

definition TIERS :: "licenseTier list" where
  "TIERS = [Community, Cloud, Enterprise]"

definition FEATURES :: "feature list" where
  "FEATURES = [MultiOrganization, CloudLanding, CloudInfrastructure, OpenSignUp, ClickhouseAudit,
     AuditEnterpriseStreams, ComplianceExport]"

definition LIMITS :: "limit list" where
  "LIMITS = [Organizations, Nodes, Seats, Relays]"

fun tier_name :: "licenseTier \<Rightarrow> string" where
  "tier_name Community = ''community''"
| "tier_name Cloud = ''cloud''"
| "tier_name Enterprise = ''enterprise''"

fun feature_name :: "feature \<Rightarrow> string" where
  "feature_name MultiOrganization = ''multiOrganization''"
| "feature_name CloudLanding = ''cloudLanding''"
| "feature_name CloudInfrastructure = ''cloudInfrastructure''"
| "feature_name OpenSignUp = ''openSignUp''"
| "feature_name ClickhouseAudit = ''clickhouseAudit''"
| "feature_name AuditEnterpriseStreams = ''auditEnterpriseStreams''"
| "feature_name ComplianceExport = ''complianceExport''"

fun limit_name :: "limit \<Rightarrow> string" where
  "limit_name Organizations = ''organizations''"
| "limit_name Nodes = ''nodes''"
| "limit_name Seats = ''seats''"
| "limit_name Relays = ''relays''"

record entitlements =
  ent_status :: licenseStatus
  ent_tier :: licenseTier
  ent_features :: featureMap
  ent_limits :: limitMap
  ent_licenseId :: "string option"
  ent_subject :: "string option"
  ent_issuedAt :: "int option"
  ent_notAfter :: "int option"
  ent_graceUntil :: "int option"
  ent_stale :: bool
  ent_reason :: "reason option"

definition featureMap :: "feature list \<Rightarrow> featureMap" where
  "featureMap on = (\<lambda>f. f \<in> set on)"

definition NO_LIMITS :: limitMap where
  "NO_LIMITS = (\<lambda>_. None)"

fun TIER_PRESETS :: "licenseTier \<Rightarrow> featureMap" where
  "TIER_PRESETS Community = featureMap []"
| "TIER_PRESETS Cloud = featureMap FEATURES"
| "TIER_PRESETS Enterprise = featureMap [ClickhouseAudit, AuditEnterpriseStreams, ComplianceExport]"

definition COMMUNITY_ENTITLEMENTS :: entitlements where
  "COMMUNITY_ENTITLEMENTS = \<lparr>ent_status = StatusCommunity, ent_tier = Community,
     ent_features = TIER_PRESETS Community,
     ent_limits = (\<lambda>l. case l of Organizations \<Rightarrow> Some 1 | Nodes \<Rightarrow> None | Seats \<Rightarrow> None | Relays \<Rightarrow> None),
     ent_licenseId = None, ent_subject = None, ent_issuedAt = None, ent_notAfter = None,
     ent_graceUntil = None, ent_stale = False, ent_reason = None\<rparr>"

definition communityWithReason :: "reason option \<Rightarrow> bool \<Rightarrow> entitlements" where
  "communityWithReason r stale = COMMUNITY_ENTITLEMENTS\<lparr>ent_reason := r, ent_stale := stale\<rparr>"

definition parseTier :: "string \<Rightarrow> licenseTier option" where
  "parseTier s = find (\<lambda>t. tier_name t = s) TIERS"

definition parseFeature :: "string \<Rightarrow> feature option" where
  "parseFeature s = find (\<lambda>f. feature_name f = s) FEATURES"

definition parseLimit :: "string \<Rightarrow> limit option" where
  "parseLimit s = find (\<lambda>l. limit_name l = s) LIMITS"

lemma FEATURES_all [simp]: "f \<in> set FEATURES"
  by (cases f) (simp_all add: FEATURES_def)

lemma LIMITS_all [simp]: "l \<in> set LIMITS"
  by (cases l) (simp_all add: LIMITS_def)

lemma feature_name_inject [simp]: "feature_name f = feature_name g \<longleftrightarrow> f = g"
  by (cases f; cases g) simp_all

lemma limit_name_inject [simp]: "limit_name l = limit_name k \<longleftrightarrow> l = k"
  by (cases l; cases k) simp_all

interpretation tier_codec: codec tier_name parseTier "\<lambda>_. True"
proof
  fix x show "parseTier (tier_name x) = Some x" by (cases x) (simp_all add: parseTier_def TIERS_def)
qed

interpretation feature_codec: codec feature_name parseFeature "\<lambda>_. True"
proof
  fix x show "parseFeature (feature_name x) = Some x" by (cases x) (simp_all add: parseFeature_def FEATURES_def)
qed

interpretation limit_codec: codec limit_name parseLimit "\<lambda>_. True"
proof
  fix x show "parseLimit (limit_name x) = Some x" by (cases x) (simp_all add: parseLimit_def LIMITS_def)
qed

end
