(* ===== verification/License_Token.thy ===== *)
theory License_Token
  imports Json Js_Bytes
begin

text \<open>
  The licence token, packages/license/src/token.ts: base64url and UTF-8, the token
  \<open>tnlic1.<header>.<payload>.<signature>\<close>, its decoder with every size and shape check, and the two
  functions the issuer assembles one with.

  A byte is a natural number below 256. \<open>btoa\<close>, \<open>atob\<close>, \<open>TextEncoder\<close> and \<open>TextDecoder\<close> are the
  language's; the decoder here knows the code units below 256, as all strings of the development.
  The \<open>SyntaxError\<close> and \<open>RangeError\<close> that the source throws are the two values of \<open>tokenError\<close>.

  The main lemmas: base64url is a canonical codec (\<open>b64u_codec\<close>: decoding inverts encoding and
  accepts no other text for the same bytes), and an assembled token is decoded to its parts
  (\<open>decodeToken_assemble\<close>).
\<close>

section \<open>Base64\<close>

fun enc64 :: "nat list \<Rightarrow> nat list" where
  "enc64 (x # y # z # r) = [x div 4, x mod 4 * 16 + y div 16, y mod 16 * 4 + z div 64, z mod 64] @ enc64 r"
| "enc64 [x, y] = [x div 4, x mod 4 * 16 + y div 16, y mod 16 * 4]"
| "enc64 [x] = [x div 4, x mod 4 * 16]"
| "enc64 [] = []"

fun dec64 :: "nat list \<Rightarrow> nat list" where
  "dec64 (a # b # c # d # r) = [a * 4 + b div 16, b mod 16 * 16 + c div 4, c mod 4 * 64 + d] @ dec64 r"
| "dec64 [a, b, c] = [a * 4 + b div 16, b mod 16 * 16 + c div 4]"
| "dec64 [a, b] = [a * 4 + b div 16]"
| "dec64 [a] = []"
| "dec64 [] = []"

definition char64 :: "nat \<Rightarrow> char" where
  "char64 n = char_of (if n < 26 then 65 + n else if n < 52 then 71 + n else if n < 62 then n - 4
     else if n = 62 then 43 else 47)"

definition val64 :: "char \<Rightarrow> nat option" where
  "val64 c = (let n = code_unit c in
     if 65 \<le> n \<and> n \<le> 90 then Some (n - 65)
     else if 97 \<le> n \<and> n \<le> 122 then Some (n - 71)
     else if 48 \<le> n \<and> n \<le> 57 then Some (n + 4)
     else if n = 43 then Some 62
     else if n = 47 then Some 63
     else None)"

definition btoa :: "nat list \<Rightarrow> string" where
  "btoa bytes = map char64 (enc64 bytes) @ replicate ((3 - length bytes mod 3) mod 3) (CHR ''='')"

text \<open>\<open>atob\<close>: white space is dropped, then at most two padding characters of a text of full length.\<close>

definition strip_padding :: "string \<Rightarrow> string" where
  "strip_padding s =
     (if length s mod 4 = 0 then
        (if endsWith s ''=='' then take (length s - 2) s
         else if endsWith s ''='' then take (length s - 1) s else s)
      else s)"

definition atob :: "string \<Rightarrow> nat list option" where
  "atob s =
     (let t = strip_padding (filter (\<lambda>c. c \<notin> {CHR 0x09, CHR 0x0A, CHR 0x0C, CHR 0x0D, CHR '' ''}) s) in
      if length t mod 4 = 1 \<or> (\<exists>c \<in> set t. val64 c = None) then None
      else Some (dec64 (map (\<lambda>c. the (val64 c)) t)))"

definition url_char :: "char \<Rightarrow> char" where
  "url_char c = (if c = CHR ''+'' then CHR ''-'' else if c = CHR ''/'' then CHR ''_'' else c)"

definition std_char :: "char \<Rightarrow> char" where
  "std_char c = (if c = CHR ''-'' then CHR ''+'' else if c = CHR ''_'' then CHR ''/'' else c)"

definition b64url_char :: "char \<Rightarrow> bool" where
  "b64url_char c = (let n = code_unit c in (65 \<le> n \<and> n \<le> 90) \<or> (97 \<le> n \<and> n \<le> 122) \<or>
     (48 \<le> n \<and> n \<le> 57) \<or> n = 95 \<or> n = 45)"

definition b64uEncode :: "nat list \<Rightarrow> string" where
  "b64uEncode bytes = rev (dropWhile (\<lambda>c. c = CHR ''='') (rev (map url_char (btoa bytes))))"

datatype tokenError = SyntaxError string | RangeError string

definition b64uDecode :: "string \<Rightarrow> tokenError + nat list" where
  "b64uDecode value =
     (if value = [] \<or> (\<exists>c \<in> set value. \<not> b64url_char c) \<or> length value mod 4 = 1 then
        Inl (SyntaxError ''invalid base64url'')
      else
        let padded = map std_char value @ replicate ((4 - length value mod 4) mod 4) (CHR ''='') in
        case atob padded of
          None \<Rightarrow> Inl (SyntaxError ''InvalidCharacterError'')
        | Some out \<Rightarrow>
            if b64uEncode out \<noteq> value then Inl (SyntaxError ''non-canonical base64url'') else Inr out)"

section \<open>Tokens\<close>

definition TOKEN_PREFIX :: string where
  "TOKEN_PREFIX = ''tnlic1''"

definition LICENSE_TYP :: string where
  "LICENSE_TYP = ''tunnet-license+2''"

definition REVOCATION_TYP :: string where
  "REVOCATION_TYP = ''tunnet-revocations+2''"

definition MAX_TOKEN_CHARS :: nat where
  "MAX_TOKEN_CHARS = 8192"

definition MAX_SEGMENT_CHARS :: nat where
  "MAX_SEGMENT_CHARS = 4096"

record protectedHeader =
  hd_alg :: string
  hd_kid :: string
  hd_typ :: string
  hd_crit :: "string list"

record decodedToken =
  tok_header :: protectedHeader
  tok_payload :: "(string \<times> json) list"
  tok_signature :: "nat list"
  tok_signingInput :: "nat list"

definition parseJsonObject :: "nat list \<Rightarrow> tokenError + (string \<times> json) list" where
  "parseJsonObject bytes = (case utf8_decode bytes of
       None \<Rightarrow> Inl (SyntaxError ''invalid utf-8'')
     | Some s \<Rightarrow>
         (case json_parse s of
            None \<Rightarrow> Inl (SyntaxError ''invalid JSON'')
          | Some (JObj kvs) \<Rightarrow> Inr kvs
          | Some _ \<Rightarrow> Inl (SyntaxError ''expected JSON object'')))"

definition json_strings :: "json list \<Rightarrow> string list option" where
  "json_strings xs = (if \<forall>x \<in> set xs. case x of JStr _ \<Rightarrow> True | _ \<Rightarrow> False
     then Some (map (\<lambda>x. case x of JStr s \<Rightarrow> s | _ \<Rightarrow> []) xs) else None)"

definition parseHeader :: "(string \<times> json) list \<Rightarrow> tokenError + protectedHeader" where
  "parseHeader raw =
     (if map_of raw ''alg'' \<noteq> Some (JStr ''Ed25519'') then Inl (SyntaxError ''unsupported alg'')
      else case map_of raw ''kid'' of
        Some (JStr kid) \<Rightarrow>
          if length kid = 0 \<or> 64 < length kid then Inl (SyntaxError ''invalid kid'')
          else (case map_of raw ''typ'' of
            Some (JStr typ) \<Rightarrow>
              (case (case map_of raw ''crit'' of None \<Rightarrow> JArr [] | Some v \<Rightarrow> v) of
                 JArr xs \<Rightarrow>
                   (case json_strings xs of
                      Some crit \<Rightarrow> Inr \<lparr>hd_alg = ''Ed25519'', hd_kid = kid, hd_typ = typ, hd_crit = crit\<rparr>
                    | None \<Rightarrow> Inl (SyntaxError ''invalid crit''))
               | _ \<Rightarrow> Inl (SyntaxError ''invalid crit''))
          | _ \<Rightarrow> Inl (SyntaxError ''invalid typ''))
      | _ \<Rightarrow> Inl (SyntaxError ''invalid kid''))"

definition decodeToken :: "string \<Rightarrow> tokenError + decodedToken" where
  "decodeToken token =
     (let trimmed = trim token in
      if MAX_TOKEN_CHARS < length trimmed then Inl (RangeError ''token too large'')
      else case split_on (CHR ''.'') trimmed of
        [pre, h, p, s] \<Rightarrow>
          if pre \<noteq> TOKEN_PREFIX then Inl (SyntaxError ''unsupported token format'')
          else if MAX_SEGMENT_CHARS < length h \<or> MAX_SEGMENT_CHARS < length p \<or> 128 < length s then
            Inl (RangeError ''segment too large'')
          else
            res_bind (b64uDecode s) (\<lambda>signature.
            if length signature \<noteq> 64 then Inl (SyntaxError ''invalid signature length'')
            else
              res_bind (b64uDecode h) (\<lambda>hb.
              res_bind (parseJsonObject hb) (\<lambda>ho.
              res_bind (parseHeader ho) (\<lambda>header.
              res_bind (b64uDecode p) (\<lambda>pb.
              res_bind (parseJsonObject pb) (\<lambda>payload.
                Inr \<lparr>tok_header = header, tok_payload = payload, tok_signature = signature,
                     tok_signingInput = utf8 (TOKEN_PREFIX @ ''.'' @ h @ ''.'' @ p)\<rparr>))))))
      | _ \<Rightarrow> Inl (SyntaxError ''unsupported token format''))"

definition buildSigningInput :: "json \<Rightarrow> json \<Rightarrow> nat list \<times> string \<times> string" where
  "buildSigningInput header payload =
     (let h = b64uEncode (utf8 (stringify header)); p = b64uEncode (utf8 (stringify payload)) in
      (utf8 (TOKEN_PREFIX @ ''.'' @ h @ ''.'' @ p), h, p))"

definition assembleToken :: "string \<Rightarrow> string \<Rightarrow> nat list \<Rightarrow> string" where
  "assembleToken h p signature = TOKEN_PREFIX @ ''.'' @ h @ ''.'' @ p @ ''.'' @ b64uEncode signature"

section \<open>Base64url is a canonical codec\<close>

lemma digits_base: "b < n \<Longrightarrow> (a * n + b) div n = a" "b < n \<Longrightarrow> (a * n + b) mod n = b" for a b n :: nat
  by (simp_all add: div_mult_self3 mod_mult_self3)

lemma byte_parts: "x < 256 \<Longrightarrow> x div 16 < 16" "x < 256 \<Longrightarrow> x div 64 < 4" "x < 256 \<Longrightarrow> x div 4 < 64" for x :: nat
  by simp_all

lemma dec64_enc64: "\<forall>b \<in> set bs. b < 256 \<Longrightarrow> dec64 (enc64 bs) = bs"
proof (induction bs rule: enc64.induct)
  case (1 x y z r)
  then have "y div 16 < 16" "z div 64 < 4" using byte_parts by simp_all
  then have "x div 4 * 4 + (x mod 4 * 16 + y div 16) div 16 = x"
    "(x mod 4 * 16 + y div 16) mod 16 * 16 + (y mod 16 * 4 + z div 64) div 4 = y"
    "(y mod 16 * 4 + z div 64) mod 4 * 64 + z mod 64 = z"
    by (simp_all only: digits_base div_mult_mod_eq)
  then show ?case using 1 by simp
next
  case (2 x y)
  then have "y div 16 < 16" using byte_parts by simp
  then have "x div 4 * 4 + (x mod 4 * 16 + y div 16) div 16 = x"
    "(x mod 4 * 16 + y div 16) mod 16 * 16 + (y mod 16 * 4) div 4 = y"
    by (simp_all only: digits_base div_mult_mod_eq nonzero_mult_div_cancel_right)
  then show ?case by simp
qed simp_all

lemma enc64_range: "\<forall>b \<in> set bs. b < 256 \<Longrightarrow> v \<in> set (enc64 bs) \<Longrightarrow> v < 64"
proof (induction bs rule: enc64.induct)
  case (1 x y z r)
  then have "x div 4 < 64" "x mod 4 * 16 + y div 16 < 64" "y mod 16 * 4 + z div 64 < 64" "z mod 64 < 64"
    using byte_parts by (auto, linarith?)
  then show ?case using 1 by auto
next
  case (2 x y)
  then have "x div 4 < 64" "x mod 4 * 16 + y div 16 < 64" "y mod 16 * 4 < 64"
    using byte_parts by (auto, linarith?)
  then show ?case using 2 by auto
next
  case (3 x)
  then have "x div 4 < 64" "x mod 4 * 16 < 64" by auto
  then show ?case using 3 by auto
qed simp

lemma length_enc64:
  "length (enc64 bs) mod 4 \<noteq> 1" "(3 - length bs mod 3) mod 3 = (4 - length (enc64 bs) mod 4) mod 4"
proof (induction bs rule: enc64.induct)
  case (1 x y z r)
  have l: "length (enc64 (x # y # z # r)) = length (enc64 r) + 4" "length (x # y # z # r) = length r + 3"
    by simp_all
  { case 1 then show ?case unfolding l using "1.IH"(1) by simp }
  { case 2 then show ?case unfolding l using "1.IH"(2) by simp }
qed simp_all

lemma enc64_Nil [simp]: "enc64 bs = [] \<longleftrightarrow> bs = []"
  by (cases bs rule: enc64.cases) simp_all

text \<open>The 64 characters.\<close>

lemma code_unit_char64: "n < 64 \<Longrightarrow> code_unit (char64 n) =
    (if n < 26 then 65 + n else if n < 52 then 71 + n else if n < 62 then n - 4 else if n = 62 then 43 else 47)"
  by (simp add: char64_def)

lemma val64_char64 [simp]: "n < 64 \<Longrightarrow> val64 (char64 n) = Some n"
  by (auto simp: val64_def Let_def code_unit_char64)

lemma code_unit_url: "code_unit (url_char c) = (if code_unit c = 43 then 45 else if code_unit c = 47 then 95 else code_unit c)"
proof -
  have "c = CHR ''+'' \<longleftrightarrow> code_unit c = 43" "c = CHR ''/'' \<longleftrightarrow> code_unit c = 47"
    using code_unit_inject [of c "CHR ''+''"] code_unit_inject [of c "CHR ''/''"] by (simp_all add: code_unit_def)
  then show ?thesis by (simp add: url_char_def) (simp add: code_unit_def)
qed

lemma code_unit_std: "code_unit (std_char c) = (if code_unit c = 45 then 43 else if code_unit c = 95 then 47 else code_unit c)"
proof -
  have "c = CHR ''-'' \<longleftrightarrow> code_unit c = 45" "c = CHR ''_'' \<longleftrightarrow> code_unit c = 95"
    using code_unit_inject [of c "CHR ''-''"] code_unit_inject [of c "CHR ''_''"] by (simp_all add: code_unit_def)
  then show ?thesis by (simp add: std_char_def) (simp add: code_unit_def)
qed

lemma std_url_char64 [simp]: "n < 64 \<Longrightarrow> std_char (url_char (char64 n)) = char64 n"
proof -
  assume n: "n < 64"
  have "code_unit (std_char (url_char (char64 n))) = code_unit (char64 n)"
    using n by (auto simp: code_unit_std code_unit_url code_unit_char64)
  then show ?thesis by simp
qed

lemma b64url_url_char64: "n < 64 \<Longrightarrow> b64url_char (url_char (char64 n))"
  by (auto simp: b64url_char_def Let_def code_unit_url code_unit_char64)

lemma b64url_char_range: "b64url_char c \<Longrightarrow> \<not> js_ws c \<and> c \<noteq> CHR ''='' \<and> c \<noteq> CHR ''.''"
proof -
  have "code_unit (CHR ''='') = 61" "code_unit (CHR ''.'') = 46" by (simp_all add: code_unit_def)
  then show "b64url_char c \<Longrightarrow> ?thesis" by (auto simp: b64url_char_def js_ws_def Let_def)
qed

lemma char64_plain: "n < 64 \<Longrightarrow> char64 n \<notin> {CHR 0x09, CHR 0x0A, CHR 0x0C, CHR 0x0D, CHR '' '', CHR ''=''}"
proof -
  assume n: "n < 64"
  have "code_unit d \<noteq> code_unit (char64 n)" if "d \<in> {CHR 0x09, CHR 0x0A, CHR 0x0C, CHR 0x0D, CHR '' '', CHR ''=''}" for d
  proof -
    have "code_unit d \<in> {9, 10, 12, 13, 32, 61}" using that by (auto simp: code_unit_def)
    then show ?thesis using n by (auto simp: code_unit_char64)
  qed
  then show ?thesis by (metis code_unit_inject)
qed

definition bytes_ok :: "nat list \<Rightarrow> bool" where
  "bytes_ok bs = (bs \<noteq> [] \<and> (\<forall>b \<in> set bs. b < 256))"

lemma bytes_ok_utf8: "s \<noteq> [] \<Longrightarrow> bytes_ok (utf8 s)"
  using utf8_bytes utf8_inject [of s "[]"] by (auto simp: bytes_ok_def simp del: utf8_inject)

lemma dropWhile_notin: "x \<notin> set s \<Longrightarrow> dropWhile (\<lambda>c. c = x) s = s"
  by (cases s) auto

lemma startsWith_notin: "x \<notin> set s \<Longrightarrow> \<not> startsWith s (x # p)"
  by (cases s) auto

lemma padding_length:
  assumes "n mod 4 \<noteq> 1"
  shows "(4 - n mod 4) mod 4 \<le> 2 \<and> (n + (4 - n mod 4) mod 4) mod 4 = (0 :: nat)"
proof -
  have "(n + (4 - n mod 4) mod 4) mod 4 = (n mod 4 + (4 - n mod 4)) mod 4" 
    by (metis mod_add_left_eq mod_add_right_eq)
  moreover have "n mod 4 < 4" by simp
  then consider "n mod 4 = 0" | "n mod 4 = 2" | "n mod 4 = 3" using assms by linarith
  then have "(4 - n mod 4) mod 4 \<le> 2" by cases simp_all
  ultimately show ?thesis by simp
qed

lemma dropWhile_replicate: "x \<notin> set s \<Longrightarrow> rev (dropWhile (\<lambda>c. c = x) (rev (s @ replicate k x))) = s"
proof -
  assume x: "x \<notin> set s"
  have "dropWhile (\<lambda>c. c = x) (replicate k x @ rev s) = dropWhile (\<lambda>c. c = x) (rev s)"
    by (induction k) simp_all
  also have "\<dots> = rev s" using x by (simp add: dropWhile_notin)
  finally show ?thesis by simp
qed

lemma b64uEncode_chars:
  assumes "\<forall>b \<in> set bs. b < 256"
  shows "b64uEncode bs = map (\<lambda>v. url_char (char64 v)) (enc64 bs)"
proof -
  have "b64url_char c" if "c \<in> set (map (\<lambda>v. url_char (char64 v)) (enc64 bs))" for c
    using that b64url_url_char64 enc64_range [OF assms] by auto
  then have "CHR ''='' \<notin> set (map (\<lambda>v. url_char (char64 v)) (enc64 bs))"
    using b64url_char_range by blast
  from dropWhile_replicate [OF this] show ?thesis
    by (simp add: b64uEncode_def btoa_def comp_def url_char_def [of "CHR ''=''"])
qed

lemma b64uEncode_alphabet: "\<forall>b \<in> set bs. b < 256 \<Longrightarrow> c \<in> set (b64uEncode bs) \<Longrightarrow> b64url_char c"
  using b64url_url_char64 enc64_range by (auto simp: b64uEncode_chars)

lemma endsWith_notin: "x \<notin> set s \<Longrightarrow> \<not> endsWith s (p @ [x])"
  by (simp add: endsWith_def startsWith_notin)

lemma strip_padding_append:
  assumes "CHR ''='' \<notin> set s" "k \<le> 2" "(length s + k) mod 4 = 0"
  shows "strip_padding (s @ replicate k (CHR ''='')) = s"
proof -
  have no: "\<not> endsWith s ''=''" "\<not> endsWith s ''==''"
    using endsWith_notin [OF assms(1), of "[]"] endsWith_notin [OF assms(1), of "''=''"] by simp_all
  consider "k = 0" | "k = 1" | "k = 2" using assms(2) by linarith
  then show ?thesis
  proof cases
    case 1
    then show ?thesis using no by (simp add: strip_padding_def)
  next
    case 2
    then have "\<not> endsWith (s @ ''='') ''==''" using assms(1)
      by (simp add: endsWith_def startsWith_notin)
    then show ?thesis using 2 assms(3) by (simp add: strip_padding_def endsWith_def)
  next
    case 3
    then show ?thesis using assms(3) by (simp add: strip_padding_def endsWith_def numeral_2_eq_2)
  qed
qed

lemma atob_padded:
  assumes "\<forall>b \<in> set bs. b < 256"
  shows "atob (map char64 (enc64 bs) @ replicate ((4 - length (enc64 bs) mod 4) mod 4) (CHR ''='')) = Some bs"
proof -
  let ?s = "map char64 (enc64 bs)" and ?k = "(4 - length (enc64 bs) mod 4) mod 4"
  have plain: "c \<notin> {CHR 0x09, CHR 0x0A, CHR 0x0C, CHR 0x0D, CHR '' '', CHR ''=''}" if "c \<in> set ?s" for c
    using that char64_plain enc64_range [OF assms] by auto
  then have flt: "filter (\<lambda>c. c \<notin> {CHR 0x09, CHR 0x0A, CHR 0x0C, CHR 0x0D, CHR '' ''}) (?s @ replicate ?k (CHR ''=''))
      = ?s @ replicate ?k (CHR ''='')"
    by (intro filter_True) auto
  have "strip_padding (?s @ replicate ?k (CHR ''='')) = ?s"
  proof (rule strip_padding_append)
    show "CHR ''='' \<notin> set ?s" using plain by blast
    show "?k \<le> 2" "(length ?s + ?k) mod 4 = 0" using padding_length [OF length_enc64(1) [of bs]] by simp_all
  qed
  moreover have "map (\<lambda>c. the (val64 c)) ?s = enc64 bs" using enc64_range [OF assms] by (simp add: comp_def map_idI)
  moreover have "\<forall>c \<in> set ?s. val64 c \<noteq> None" using enc64_range [OF assms] by auto
  ultimately show ?thesis
    using length_enc64(1) [of bs] dec64_enc64 [OF assms] unfolding atob_def flt Let_def by auto
qed

lemma b64uDecode_encode: "bytes_ok bs \<Longrightarrow> b64uDecode (b64uEncode bs) = Inr bs"
proof -
  assume ok: "bytes_ok bs"
  then have lt: "\<forall>b \<in> set bs. b < 256" by (simp add: bytes_ok_def)
  have std: "map std_char (b64uEncode bs) = map char64 (enc64 bs)"
    using enc64_range [OF lt] by (simp add: b64uEncode_chars [OF lt])
  have len: "length (b64uEncode bs) = length (enc64 bs)" by (simp add: b64uEncode_chars [OF lt])
  have "b64uEncode bs \<noteq> []" using ok by (simp add: b64uEncode_chars [OF lt] bytes_ok_def)
  then show ?thesis
    using atob_padded [OF lt] length_enc64(1) [of bs] b64uEncode_alphabet [OF lt]
    unfolding b64uDecode_def std len Let_def by auto
qed

lemma b64uDecode_canonical: "b64uDecode s = Inr bs \<Longrightarrow> b64uEncode bs = s"
  by (auto simp: b64uDecode_def Let_def split: if_splits option.splits)

interpretation b64u_codec: canonical_codec
  b64uEncode "\<lambda>s. case b64uDecode s of Inl _ \<Rightarrow> None | Inr bs \<Rightarrow> Some bs" bytes_ok
  by unfold_locales (auto simp: b64uDecode_encode b64uDecode_canonical split: sum.splits)

section \<open>Assembled tokens are decoded\<close>

lemma parseJsonObject_stringify: "json_wf (JObj kvs) \<Longrightarrow> parseJsonObject (utf8 (stringify (JObj kvs))) = Inr kvs"
  using utf8_codec.dec_enc parse_stringify [of "JObj kvs"]
  by (simp add: parseJsonObject_def del: stringify.simps json_wf.simps)

lemma stringify_obj_not_Nil [simp]: "stringify (JObj kvs) \<noteq> []"
  by simp

lemma length_b64uEncode: "\<forall>b \<in> set bs. b < 256 \<Longrightarrow> length (b64uEncode bs) = length (enc64 bs)"
  by (simp add: b64uEncode_chars)

lemma length_enc64_le: "3 * length (enc64 bs) \<le> 4 * length bs + 4"
  by (induction bs rule: enc64.induct) simp_all

lemma b64u_segment: "bytes_ok bs \<Longrightarrow> CHR ''.'' \<notin> set (b64uEncode bs)"
  using b64uEncode_alphabet b64url_char_range unfolding bytes_ok_def by blast

lemma trim_token:
  assumes "bytes_ok sig"
  shows "trim (assembleToken h p sig) = assembleToken h p sig"
proof (rule trim_id)
  show "\<not> js_ws (hd (assembleToken h p sig))"
    by (simp add: assembleToken_def TOKEN_PREFIX_def js_ws_def code_unit_def)
  have "b64uEncode sig \<noteq> []" using assms by (simp add: b64uEncode_chars bytes_ok_def)
  then have "last (assembleToken h p sig) \<in> set (b64uEncode sig)" by (simp add: assembleToken_def)
  then show "\<not> js_ws (last (assembleToken h p sig))"
    using assms b64uEncode_alphabet b64url_char_range unfolding bytes_ok_def by blast
qed

lemma split_token:
  assumes "CHR ''.'' \<notin> set h" "CHR ''.'' \<notin> set p" "bytes_ok sig"
  shows "split_on (CHR ''.'') (assembleToken h p sig) = [TOKEN_PREFIX, h, p, b64uEncode sig]"
proof -
  have "CHR ''.'' \<notin> set TOKEN_PREFIX" by (simp add: TOKEN_PREFIX_def)
  then show ?thesis
    using assms b64u_segment [OF assms(3)] by (simp add: assembleToken_def split_on_append split_on_free)
qed

definition token_fits :: "string \<Rightarrow> string \<Rightarrow> nat list \<Rightarrow> bool" where
  "token_fits h p sig = (length h \<le> MAX_SEGMENT_CHARS \<and> length p \<le> MAX_SEGMENT_CHARS \<and>
     length (assembleToken h p sig) \<le> MAX_TOKEN_CHARS)"

lemma decodeToken_assemble:
  assumes wf: "json_wf (JObj hk)" "json_wf (JObj pk)" and hdr: "parseHeader hk = Inr header"
    and sig: "length sig = 64" "\<forall>b \<in> set sig. b < 256"
    and build: "buildSigningInput (JObj hk) (JObj pk) = (msg, h, p)"
    and fits: "token_fits h p sig"
  shows "decodeToken (assembleToken h p sig) =
    Inr \<lparr>tok_header = header, tok_payload = pk, tok_signature = sig, tok_signingInput = msg\<rparr>"
proof -
  have hp: "h = b64uEncode (utf8 (stringify (JObj hk)))" "p = b64uEncode (utf8 (stringify (JObj pk)))"
    "msg = utf8 (TOKEN_PREFIX @ ''.'' @ h @ ''.'' @ p)"
    using build by (auto simp: buildSigningInput_def Let_def)
  have ok: "bytes_ok sig" using sig by (auto simp: bytes_ok_def)
  have okh: "bytes_ok (utf8 (stringify (JObj hk)))" "bytes_ok (utf8 (stringify (JObj pk)))"
    by (rule bytes_ok_utf8, simp)+
  have parts: "split_on (CHR ''.'') (assembleToken h p sig) = [TOKEN_PREFIX, h, p, b64uEncode sig]"
    using okh ok by (intro split_token) (simp_all only: hp b64u_segment, simp_all add: b64u_segment)
  have "3 * length (b64uEncode sig) \<le> 260"
    using sig length_enc64_le [of sig] by (simp add: length_b64uEncode)
  then have len: "length (b64uEncode sig) \<le> 128" by simp
  have dec: "b64uDecode (b64uEncode sig) = Inr sig" "b64uDecode h = Inr (utf8 (stringify (JObj hk)))"
    "b64uDecode p = Inr (utf8 (stringify (JObj pk)))"
    using ok okh by (simp_all only: hp b64uDecode_encode)
  show ?thesis
    using fits len hdr sig(1) hp(3)
    unfolding decodeToken_def Let_def trim_token [OF ok] parts token_fits_def
    by (simp add: dec parseJsonObject_stringify [OF wf(1)] parseJsonObject_stringify [OF wf(2)] del: stringify.simps)
qed

text \<open>Short texts fit into a token.\<close>

lemma length_utf8: "length (utf8 s) \<le> 2 * length s"
  by (induction s) (auto simp: utf8_Cons utf8_char_def Let_def)

lemma length_segment: "3 * length (b64uEncode (utf8 s)) \<le> 8 * length s + 4"
proof -
  have "length (b64uEncode (utf8 s)) = length (enc64 (utf8 s))" using utf8_bytes by (intro length_b64uEncode) blast
  then show ?thesis using length_enc64_le [of "utf8 s"] length_utf8 [of s] by linarith
qed

lemma token_fits_short:
  assumes b: "buildSigningInput header payload = (msg, h, p)" and sig: "length sig = 64" "\<forall>b \<in> set sig. b < 256"
    and len: "length (stringify header) \<le> 700" "length (stringify payload) \<le> 1400"
  shows "token_fits h p sig"
proof -
  have hp: "h = b64uEncode (utf8 (stringify header))" "p = b64uEncode (utf8 (stringify payload))"
    using b by (auto simp: buildSigningInput_def Let_def)
  have "3 * length (b64uEncode sig) \<le> 260"
    using sig length_enc64_le [of sig] by (simp add: length_b64uEncode)
  moreover have "length (assembleToken h p sig) = 9 + length h + length p + length (b64uEncode sig)"
    by (simp add: assembleToken_def TOKEN_PREFIX_def)
  ultimately show ?thesis
    using length_segment [of "stringify header"] length_segment [of "stringify payload"] len
    unfolding token_fits_def hp MAX_TOKEN_CHARS_def MAX_SEGMENT_CHARS_def by linarith
qed

section \<open>Properties\<close>

text \<open>
  C19. Base64url decoding is the exact inverse of encoding: a text decodes to given bytes if and only
  if it is the encoding of those bytes. So every encoding decodes, and no second spelling of the same
  bytes, with other padding bits or other characters, is accepted.
\<close>

theorem b64u_exact:
  assumes "bytes_ok bs"
  shows "b64uDecode s = Inr bs \<longleftrightarrow> s = b64uEncode bs"
  using assms b64uDecode_encode b64uDecode_canonical by blast

theorem b64u_exact_witness:
  "bytes_ok [255, 0, 16] \<and> b64uDecode (b64uEncode [255, 0, 16]) = Inr [255, 0, 16]"
proof -
  have h: "bytes_ok [255, 0, 16]" by (simp add: bytes_ok_def)
  then show ?thesis using b64u_exact [OF h] by blast
qed

end
