(* ===== verification/License_Verify.thy ===== *)
theory License_Verify
  imports License_Features License_Token
begin

text \<open>
  The keyring, the verifier and the revocation list of the licence package:
  packages/license/src/keyring.ts, packages/license/src/verify.ts and
  packages/license/src/revocation.ts.

  Ed25519 and SHA-256 are third-party code (@noble): the signature check is a parameter
  \<open>ed_verify\<close> of the verifier, \<^const>\<open>None\<close> when the library throws, and the digest is a parameter of
  \<open>deploymentFingerprint\<close>. A failure keeps its code; the human-readable message that goes to the log
  is not modelled. Times are whole seconds.

  \<open>verify_accepts\<close> spells out what an accepted token satisfies; \<open>parseRevocationList_accepts\<close> does
  so for a revocation list.
\<close>

section \<open>keyring.ts\<close>

datatype keyStatus = KeyActive | KeyRetired | KeyCompromised

record trustedKey =
  tk_kid :: string
  tk_alg :: string
  tk_publicKey :: "nat list"
  tk_validFrom :: int
  tk_validUntil :: "int option"
  tk_status :: keyStatus

text \<open>\<open>Number.parseInt(s, 16)\<close> of a slice of two characters, stored in a byte; NaN is stored as 0.\<close>

definition hex_slice :: "string \<Rightarrow> nat" where
  "hex_slice s = (case s of
       [a, b] \<Rightarrow> (case (hex_val a, hex_val b) of
           (Some x, Some y) \<Rightarrow> 16 * x + y | (Some x, None) \<Rightarrow> x | _ \<Rightarrow> 0)
     | [a] \<Rightarrow> (case hex_val a of Some x \<Rightarrow> x | None \<Rightarrow> 0)
     | _ \<Rightarrow> 0)"

definition mk_key :: "string \<Rightarrow> string \<Rightarrow> int \<Rightarrow> int option \<Rightarrow> keyStatus \<Rightarrow> trustedKey" where
  "mk_key kid hex validFrom validUntil status =
     \<lparr>tk_kid = kid, tk_alg = ''Ed25519'',
      tk_publicKey = map (\<lambda>i. hex_slice (take 2 (drop (i * 2) hex))) [0..<32],
      tk_validFrom = validFrom, tk_validUntil = validUntil, tk_status = status\<rparr>"

definition TUNNET_TRUSTED_KEYS :: "trustedKey list" where
  "TUNNET_TRUSTED_KEYS = [mk_key ''tnk-2025-01''
     ''54544bc6251b8076e7cdceff6b741d258b37a6a93020a03a251fe209b325ebbd'' 0 None KeyActive]"

type_synonym keyring = "(string \<times> trustedKey) list"

datatype keyringError = EmptyKeyring | BadKeyLength string | DuplicateKid string | BadSpki

fun keyring_add :: "keyring \<Rightarrow> trustedKey list \<Rightarrow> keyringError + keyring" where
  "keyring_add m [] = Inr m"
| "keyring_add m (k # ks) =
     (if length (tk_publicKey k) \<noteq> 32 then Inl (BadKeyLength (tk_kid k))
      else if map_of m (tk_kid k) \<noteq> None then Inl (DuplicateKid (tk_kid k))
      else keyring_add (AList.update (tk_kid k) k m) ks)"

definition newKeyring :: "trustedKey list \<Rightarrow> keyringError + keyring" where
  "newKeyring keys = (if length keys = 0 then Inl EmptyKeyring else keyring_add [] keys)"

definition fromSpkiBase64 :: "string \<Rightarrow> string \<Rightarrow> (tokenError + keyringError) + trustedKey" where
  "fromSpkiBase64 kid spki =
     (case b64uDecode (rev (dropWhile (\<lambda>c. c = CHR ''='') (rev (map url_char spki)))) of
        Inl e \<Rightarrow> Inl (Inl e)
      | Inr der \<Rightarrow>
          if length der \<noteq> 44 then Inl (Inr BadSpki)
          else Inr \<lparr>tk_kid = kid, tk_alg = ''Ed25519'', tk_publicKey = drop 12 der, tk_validFrom = 0,
                    tk_validUntil = None, tk_status = KeyActive\<rparr>)"

definition keyring_get :: "keyring \<Rightarrow> string \<Rightarrow> trustedKey option" where
  "keyring_get kr kid = map_of kr kid"

section \<open>verify.ts\<close>

definition DEFAULT_CLOCK_SKEW_SEC :: int where
  "DEFAULT_CLOCK_SKEW_SEC = 300"

definition UNDERSTOOD_CRIT :: "string list" where
  "UNDERSTOOD_CRIT = [''aud'', ''limits'']"

record license =
  lic_jti :: string
  lic_iss :: string
  lic_sub :: string
  lic_aud :: "string list"
  lic_tier :: licenseTier
  lic_features :: featureMap
  lic_limits :: limitMap
  lic_iat :: int
  lic_nbf :: int
  lic_exp :: int
  lic_grace :: int
  lic_meta :: "(string \<times> string) list"
  lic_kid :: string

record verifyOptions =
  vo_keyring :: keyring
  vo_now :: int
  vo_clockSkewSec :: "int option"
  vo_audience :: "string option"
  vo_expectedIssuer :: "string option"
  vo_revokedIds :: "string list option"

type_synonym verifyResult = "licenseFailureCode + license \<times> licenseStatus"

definition deploymentFingerprint :: "(nat list \<Rightarrow> nat list) \<Rightarrow> string \<Rightarrow> string" where
  "deploymentFingerprint sha256 deploymentId =
     take 22 (b64uEncode (sha256 (utf8 (''tunnet-deployment-v1'' @ [CHR 0x00] @ deploymentId))))"

definition MAX_SAFE_INTEGER :: int where
  "MAX_SAFE_INTEGER = 9007199254740991"

fun int_of :: "json option \<Rightarrow> int option" where
  "int_of (Some (JInt i)) = (if - MAX_SAFE_INTEGER \<le> i \<and> i \<le> MAX_SAFE_INTEGER then Some i else None)"
| "int_of _ = None"

fun str_of :: "json option \<Rightarrow> nat \<Rightarrow> string option" where
  "str_of (Some (JStr s)) m = (if 0 < length s \<and> length s \<le> m then Some s else None)"
| "str_of _ m = None"

definition parseFeatures :: "json option \<Rightarrow> featureMap option" where
  "parseFeatures v = (case v of
       Some (JObj src) \<Rightarrow>
         if \<forall>f \<in> set FEATURES. case map_of src (feature_name f) of
              None \<Rightarrow> True | Some (JBool _) \<Rightarrow> True | _ \<Rightarrow> False
         then Some (\<lambda>f. map_of src (feature_name f) = Some (JBool True)) else None
     | _ \<Rightarrow> None)"

definition limit_value :: "json option \<Rightarrow> int option option" where
  "limit_value raw = (case raw of
       None \<Rightarrow> Some None
     | Some JNull \<Rightarrow> Some None
     | Some v \<Rightarrow> (case int_of (Some v) of None \<Rightarrow> None | Some n \<Rightarrow> if n < 0 then None else Some (Some n)))"

definition parseLimits :: "json option \<Rightarrow> limitMap option" where
  "parseLimits v = (case v of
       None \<Rightarrow> Some NO_LIMITS
     | Some (JObj src) \<Rightarrow>
         if \<forall>l \<in> set LIMITS. limit_value (map_of src (limit_name l)) \<noteq> None
         then Some (\<lambda>l. the (limit_value (map_of src (limit_name l)))) else None
     | _ \<Rightarrow> None)"

definition parseMeta :: "json option \<Rightarrow> (string \<times> string) list option" where
  "parseMeta v = (case v of
       None \<Rightarrow> Some []
     | Some (JObj src) \<Rightarrow>
         if 16 < length src then None
         else if \<forall>kv \<in> set src. case snd kv of JStr s \<Rightarrow> length s \<le> 256 | _ \<Rightarrow> False
         then Some (map (\<lambda>kv. (fst kv, case snd kv of JStr s \<Rightarrow> s | _ \<Rightarrow> [])) src) else None
     | _ \<Rightarrow> None)"

definition parseTierClaim :: "json option \<Rightarrow> licenseTier option" where
  "parseTierClaim v = (case v of
       Some (JStr s) \<Rightarrow> (case parseTier s of Some t \<Rightarrow> if t \<noteq> Community then Some t else None | None \<Rightarrow> None)
     | _ \<Rightarrow> None)"

definition parseAud :: "json option \<Rightarrow> string list option" where
  "parseAud v = (case (case v of None \<Rightarrow> JArr [] | Some w \<Rightarrow> w) of
       JArr xs \<Rightarrow>
         if length xs \<le> 32 then
           (case json_strings xs of
              Some as \<Rightarrow> if \<forall>a \<in> set as. length a \<le> 64 then Some as else None
            | None \<Rightarrow> None)
         else None
     | _ \<Rightarrow> None)"

text \<open>The claims of a payload, \<^const>\<open>None\<close> when one of them is invalid.\<close>

definition parseClaims :: "string \<Rightarrow> (string \<times> json) list \<Rightarrow> license option" where
  "parseClaims kid payload =
     (let get = map_of payload;
          iat = int_of (get ''iat'');
          nbf = (if get ''nbf'' = None then iat else int_of (get ''nbf''));
          grace = (if get ''grace'' = None then Some 0 else int_of (get ''grace'')) in
      case (str_of (get ''jti'') 64, str_of (get ''iss'') 256, str_of (get ''sub'') 256,
            parseTierClaim (get ''tier''), parseFeatures (get ''features''), parseLimits (get ''limits''),
            parseMeta (get ''meta''), parseAud (get ''aud'')) of
        (Some jti, Some iss, Some sub, Some tier, Some features, Some limits, Some meta, Some aud) \<Rightarrow>
          (case (iat, nbf, int_of (get ''exp''), grace) of
             (Some iat, Some nbf, Some exp, Some grace) \<Rightarrow>
               if grace < 0 \<or> grace > 90 * 86400 \<or> exp \<le> iat then None
               else Some \<lparr>lic_jti = jti, lic_iss = iss, lic_sub = sub, lic_aud = aud, lic_tier = tier,
                          lic_features = features, lic_limits = limits, lic_iat = iat, lic_nbf = nbf,
                          lic_exp = exp, lic_grace = grace, lic_meta = meta, lic_kid = kid\<rparr>
           | _ \<Rightarrow> None)
      | _ \<Rightarrow> None)"

text \<open>All checks before the clock, and the checks against the clock.\<close>

definition vetToken :: "(nat list \<Rightarrow> nat list \<Rightarrow> nat list \<Rightarrow> bool option) \<Rightarrow> decodedToken \<Rightarrow> verifyOptions \<Rightarrow>
    licenseFailureCode + license" where
  "vetToken ed_verify decoded options =
     (let header = tok_header decoded in
      if hd_typ header \<noteq> LICENSE_TYP then Inl UnsupportedFormat
      else if \<exists>c \<in> set (hd_crit header). c \<notin> set UNDERSTOOD_CRIT then Inl UnsupportedClaim
      else case keyring_get (vo_keyring options) (hd_kid header) of
        None \<Rightarrow> Inl UnknownKey
      | Some key \<Rightarrow>
          if tk_status key = KeyCompromised then Inl KeyRevoked
          else if hd_alg header \<noteq> tk_alg key then Inl AlgMismatch
          else if ed_verify (tok_signature decoded) (tok_signingInput decoded) (tk_publicKey key) \<noteq> Some True
          then Inl BadSignature
          else case parseClaims (hd_kid header) (tok_payload decoded) of
            None \<Rightarrow> Inl InvalidClaims
          | Some lic \<Rightarrow>
              if lic_iat lic < tk_validFrom key then Inl KeyRevoked
              else if (case tk_validUntil key of Some u \<Rightarrow> u < lic_iat lic | None \<Rightarrow> False) then Inl KeyRevoked
              else if (case vo_expectedIssuer options of
                         Some i \<Rightarrow> i \<noteq> [] \<and> lic_iss lic \<noteq> i | None \<Rightarrow> False) then Inl IssuerMismatch
              else if (case vo_revokedIds options of
                         Some ids \<Rightarrow> lic_jti lic \<in> set ids | None \<Rightarrow> False) then Inl Revoked
              else if 0 < length (lic_aud lic) \<and>
                      (case vo_audience options of
                         Some a \<Rightarrow> a = [] \<or> a \<notin> set (lic_aud lic) | None \<Rightarrow> True) then Inl AudienceMismatch
              else Inr lic)"

definition skew_of :: "verifyOptions \<Rightarrow> int" where
  "skew_of options = (case vo_clockSkewSec options of Some s \<Rightarrow> s | None \<Rightarrow> DEFAULT_CLOCK_SKEW_SEC)"

definition clockStatus :: "verifyOptions \<Rightarrow> license \<Rightarrow> verifyResult" where
  "clockStatus options lic =
     (let skew = skew_of options; now = vo_now options in
      if now + skew < lic_nbf lic then Inl NotYetValid
      else if now - skew < lic_exp lic then Inr (lic, StatusActive)
      else if now - skew < lic_exp lic + lic_grace lic then Inr (lic, StatusGrace)
      else Inl Expired)"

definition verifyDecoded ::
    "(nat list \<Rightarrow> nat list \<Rightarrow> nat list \<Rightarrow> bool option) \<Rightarrow> decodedToken \<Rightarrow> verifyOptions \<Rightarrow> verifyResult" where
  "verifyDecoded ed_verify decoded options =
     res_bind (vetToken ed_verify decoded options) (clockStatus options)"

definition verifyLicenseToken ::
    "(nat list \<Rightarrow> nat list \<Rightarrow> nat list \<Rightarrow> bool option) \<Rightarrow> string \<Rightarrow> verifyOptions \<Rightarrow> verifyResult" where
  "verifyLicenseToken ed_verify token options = (case decodeToken token of
       Inl (RangeError _) \<Rightarrow> Inl TooLarge
     | Inl (SyntaxError _) \<Rightarrow> Inl Malformed
     | Inr decoded \<Rightarrow> verifyDecoded ed_verify decoded options)"

definition entitlementsFrom :: "license \<Rightarrow> licenseStatus \<Rightarrow> bool \<Rightarrow> entitlements" where
  "entitlementsFrom lic status stale =
     \<lparr>ent_status = status, ent_tier = lic_tier lic, ent_features = lic_features lic,
      ent_limits = lic_limits lic, ent_licenseId = Some (lic_jti lic), ent_subject = Some (lic_sub lic),
      ent_issuedAt = Some (lic_iat lic), ent_notAfter = Some (lic_exp lic),
      ent_graceUntil = (if lic_grace lic > 0 then Some (lic_exp lic + lic_grace lic) else None),
      ent_stale = stale, ent_reason = None\<rparr>"

section \<open>revocation.ts\<close>

definition MAX_REVOCATION_AGE_SEC :: int where
  "MAX_REVOCATION_AGE_SEC = 30 * 86400"

datatype revocationError =
    RevDecode tokenError
  | RevTyp
  | RevKey
  | RevAlg
  | RevSignature
  | RevIat
  | RevList
  | RevStale
  | RevEntry

record revocations =
  rev_revoked :: "string list"
  rev_issuedAt :: int

fun revocation_entry :: "json \<Rightarrow> string option" where
  "revocation_entry (JStr s) = Some s"
| "revocation_entry (JObj kvs) = (case map_of kvs ''jti'' of Some (JStr s) \<Rightarrow> Some s | _ \<Rightarrow> None)"
| "revocation_entry _ = None"

definition revocation_set :: "json list \<Rightarrow> string list option" where
  "revocation_set xs = (if \<forall>x \<in> set xs. revocation_entry x \<noteq> None
     then Some (uniq (map (\<lambda>x. the (revocation_entry x)) xs)) else None)"

definition parseRevocationList ::
    "(nat list \<Rightarrow> nat list \<Rightarrow> nat list \<Rightarrow> bool option) \<Rightarrow> string \<Rightarrow> keyring \<Rightarrow> int \<Rightarrow> revocationError + revocations" where
  "parseRevocationList ed_verify token keyring now = (case decodeToken token of
       Inl e \<Rightarrow> Inl (RevDecode e)
     | Inr decoded \<Rightarrow>
         if hd_typ (tok_header decoded) \<noteq> REVOCATION_TYP then Inl RevTyp
         else case keyring_get keyring (hd_kid (tok_header decoded)) of
           None \<Rightarrow> Inl RevKey
         | Some key \<Rightarrow>
             if tk_status key = KeyCompromised then Inl RevKey
             else if hd_alg (tok_header decoded) \<noteq> tk_alg key then Inl RevAlg
             else if ed_verify (tok_signature decoded) (tok_signingInput decoded) (tk_publicKey key) \<noteq> Some True
             then Inl RevSignature
             else case int_of (map_of (tok_payload decoded) ''iat'') of
               None \<Rightarrow> Inl RevIat
             | Some iat \<Rightarrow>
                 (case map_of (tok_payload decoded) ''revoked'' of
                    Some (JArr xs) \<Rightarrow>
                      if 100000 < length xs then Inl RevList
                      else if now - iat > MAX_REVOCATION_AGE_SEC then Inl RevStale
                      else (case revocation_set xs of
                              None \<Rightarrow> Inl RevEntry
                            | Some ids \<Rightarrow> Inr \<lparr>rev_revoked = ids, rev_issuedAt = iat\<rparr>)
                  | _ \<Rightarrow> Inl RevList))"

section \<open>What acceptance means\<close>

text \<open>A key of the keyring that is not compromised vouches for the token: its signature is valid and
  the licence was issued while the key was.\<close>

definition vouched ::
    "(nat list \<Rightarrow> nat list \<Rightarrow> nat list \<Rightarrow> bool option) \<Rightarrow> decodedToken \<Rightarrow> verifyOptions \<Rightarrow> license \<Rightarrow> bool" where
  "vouched ed_verify decoded options lic =
     (\<exists>key. keyring_get (vo_keyring options) (lic_kid lic) = Some key \<and> tk_status key \<noteq> KeyCompromised \<and>
        ed_verify (tok_signature decoded) (tok_signingInput decoded) (tk_publicKey key) = Some True \<and>
        tk_validFrom key \<le> lic_iat lic \<and> (\<forall>u. tk_validUntil key = Some u \<longrightarrow> lic_iat lic \<le> u))"

definition claims_ok :: "license \<Rightarrow> bool" where
  "claims_ok lic = (lic_tier lic \<noteq> Community \<and> lic_iat lic < lic_exp lic \<and> 0 \<le> lic_grace lic \<and>
     lic_grace lic \<le> 90 * 86400 \<and> lic_jti lic \<noteq> [] \<and> length (lic_jti lic) \<le> 64 \<and> lic_sub lic \<noteq> [] \<and>
     (\<forall>l n. lic_limits lic l = Some n \<longrightarrow> 0 \<le> n))"

definition addressed :: "verifyOptions \<Rightarrow> license \<Rightarrow> bool" where
  "addressed options lic =
     ((\<forall>i. vo_expectedIssuer options = Some i \<longrightarrow> i \<noteq> [] \<longrightarrow> lic_iss lic = i) \<and>
      (\<forall>ids. vo_revokedIds options = Some ids \<longrightarrow> lic_jti lic \<notin> set ids) \<and>
      (lic_aud lic \<noteq> [] \<longrightarrow> (\<exists>a. vo_audience options = Some a \<and> a \<in> set (lic_aud lic))))"

definition in_time :: "verifyOptions \<Rightarrow> license \<Rightarrow> licenseStatus \<Rightarrow> bool" where
  "in_time options lic status =
     (let now = vo_now options; skew = skew_of options in
      lic_nbf lic \<le> now + skew \<and>
      (status = StatusActive \<and> now - skew < lic_exp lic \<or>
       status = StatusGrace \<and> lic_exp lic \<le> now - skew \<and> now - skew < lic_exp lic + lic_grace lic))"

lemma limit_value_nonneg: "limit_value raw = Some (Some n) \<Longrightarrow> 0 \<le> n"
  by (auto simp: limit_value_def split: option.splits json.splits if_splits)

lemma parseLimits_nonneg: "parseLimits v = Some m \<Longrightarrow> m l = Some n \<Longrightarrow> 0 \<le> n"
proof -
  assume m: "parseLimits v = Some m" "m l = Some n"
  show "0 \<le> n"
  proof (cases v)
    case None
    then show ?thesis using m by (auto simp: parseLimits_def NO_LIMITS_def)
  next
    case (Some w)
    then obtain src where src: "\<forall>l \<in> set LIMITS. limit_value (map_of src (limit_name l)) \<noteq> None"
      "m = (\<lambda>l. the (limit_value (map_of src (limit_name l))))"
      using m by (cases w) (auto simp: parseLimits_def split: if_splits)
    then have "limit_value (map_of src (limit_name l)) = Some (Some n)" using m(2) LIMITS_all [of l]
      by (metis option.collapse)
    then show ?thesis by (rule limit_value_nonneg)
  qed
qed

lemma str_of_Some: "str_of v m = Some s \<Longrightarrow> s \<noteq> [] \<and> length s \<le> m"
  by (cases "(v, m)" rule: str_of.cases) (auto split: if_splits)

lemma parseTierClaim_paid: "parseTierClaim v = Some t \<Longrightarrow> t \<noteq> Community"
  by (auto simp: parseTierClaim_def split: option.splits json.splits if_splits)

lemma parseClaims_ok:
  assumes "parseClaims kid payload = Some lic"
  shows "claims_ok lic" "lic_kid lic = kid"
  using assms
  by (auto simp: parseClaims_def Let_def claims_ok_def dest: str_of_Some parseTierClaim_paid parseLimits_nonneg
      split: option.splits if_splits)

lemma vetToken_accepts:
  assumes "vetToken ed_verify decoded options = Inr lic"
  shows "hd_typ (tok_header decoded) = LICENSE_TYP \<and> claims_ok lic \<and>
    parseClaims (hd_kid (tok_header decoded)) (tok_payload decoded) = Some lic \<and>
    vouched ed_verify decoded options lic \<and> addressed options lic"
proof -
  from assms obtain key where kind: "hd_typ (tok_header decoded) = LICENSE_TYP"
    and key: "keyring_get (vo_keyring options) (hd_kid (tok_header decoded)) = Some key"
      "tk_status key \<noteq> KeyCompromised"
      "ed_verify (tok_signature decoded) (tok_signingInput decoded) (tk_publicKey key) = Some True"
    and claims: "parseClaims (hd_kid (tok_header decoded)) (tok_payload decoded) = Some lic"
    and window: "\<not> lic_iat lic < tk_validFrom key"
      "\<not> (case tk_validUntil key of Some u \<Rightarrow> u < lic_iat lic | None \<Rightarrow> False)"
    and iss: "\<not> (case vo_expectedIssuer options of Some i \<Rightarrow> i \<noteq> [] \<and> lic_iss lic \<noteq> i | None \<Rightarrow> False)"
    and revoked: "\<not> (case vo_revokedIds options of Some ids \<Rightarrow> lic_jti lic \<in> set ids | None \<Rightarrow> False)"
    and aud: "\<not> (0 < length (lic_aud lic) \<and>
      (case vo_audience options of Some a \<Rightarrow> a = [] \<or> a \<notin> set (lic_aud lic) | None \<Rightarrow> True))"
    unfolding vetToken_def Let_def guard_Inr_iff lookup_Inr_iff by blast
  note ok = parseClaims_ok [OF claims]
  have "vouched ed_verify decoded options lic"
    unfolding vouched_def ok(2) using key window by (intro exI [of _ key]) (auto split: option.splits)
  moreover have "addressed options lic"
    unfolding addressed_def using iss revoked aud by (auto split: option.splits)
  ultimately show ?thesis using kind claims ok(1) by blast
qed

lemma clockStatus_accepts:
  "clockStatus options lic = Inr (lic', status) \<longleftrightarrow> lic' = lic \<and> in_time options lic status"
  by (auto simp: clockStatus_def in_time_def Let_def)

lemma verifyLicenseToken_accepts:
  "verifyLicenseToken ed_verify token options = Inr (lic, status) \<longleftrightarrow>
   (\<exists>decoded. decodeToken token = Inr decoded \<and> vetToken ed_verify decoded options = Inr lic \<and>
      in_time options lic status)"
  by (auto simp: verifyLicenseToken_def verifyDecoded_def res_bind_Inr_iff clockStatus_accepts
      split: sum.splits tokenError.splits)

lemma vetToken_now: "vetToken ed_verify decoded (options\<lparr>vo_now := t\<rparr>) = vetToken ed_verify decoded options"
proof -
  have sel: "vo_keyring (options\<lparr>vo_now := t\<rparr>) = vo_keyring options"
    "vo_expectedIssuer (options\<lparr>vo_now := t\<rparr>) = vo_expectedIssuer options"
    "vo_revokedIds (options\<lparr>vo_now := t\<rparr>) = vo_revokedIds options"
    "vo_audience (options\<lparr>vo_now := t\<rparr>) = vo_audience options" by simp_all
  show ?thesis unfolding vetToken_def sel ..
qed

lemma vetToken_not_expired:
  "vetToken ed_verify decoded options \<noteq> Inl Expired"
  unfolding vetToken_def Let_def by (auto split: option.splits)

lemma clockStatus_expired_mono:
  assumes "clockStatus options lic = Inl Expired" "vo_now options \<le> t"
  shows "clockStatus (options\<lparr>vo_now := t\<rparr>) lic = Inl Expired"
proof -
  have "skew_of (options\<lparr>vo_now := t\<rparr>) = skew_of options" by (simp add: skew_of_def)
  then show ?thesis using assms by (auto simp: clockStatus_def Let_def split: if_splits)
qed

lemma verifyLicenseToken_expired:
  "verifyLicenseToken ed_verify token options = Inl Expired \<longleftrightarrow>
   (\<exists>decoded lic. decodeToken token = Inr decoded \<and> vetToken ed_verify decoded options = Inr lic \<and>
      clockStatus options lic = Inl Expired)"
  using vetToken_not_expired
  by (auto simp: verifyLicenseToken_def verifyDecoded_def res_bind_Inl_iff split: sum.splits tokenError.splits)

lemma parseRevocationList_accepts:
  assumes "parseRevocationList ed_verify token keyring now = Inr r"
  shows "\<exists>decoded key xs. decodeToken token = Inr decoded \<and> hd_typ (tok_header decoded) = REVOCATION_TYP \<and>
    keyring_get keyring (hd_kid (tok_header decoded)) = Some key \<and> tk_status key \<noteq> KeyCompromised \<and>
    ed_verify (tok_signature decoded) (tok_signingInput decoded) (tk_publicKey key) = Some True \<and>
    map_of (tok_payload decoded) ''revoked'' = Some (JArr xs) \<and>
    set (rev_revoked r) = (\<lambda>x. the (revocation_entry x)) ` set xs \<and>
    now - rev_issuedAt r \<le> MAX_REVOCATION_AGE_SEC"
proof (cases "decodeToken token")
  case (Inl e)
  then show ?thesis using assms by (simp add: parseRevocationList_def)
next
  case (Inr decoded)
  with assms obtain key iat where key: "keyring_get keyring (hd_kid (tok_header decoded)) = Some key"
      "hd_typ (tok_header decoded) = REVOCATION_TYP" "tk_status key \<noteq> KeyCompromised"
      "ed_verify (tok_signature decoded) (tok_signingInput decoded) (tk_publicKey key) = Some True"
    and rest: "(case map_of (tok_payload decoded) ''revoked'' of
        Some (JArr xs) \<Rightarrow>
          if 100000 < length xs then Inl RevList
          else if now - iat > MAX_REVOCATION_AGE_SEC then Inl RevStale
          else (case revocation_set xs of
                  None \<Rightarrow> Inl RevEntry
                | Some ids \<Rightarrow> Inr \<lparr>rev_revoked = ids, rev_issuedAt = iat\<rparr>)
      | _ \<Rightarrow> Inl RevList) = Inr r"
    unfolding parseRevocationList_def Inr sum.case guard_Inr_iff lookup_Inr_iff by blast
  then obtain xs ids where xs: "map_of (tok_payload decoded) ''revoked'' = Some (JArr xs)"
    "\<not> now - iat > MAX_REVOCATION_AGE_SEC" "revocation_set xs = Some ids"
    "r = \<lparr>rev_revoked = ids, rev_issuedAt = iat\<rparr>"
    by (auto simp: guard_Inr_iff split: option.splits json.splits)
  then have "set (rev_revoked r) = (\<lambda>x. the (revocation_entry x)) ` set xs"
    by (auto simp: revocation_set_def split: if_splits)
  then show ?thesis using Inr key xs by auto
qed

section \<open>Properties\<close>

text \<open>A hand-made token, its key, and a signature check that accepts one signature.\<close>

definition ex_payload :: "(string \<times> json) list" where
  "ex_payload = [(''jti'', JStr ''lic_1''), (''iss'', JStr ''i''), (''sub'', JStr ''acme''), (''tier'', JStr ''cloud''),
     (''features'', JObj []), (''iat'', JInt 10), (''exp'', JInt 100), (''grace'', JInt 50)]"

definition ex_head :: "(string \<times> json) list" where
  "ex_head = [(''alg'', JStr ''Ed25519''), (''kid'', JStr ''k''), (''typ'', JStr LICENSE_TYP)]"

definition ex_token :: string where
  "ex_token = (case buildSigningInput (JObj ex_head) (JObj ex_payload) of (msg, h, p) \<Rightarrow> assembleToken h p (replicate 64 1))"

definition ex_decoded :: "nat list \<Rightarrow> decodedToken" where
  "ex_decoded msg = \<lparr>tok_header = \<lparr>hd_alg = ''Ed25519'', hd_kid = ''k'', hd_typ = LICENSE_TYP, hd_crit = []\<rparr>,
     tok_payload = ex_payload, tok_signature = replicate 64 1, tok_signingInput = msg\<rparr>"

lemma decode_ex_token: "\<exists>msg. decodeToken ex_token = Inr (ex_decoded msg)"
proof -
  obtain msg h p where b: "buildSigningInput (JObj ex_head) (JObj ex_payload) = (msg, h, p)" by (metis prod_cases3)
  have wf: "json_wf (JObj ex_head)" "json_wf (JObj ex_payload)" by code_simp+
  have hdr: "parseHeader ex_head = Inr \<lparr>hd_alg = ''Ed25519'', hd_kid = ''k'', hd_typ = LICENSE_TYP, hd_crit = []\<rparr>"
    by code_simp
  have "length (stringify (JObj ex_head)) \<le> 700" "length (stringify (JObj ex_payload)) \<le> 1400" by code_simp+
  then have "token_fits h p (replicate 64 1)" by (intro token_fits_short [OF b]) simp_all
  from decodeToken_assemble [OF wf hdr _ _ b this] show ?thesis by (simp add: ex_token_def b ex_decoded_def)
qed

definition ex_check :: "nat list \<Rightarrow> nat list \<Rightarrow> nat list \<Rightarrow> bool option" where
  "ex_check sig msg pk = Some (sig = replicate 64 1)"

definition ex_opts :: "int \<Rightarrow> verifyOptions" where
  "ex_opts now = \<lparr>vo_keyring = [(''k'', \<lparr>tk_kid = ''k'', tk_alg = ''Ed25519'', tk_publicKey = [], tk_validFrom = 0,
       tk_validUntil = None, tk_status = KeyActive\<rparr>)], vo_now = now, vo_clockSkewSec = Some 0,
     vo_audience = None, vo_expectedIssuer = None, vo_revokedIds = Some [''other'']\<rparr>"

lemma verify_ex_token: "verifyLicenseToken ex_check ex_token options = verifyDecoded ex_check (ex_decoded []) options"
proof -
  obtain msg where "decodeToken ex_token = Inr (ex_decoded msg)" using decode_ex_token by blast
  moreover have "vetToken ex_check (ex_decoded msg) options = vetToken ex_check (ex_decoded []) options"
    unfolding vetToken_def ex_decoded_def decodedToken.simps ex_check_def by (rule refl)
  ultimately show ?thesis by (simp add: verifyLicenseToken_def verifyDecoded_def)
qed

text \<open>
  C20. No token is accepted without cause. When the verifier accepts a token, the token decodes, is
  of the licence type, carries a signature that the library accepts under a key of the keyring that
  is not compromised and was valid at the time of issue; its claims are in bounds (a paid tier, expiry
  after issue, a grace of at most ninety days, no negative limit); it comes from the expected issuer,
  is not revoked and is not bound to another deployment; and the time is between its start and its
  expiry, up to the clock skew, or in the grace period that is then reported.
\<close>

theorem verify_sound:
  assumes "verifyLicenseToken ed_verify token options = Inr (lic, status)"
  shows "\<exists>decoded. decodeToken token = Inr decoded \<and> hd_typ (tok_header decoded) = LICENSE_TYP \<and>
    vouched ed_verify decoded options lic \<and> claims_ok lic \<and> addressed options lic \<and> in_time options lic status"
  using assms vetToken_accepts unfolding verifyLicenseToken_accepts by blast

theorem verify_sound_witness:
  "\<exists>lic status. verifyLicenseToken ex_check ex_token (ex_opts 50) = Inr (lic, status) \<and> claims_ok lic \<and> in_time (ex_opts 50) lic status"
proof -
  have "is_ok (verifyDecoded ex_check (ex_decoded []) (ex_opts 50))" by code_simp
  then have "is_ok (verifyLicenseToken ex_check ex_token (ex_opts 50))" by (simp only: verify_ex_token)
  then obtain lic status where "verifyLicenseToken ex_check ex_token (ex_opts 50) = Inr (lic, status)"
    by (auto simp: is_ok_iff)
  then show ?thesis using verify_sound [of ex_check ex_token "ex_opts 50" lic status] by blast
qed

text \<open>
  C21. Expiry is permanent: a token that verification rejects as expired is rejected as expired at
  every later time.
\<close>

theorem expiry_is_permanent:
  assumes "verifyLicenseToken ed_verify token options = Inl Expired" "vo_now options \<le> t"
  shows "verifyLicenseToken ed_verify token (options\<lparr>vo_now := t\<rparr>) = Inl Expired"
  using assms clockStatus_expired_mono by (auto simp: verifyLicenseToken_expired vetToken_now)

theorem expiry_is_permanent_witness:
  "verifyLicenseToken ex_check ex_token ((ex_opts 150)\<lparr>vo_now := 151\<rparr>) = Inl Expired"
proof -
  have "case verifyDecoded ex_check (ex_decoded []) (ex_opts 150) of Inl Expired \<Rightarrow> True | _ \<Rightarrow> False" by code_simp
  then have "verifyLicenseToken ex_check ex_token (ex_opts 150) = Inl Expired"
    by (simp add: verify_ex_token split: sum.splits licenseFailureCode.splits)
  then show ?thesis by (rule expiry_is_permanent) (simp add: ex_opts_def)
qed

end
