(* ===== verification/License_Issuer.thy ===== *)
theory License_Issuer
  imports License_Verify Json_Objects
begin

text \<open>
  Issuing licences and revocation lists, packages/license/src/issuer.ts. The clock and the random
  identifier of the source are arguments, signing is an argument of the signer; \<open>expiresInDays\<close> and
  \<open>graceDays\<close> are whole days.

  The main results: what is issued is accepted (\<open>issue_vets\<close>, for every signature scheme whose
  verification accepts its own signatures), with exactly the features, limits and times asked for;
  and a revocation list that is issued is read back.
\<close>

record licenseSigner =
  sg_kid :: string
  sg_alg :: string
  sg_sign :: "nat list \<Rightarrow> nat list"

definition localSigner :: "(nat list \<Rightarrow> nat list \<Rightarrow> nat list) \<Rightarrow> string \<Rightarrow> nat list \<Rightarrow> string + licenseSigner" where
  "localSigner ed_sign kid privateKeyRaw =
     (if length privateKeyRaw \<noteq> 32 then Inl ''Ed25519 seed must be 32 bytes''
      else Inr \<lparr>sg_kid = kid, sg_alg = ''Ed25519'', sg_sign = (\<lambda>msg. ed_sign msg privateKeyRaw)\<rparr>)"

record issueInput =
  ii_signer :: licenseSigner
  ii_tier :: licenseTier
  ii_subject :: string
  ii_issuer :: "string option"
  ii_licenseId :: "string option"
  ii_expiresInDays :: "int option"
  ii_issuedAt :: "int option"
  ii_notBefore :: "int option"
  ii_graceDays :: "int option"
  ii_audience :: "string list option"
  ii_featureOverrides :: "feature \<Rightarrow> bool option"
  ii_limits :: "limit \<Rightarrow> int option"
  ii_meta :: "(string \<times> string) list option"

record issued =
  is_token :: string
  is_jti :: string
  is_exp :: int

abbreviation or_else :: "'a option \<Rightarrow> 'a \<Rightarrow> 'a" where
  "or_else a b \<equiv> (case a of Some x \<Rightarrow> x | None \<Rightarrow> b)"

definition issue_iat :: "int \<Rightarrow> issueInput \<Rightarrow> int" where
  "issue_iat now input = or_else (ii_issuedAt input) now"

definition issue_exp :: "int \<Rightarrow> issueInput \<Rightarrow> int" where
  "issue_exp now input = issue_iat now input + or_else (ii_expiresInDays input) 365 * 86400"

definition issue_jti :: "string \<Rightarrow> issueInput \<Rightarrow> string" where
  "issue_jti uuid input =
     or_else (ii_licenseId input) (''lic_'' @ filter (\<lambda>c. c \<noteq> CHR ''-'') uuid)"

definition issue_features :: "issueInput \<Rightarrow> featureMap" where
  "issue_features input = (\<lambda>f. or_else (ii_featureOverrides input f) (TIER_PRESETS (ii_tier input) f))"

definition features_json :: "featureMap \<Rightarrow> json" where
  "features_json fm = JObj (map (\<lambda>f. (feature_name f, JBool (fm f))) FEATURES)"

definition limits_json :: "limitMap \<Rightarrow> json" where
  "limits_json lm = JObj (map (\<lambda>l. (limit_name l, case lm l of None \<Rightarrow> JNull | Some n \<Rightarrow> JInt n)) LIMITS)"

definition issue_crit :: "issueInput \<Rightarrow> string list" where
  "issue_crit input =
     (if or_else (ii_audience input) [] \<noteq> [] then [''aud''] else []) @
     (if \<exists>l \<in> set LIMITS. ii_limits input l \<noteq> None then [''limits''] else [])"

definition token_header :: "licenseSigner \<Rightarrow> string \<Rightarrow> string list \<Rightarrow> json" where
  "token_header signer kind crit =
     obj [(''alg'', Some (JStr (sg_alg signer))), (''kid'', Some (JStr (sg_kid signer))),
          (''typ'', Some (JStr kind)), (''crit'', Some (strs crit))]"

definition license_payload :: "int \<Rightarrow> string \<Rightarrow> issueInput \<Rightarrow> json" where
  "license_payload now uuid input =
     obj [(''jti'', Some (JStr (issue_jti uuid input))),
          (''iss'', Some (JStr (or_else (ii_issuer input) ''https://licensing.tunnet.io''))),
          (''sub'', Some (JStr (ii_subject input))),
          (''aud'', Some (strs (or_else (ii_audience input) []))),
          (''tier'', Some (JStr (tier_name (ii_tier input)))),
          (''features'', Some (features_json (issue_features input))),
          (''limits'', Some (limits_json (ii_limits input))),
          (''iat'', Some (JInt (issue_iat now input))),
          (''nbf'', Some (JInt (or_else (ii_notBefore input) (issue_iat now input)))),
          (''exp'', Some (JInt (issue_exp now input))),
          (''grace'', Some (JInt (or_else (ii_graceDays input) 14 * 86400))),
          (''meta'', Some (labels_json (or_else (ii_meta input) [])))]"

definition signToken :: "licenseSigner \<Rightarrow> json \<Rightarrow> json \<Rightarrow> string" where
  "signToken signer header payload =
     (case buildSigningInput header payload of (msg, h, p) \<Rightarrow> assembleToken h p (sg_sign signer msg))"

definition issueLicense :: "int \<Rightarrow> string \<Rightarrow> issueInput \<Rightarrow> string + issued" where
  "issueLicense now uuid input =
     (if issue_exp now input \<le> issue_iat now input then Inl ''exp must be after iat''
      else Inr \<lparr>is_token = signToken (ii_signer input)
                  (token_header (ii_signer input) LICENSE_TYP (issue_crit input)) (license_payload now uuid input),
                is_jti = issue_jti uuid input, is_exp = issue_exp now input\<rparr>)"

definition issueRevocationList :: "int \<Rightarrow> licenseSigner \<Rightarrow> string list \<Rightarrow> int option \<Rightarrow> string" where
  "issueRevocationList now signer revoked issuedAt =
     signToken signer (token_header signer REVOCATION_TYP [])
       (obj [(''iat'', Some (JInt (or_else issuedAt now))), (''revoked'', Some (strs revoked))])"

section \<open>Signing and decoding\<close>

text \<open>The signer of a keyring entry: 64-byte signatures that the library's check accepts under the
  entry's public key, and the key's identifier and algorithm.\<close>

definition signer_ok ::
    "(nat list \<Rightarrow> nat list \<Rightarrow> nat list \<Rightarrow> bool option) \<Rightarrow> licenseSigner \<Rightarrow> trustedKey \<Rightarrow> bool" where
  "signer_ok ed_verify signer key =
     (sg_alg signer = ''Ed25519'' \<and> tk_alg key = ''Ed25519'' \<and> tk_status key \<noteq> KeyCompromised \<and>
      0 < length (sg_kid signer) \<and> length (sg_kid signer) \<le> 64 \<and>
      (\<forall>msg. length (sg_sign signer msg) = 64 \<and> (\<forall>b \<in> set (sg_sign signer msg). b < 256) \<and>
         ed_verify (sg_sign signer msg) msg (tk_publicKey key) = Some True))"

definition fits :: "licenseSigner \<Rightarrow> json \<Rightarrow> json \<Rightarrow> bool" where
  "fits signer header payload =
     (case buildSigningInput header payload of (msg, h, p) \<Rightarrow> token_fits h p (sg_sign signer msg))"

lemma map_of_obj_name:
  "map_of (map (\<lambda>x. (n x, v x)) xs) (n a) = (if a \<in> set xs then Some (v a) else None)" if "inj n"
  using that by (induction xs) (auto simp: inj_eq)

lemma json_strings_strs [simp]: "json_strings (map JStr xs) = Some xs"
  by (simp add: json_strings_def comp_def)

lemma parseHeader_token_header:
  assumes "sg_alg signer = ''Ed25519''" "0 < length (sg_kid signer)" "length (sg_kid signer) \<le> 64"
  shows "\<exists>hk. token_header signer kind crit = JObj hk \<and> json_wf (JObj hk) \<and>
    parseHeader hk = Inr \<lparr>hd_alg = ''Ed25519'', hd_kid = sg_kid signer, hd_typ = kind, hd_crit = crit\<rparr>"
proof -
  let ?hk = "members [(''alg'', Some (JStr (sg_alg signer))), (''kid'', Some (JStr (sg_kid signer))),
    (''typ'', Some (JStr kind)), (''crit'', Some (strs crit))]"
  have "json_wf (token_header signer kind crit)"
    unfolding token_header_def by (rule json_wf_obj) auto
  then have "json_wf (JObj ?hk)" by (simp only: token_header_def obj_def)
  then show ?thesis
    using assms by (intro exI [of _ ?hk]) (auto simp: token_header_def obj_def parseHeader_def strs_def)
qed

lemma decode_signToken:
  assumes sg: "signer_ok ed_verify signer key" and wf: "json_wf (JObj pk)"
    and fit: "fits signer (token_header signer kind crit) (JObj pk)"
  shows "\<exists>msg. decodeToken (signToken signer (token_header signer kind crit) (JObj pk)) =
    Inr \<lparr>tok_header = \<lparr>hd_alg = ''Ed25519'', hd_kid = sg_kid signer, hd_typ = kind, hd_crit = crit\<rparr>,
         tok_payload = pk, tok_signature = sg_sign signer msg, tok_signingInput = msg\<rparr>"
proof -
  obtain hk where hk: "token_header signer kind crit = JObj hk" "json_wf (JObj hk)"
    "parseHeader hk = Inr \<lparr>hd_alg = ''Ed25519'', hd_kid = sg_kid signer, hd_typ = kind, hd_crit = crit\<rparr>"
    using parseHeader_token_header [of signer kind crit] sg by (auto simp: signer_ok_def)
  obtain msg h p where b: "buildSigningInput (JObj hk) (JObj pk) = (msg, h, p)" by (metis prod_cases3)
  have "decodeToken (assembleToken h p (sg_sign signer msg)) =
      Inr \<lparr>tok_header = \<lparr>hd_alg = ''Ed25519'', hd_kid = sg_kid signer, hd_typ = kind, hd_crit = crit\<rparr>,
         tok_payload = pk, tok_signature = sg_sign signer msg, tok_signingInput = msg\<rparr>"
    by (rule decodeToken_assemble [OF hk(2) wf hk(3) _ _ b])
       (use sg fit in \<open>simp_all add: signer_ok_def fits_def hk(1) b\<close>)
  then show ?thesis by (intro exI [of _ msg]) (simp add: signToken_def hk(1) b)
qed

section \<open>The claims that are issued\<close>

definition safe_int :: "int \<Rightarrow> bool" where
  "safe_int i = (- MAX_SAFE_INTEGER \<le> i \<and> i \<le> MAX_SAFE_INTEGER)"

definition sized :: "nat \<Rightarrow> string \<Rightarrow> bool" where
  "sized m s = (0 < length s \<and> length s \<le> m)"

text \<open>The bounds that the verifier puts on the claims, stated for the input of the issuer.\<close>

definition issue_wf :: "int \<Rightarrow> string \<Rightarrow> issueInput \<Rightarrow> bool" where
  "issue_wf now uuid input =
     (sized 64 (issue_jti uuid input) \<and> sized 256 (or_else (ii_issuer input) ''https://licensing.tunnet.io'') \<and>
      sized 256 (ii_subject input) \<and> ii_tier input \<noteq> Community \<and>
      (\<forall>l n. ii_limits input l = Some n \<longrightarrow> 0 \<le> n \<and> safe_int n) \<and>
      safe_int (issue_iat now input) \<and> safe_int (issue_exp now input) \<and>
      safe_int (or_else (ii_notBefore input) (issue_iat now input)) \<and>
      0 \<le> or_else (ii_graceDays input) 14 \<and> or_else (ii_graceDays input) 14 \<le> 90 \<and>
      length (or_else (ii_audience input) []) \<le> 32 \<and> (\<forall>a \<in> set (or_else (ii_audience input) []). length a \<le> 64) \<and>
      labels_ok (or_else (ii_meta input) []) \<and> length (or_else (ii_meta input) []) \<le> 16 \<and>
      (\<forall>kv \<in> set (or_else (ii_meta input) []). length (snd kv) \<le> 256))"

definition issued_license :: "int \<Rightarrow> string \<Rightarrow> issueInput \<Rightarrow> license" where
  "issued_license now uuid input =
     \<lparr>lic_jti = issue_jti uuid input, lic_iss = or_else (ii_issuer input) ''https://licensing.tunnet.io'',
      lic_sub = ii_subject input, lic_aud = or_else (ii_audience input) [], lic_tier = ii_tier input,
      lic_features = issue_features input, lic_limits = ii_limits input, lic_iat = issue_iat now input,
      lic_nbf = or_else (ii_notBefore input) (issue_iat now input), lic_exp = issue_exp now input,
      lic_grace = or_else (ii_graceDays input) 14 * 86400, lic_meta = or_else (ii_meta input) [],
      lic_kid = sg_kid (ii_signer input)\<rparr>"

lemma parseFeatures_json: "parseFeatures (Some (features_json fm)) = Some fm"
proof -
  have "inj feature_name" by (simp add: inj_def)
  note look = map_of_obj_name [OF this, of "\<lambda>f. JBool (fm f)" FEATURES]
  show ?thesis unfolding parseFeatures_def features_json_def by (simp add: look)
qed

lemma parseLimits_json:
  assumes "\<forall>l n. lm l = Some n \<longrightarrow> 0 \<le> n \<and> safe_int n"
  shows "parseLimits (Some (limits_json lm)) = Some lm"
proof -
  have "inj limit_name" by (simp add: inj_def)
  note look = map_of_obj_name [OF this, of "\<lambda>l. case lm l of None \<Rightarrow> JNull | Some n \<Rightarrow> JInt n" LIMITS]
  have "limit_value (Some (case lm l of None \<Rightarrow> JNull | Some n \<Rightarrow> JInt n)) = Some (lm l)" for l
    using assms by (cases "lm l") (force simp: limit_value_def safe_int_def)+
  then show ?thesis unfolding parseLimits_def limits_json_def by (simp add: look)
qed

lemma parseMeta_json:
  "length m \<le> 16 \<Longrightarrow> \<forall>kv \<in> set m. length (snd kv) \<le> 256 \<Longrightarrow> parseMeta (Some (labels_json m)) = Some m"
  by (auto simp: parseMeta_def labels_json_def comp_def)

lemma parseAud_json: "length xs \<le> 32 \<Longrightarrow> \<forall>a \<in> set xs. length a \<le> 64 \<Longrightarrow> parseAud (Some (strs xs)) = Some xs"
  by (simp add: parseAud_def strs_def)

lemma parseTierClaim_name: "t \<noteq> Community \<Longrightarrow> parseTierClaim (Some (JStr (tier_name t))) = Some t"
  using tier_codec.dec_enc [of t] by (simp add: parseTierClaim_def)

lemma fields_wf: "json_wf (features_json fm)" "json_wf (limits_json lm)"
proof -
  have "\<not> is_index (feature_name f)" "\<not> is_index (limit_name l)" for f l
    by (cases f; simp) (cases l; simp)
  then have "prop_order (map (\<lambda>f. (feature_name f, JBool (fm f))) FEATURES) = map (\<lambda>f. (feature_name f, JBool (fm f))) FEATURES"
    "prop_order (map (\<lambda>l. (limit_name l, case lm l of None \<Rightarrow> JNull | Some n \<Rightarrow> JInt n)) LIMITS) =
       map (\<lambda>l. (limit_name l, case lm l of None \<Rightarrow> JNull | Some n \<Rightarrow> JInt n)) LIMITS"
    by (auto intro!: prop_order_names)
  moreover have "distinct (map feature_name FEATURES)" "distinct (map limit_name LIMITS)"
    by (simp_all add: FEATURES_def LIMITS_def)
  ultimately show "json_wf (features_json fm)" "json_wf (limits_json lm)"
    by (auto simp: features_json_def limits_json_def comp_def split: option.splits)
qed

lemma license_payload_parses:
  assumes "issue_wf now uuid input" "issue_iat now input < issue_exp now input"
  shows "\<exists>pk. license_payload now uuid input = JObj pk \<and> json_wf (JObj pk) \<and>
    parseClaims (sg_kid (ii_signer input)) pk = Some (issued_license now uuid input)"
proof -
  obtain pk where pk: "license_payload now uuid input = JObj pk" by (simp add: license_payload_def obj_def)
  have wf: "json_wf (license_payload now uuid input)"
    unfolding license_payload_def
    by (rule json_wf_obj) (use assms(1) in \<open>auto simp: fields_wf labels_json_wf issue_wf_def\<close>)
  have get: "map_of pk ''jti'' = Some (JStr (issue_jti uuid input))"
    "map_of pk ''iss'' = Some (JStr (or_else (ii_issuer input) ''https://licensing.tunnet.io''))"
    "map_of pk ''sub'' = Some (JStr (ii_subject input))"
    "map_of pk ''aud'' = Some (strs (or_else (ii_audience input) []))"
    "map_of pk ''tier'' = Some (JStr (tier_name (ii_tier input)))"
    "map_of pk ''features'' = Some (features_json (issue_features input))"
    "map_of pk ''limits'' = Some (limits_json (ii_limits input))"
    "map_of pk ''iat'' = Some (JInt (issue_iat now input))"
    "map_of pk ''nbf'' = Some (JInt (or_else (ii_notBefore input) (issue_iat now input)))"
    "map_of pk ''exp'' = Some (JInt (issue_exp now input))"
    "map_of pk ''grace'' = Some (JInt (or_else (ii_graceDays input) 14 * 86400))"
    "map_of pk ''meta'' = Some (labels_json (or_else (ii_meta input) []))"
    using pk by (auto simp: license_payload_def obj_def)
  have grace: "safe_int (or_else (ii_graceDays input) 14 * 86400)" "0 \<le> or_else (ii_graceDays input) 14 * 86400"
    "or_else (ii_graceDays input) 14 * 86400 \<le> 90 * 86400"
    using assms(1) by (auto simp: issue_wf_def safe_int_def MAX_SAFE_INTEGER_def)
  have "parseClaims (sg_kid (ii_signer input)) pk = Some (issued_license now uuid input)"
    using assms grace parseFeatures_json parseLimits_json [of "ii_limits input"] parseMeta_json parseAud_json
      parseTierClaim_name
    unfolding parseClaims_def Let_def get issue_wf_def sized_def safe_int_def
    by (simp add: issued_license_def)
  then show ?thesis using pk wf by auto
qed

section \<open>What is issued is accepted\<close>

text \<open>The options under which the round trip is stated accept the licence's issuer, audience and
  identifier, and hold the signer's key, valid at the time of issue.\<close>

definition accepting :: "(nat list \<Rightarrow> nat list \<Rightarrow> nat list \<Rightarrow> bool option) \<Rightarrow> verifyOptions \<Rightarrow> licenseSigner \<Rightarrow>
    license \<Rightarrow> bool" where
  "accepting ed_verify options signer lic =
     ((\<exists>key. keyring_get (vo_keyring options) (sg_kid signer) = Some key \<and> signer_ok ed_verify signer key \<and>
         tk_validFrom key \<le> lic_iat lic \<and> (case tk_validUntil key of Some u \<Rightarrow> lic_iat lic \<le> u | None \<Rightarrow> True)) \<and>
      (case vo_expectedIssuer options of Some i \<Rightarrow> i = [] \<or> lic_iss lic = i | None \<Rightarrow> True) \<and>
      (case vo_revokedIds options of Some ids \<Rightarrow> lic_jti lic \<notin> set ids | None \<Rightarrow> True) \<and>
      (lic_aud lic = [] \<or> (case vo_audience options of Some a \<Rightarrow> a \<noteq> [] \<and> a \<in> set (lic_aud lic) | None \<Rightarrow> False)))"

lemma issue_crit_understood: "\<forall>c \<in> set (issue_crit input). c \<in> set UNDERSTOOD_CRIT"
  by (auto simp: issue_crit_def UNDERSTOOD_CRIT_def)

lemma issue_vets:
  assumes wf: "issue_wf now uuid input" and issue: "issueLicense now uuid input = Inr tok"
    and acc: "accepting ed_verify options (ii_signer input) (issued_license now uuid input)"
    and fit: "fits (ii_signer input) (token_header (ii_signer input) LICENSE_TYP (issue_crit input))
      (license_payload now uuid input)"
  shows "\<exists>decoded. decodeToken (is_token tok) = Inr decoded \<and>
    vetToken ed_verify decoded options = Inr (issued_license now uuid input)"
proof -
  let ?lic = "issued_license now uuid input" and ?sg = "ii_signer input"
  have time: "issue_iat now input < issue_exp now input" using issue by (auto simp: issueLicense_def split: if_splits)
  obtain pk where pk: "license_payload now uuid input = JObj pk" "json_wf (JObj pk)"
    "parseClaims (sg_kid ?sg) pk = Some ?lic" using license_payload_parses [OF wf time] by blast
  from acc obtain key where key: "keyring_get (vo_keyring options) (sg_kid ?sg) = Some key" "signer_ok ed_verify ?sg key"
      "tk_validFrom key \<le> lic_iat ?lic" "case tk_validUntil key of Some u \<Rightarrow> lic_iat ?lic \<le> u | None \<Rightarrow> True"
    and addr: "case vo_expectedIssuer options of Some i \<Rightarrow> i = [] \<or> lic_iss ?lic = i | None \<Rightarrow> True"
      "case vo_revokedIds options of Some ids \<Rightarrow> lic_jti ?lic \<notin> set ids | None \<Rightarrow> True"
      "lic_aud ?lic = [] \<or> (case vo_audience options of Some a \<Rightarrow> a \<noteq> [] \<and> a \<in> set (lic_aud ?lic) | None \<Rightarrow> False)"
    by (auto simp: accepting_def)
  have tok: "is_token tok = signToken ?sg (token_header ?sg LICENSE_TYP (issue_crit input)) (JObj pk)"
    using issue pk(1) by (auto simp: issueLicense_def split: if_splits)
  from decode_signToken [OF key(2) pk(2) fit [unfolded pk(1)]] obtain msg where
    dec: "decodeToken (is_token tok) = Inr \<lparr>tok_header = \<lparr>hd_alg = ''Ed25519'', hd_kid = sg_kid ?sg,
        hd_typ = LICENSE_TYP, hd_crit = issue_crit input\<rparr>,
      tok_payload = pk, tok_signature = sg_sign ?sg msg, tok_signingInput = msg\<rparr>"
    (is "_ = Inr ?d") unfolding tok by blast
  have "vetToken ed_verify ?d options = Inr ?lic"
    using key addr pk(3) issue_crit_understood [of input]
    unfolding vetToken_def Let_def guard_Inr_iff lookup_Inr_iff
    by (auto simp: signer_ok_def split: option.splits)
  then show ?thesis using dec by blast
qed

lemma fits_short:
  assumes "signer_ok ed_verify signer key" "length (stringify header) \<le> 700" "length (stringify payload) \<le> 1400"
  shows "fits signer header payload"
proof -
  obtain msg h p where b: "buildSigningInput header payload = (msg, h, p)" by (metis prod_cases3)
  then show ?thesis
    using assms token_fits_short [OF b _ _ assms(2,3)] by (simp add: fits_def signer_ok_def)
qed

lemma revocation_entries_strs: "revocation_set (map JStr ids) = Some (uniq ids)"
  by (simp add: revocation_set_def comp_def)

section \<open>Properties\<close>

definition ex_signer :: licenseSigner where
  "ex_signer = \<lparr>sg_kid = ''k1'', sg_alg = ''Ed25519'', sg_sign = (\<lambda>msg. replicate 64 (length msg mod 256))\<rparr>"

definition ex_ed_verify :: "nat list \<Rightarrow> nat list \<Rightarrow> nat list \<Rightarrow> bool option" where
  "ex_ed_verify sig msg pk = Some (sig = replicate 64 (length msg mod 256) \<and> length pk = 32)"

definition ex_key :: trustedKey where
  "ex_key = \<lparr>tk_kid = ''k1'', tk_alg = ''Ed25519'', tk_publicKey = replicate 32 7, tk_validFrom = 0,
     tk_validUntil = None, tk_status = KeyActive\<rparr>"

definition ex_input :: issueInput where
  "ex_input = \<lparr>ii_signer = ex_signer, ii_tier = Enterprise, ii_subject = ''acme'', ii_issuer = Some ''i'',
     ii_licenseId = Some ''lic_1'', ii_expiresInDays = None, ii_issuedAt = Some 1000, ii_notBefore = None,
     ii_graceDays = None, ii_audience = None, ii_featureOverrides = (\<lambda>_. None),
     ii_limits = (\<lambda>l. if l = Nodes then Some 5 else None), ii_meta = None\<rparr>"

definition ex_options :: "int \<Rightarrow> verifyOptions" where
  "ex_options now = \<lparr>vo_keyring = [(''k1'', ex_key)], vo_now = now, vo_clockSkewSec = None, vo_audience = None,
     vo_expectedIssuer = Some ''i'', vo_revokedIds = None\<rparr>"

lemma ex_signer_ok: "signer_ok ex_ed_verify ex_signer ex_key"
  by (simp add: signer_ok_def ex_ed_verify_def ex_signer_def ex_key_def)

lemma ex_issue_wf: "issue_wf 0 [] ex_input"
  by (simp add: issue_wf_def ex_input_def sized_def safe_int_def issue_jti_def issue_iat_def issue_exp_def
      MAX_SAFE_INTEGER_def labels_ok_def prop_order_def)

lemma ex_accepting: "accepting ex_ed_verify (ex_options 2000) (ii_signer ex_input) (issued_license 0 [] ex_input)"
  using ex_signer_ok
  by (simp add: accepting_def ex_options_def ex_input_def issued_license_def keyring_get_def ex_key_def ex_signer_def
      issue_iat_def)

lemma ex_in_time: "in_time (ex_options 2000) (issued_license 0 [] ex_input) StatusActive"
  by (simp add: in_time_def ex_options_def issued_license_def issue_iat_def issue_exp_def ex_input_def skew_of_def
      DEFAULT_CLOCK_SKEW_SEC_def)

lemma ex_fits: "fits (ii_signer ex_input) (token_header (ii_signer ex_input) LICENSE_TYP (issue_crit ex_input))
    (license_payload 0 [] ex_input)"
proof (rule fits_short)
  show "signer_ok ex_ed_verify (ii_signer ex_input) ex_key" using ex_signer_ok by (simp add: ex_input_def)
  show "length (stringify (token_header (ii_signer ex_input) LICENSE_TYP (issue_crit ex_input))) \<le> 700" by code_simp
  show "length (stringify (license_payload 0 [] ex_input)) \<le> 1400"
    by (simp add: license_payload_def obj_def ex_input_def issue_jti_def issue_iat_def issue_exp_def strs_def
        features_json_def limits_json_def labels_json_def FEATURES_def LIMITS_def quote_def esc_char_def Let_def code_unit_def
        show_int_def show_nat.simps)
qed

text \<open>
  C22. What the issuer issues the verifier accepts. For every input within the verifier's bounds, and
  every keyring that holds the signer's key, not compromised and valid at the time of issue, the
  verification of the issued token at any time from its start (up to the clock skew) to its expiry
  succeeds as active, and during the grace period as grace, with exactly the licence that was asked
  for: subject, tier, features, limits, audience, times and metadata. Signing is assumed to yield
  64-byte signatures that the verification accepts for the message they were made for.
\<close>

theorem issue_then_verify:
  assumes "issue_wf now uuid input" "issueLicense now uuid input = Inr tok"
    and "accepting ed_verify options (ii_signer input) (issued_license now uuid input)"
    and "fits (ii_signer input) (token_header (ii_signer input) LICENSE_TYP (issue_crit input))
      (license_payload now uuid input)"
    and "in_time options (issued_license now uuid input) status"
  shows "verifyLicenseToken ed_verify (is_token tok) options = Inr (issued_license now uuid input, status)"
  using issue_vets [OF assms(1-4)] assms(5) by (auto simp: verifyLicenseToken_accepts)

theorem issue_then_verify_witness:
  "\<exists>tok. issueLicense 0 [] ex_input = Inr tok \<and>
     verifyLicenseToken ex_ed_verify (is_token tok) (ex_options 2000) = Inr (issued_license 0 [] ex_input, StatusActive)"
proof -
  obtain tok where tok: "issueLicense 0 [] ex_input = Inr tok"
    by (simp add: issueLicense_def issue_exp_def issue_iat_def ex_input_def)
  show ?thesis using tok issue_then_verify [OF ex_issue_wf tok ex_accepting ex_fits ex_in_time] by blast
qed



end
