(* ===== verification/License_Manager.thy ===== *)
theory License_Manager
  imports License_Verify Json_Objects
begin

text \<open>
  The licence manager: packages/license/src/sources.ts, packages/license/src/manager.ts and
  packages/license/src/server.ts.

  The manager is a record of its private fields. What a refresh reads from the outside, the result of
  the licence source, the two readings of the clock, the result of the revocation source and whether
  the write of the state succeeds, is the record \<open>environment\<close>, an argument of the operations; Ed25519
  and SHA-256 are parameters as in the verifier. \<open>refresh\<close> shares one run among concurrent callers, so
  one run is one step. A listener is a number, and what it is called with is logged in
  \<open>mg_notified\<close>; an exception of a listener is swallowed by the code. Log lines are not modelled.

  A state store is used through the interface \<open>state_store\<close>, which the store in memory and the store
  in a file (whose text is JSON) both implement. \<open>managerStep\<close> is the step relation of a manager with
  crashes and restarts; the lemmas show that the entitlements it publishes are always justified by a
  verified token, and that turning the clock back does not revive an expired licence.
\<close>

section \<open>sources.ts\<close>

datatype sourceReason = SrcNotConfigured | SrcUnavailable | SrcTooLarge

type_synonym sourceResult = "sourceReason + string"

definition emptySource :: sourceResult where
  "emptySource = Inl SrcNotConfigured"

definition inlineSource :: "string \<Rightarrow> sourceResult" where
  "inlineSource token = Inr (trim token)"

text \<open>The argument is what reading the file yields, \<^const>\<open>None\<close> when it throws.\<close>

definition fileSource :: "string option \<Rightarrow> sourceResult" where
  "fileSource content = (case content of
       Some s \<Rightarrow> if MAX_TOKEN_CHARS < length s then Inl SrcTooLarge else Inr (trim s)
     | None \<Rightarrow> Inl SrcUnavailable)"

datatype httpResponse =
    FetchFailed
  | HttpStatus int
  | EmptyBody
  | HttpBody "nat list list"

fun readBody :: "nat list \<Rightarrow> nat list list \<Rightarrow> sourceReason + nat list" where
  "readBody buf [] = Inr buf"
| "readBody buf (chunk # chunks) =
     (if MAX_TOKEN_CHARS < length buf + length chunk then Inl SrcTooLarge else readBody (buf @ chunk) chunks)"

definition httpLoad :: "(nat list \<Rightarrow> string) \<Rightarrow> httpResponse \<Rightarrow> sourceResult" where
  "httpLoad textDecode res = (case res of
       FetchFailed \<Rightarrow> Inl SrcUnavailable
     | HttpStatus status \<Rightarrow> Inl SrcUnavailable
     | EmptyBody \<Rightarrow> Inl SrcUnavailable
     | HttpBody chunks \<Rightarrow> res_bind (readBody [] chunks) (\<lambda>buf. Inr (trim (textDecode buf))))"

datatype licenseSource =
    EmptySource
  | InlineSource string
  | HttpSource string
  | FileSource string

definition httpSource :: "(string \<Rightarrow> bool) \<Rightarrow> string \<Rightarrow> bool \<Rightarrow> string + licenseSource" where
  "httpSource validUrl url allowInsecure =
     (if \<not> validUrl url then Inl ''Invalid URL''
      else if \<not> startsWith (toLowerCase url) ''https:'' \<and> \<not> allowInsecure then
        Inl ''license URL must use https (set allowInsecure to override)''
      else Inr (HttpSource url))"

section \<open>server.ts\<close>

definition sourceFromEnv :: "(string \<Rightarrow> bool) \<Rightarrow> string option \<Rightarrow> bool \<Rightarrow> string + licenseSource" where
  "sourceFromEnv validUrl tunnetLicense allowInsecure = (case map_option trim tunnetLicense of
       None \<Rightarrow> Inr EmptySource
     | Some ref \<Rightarrow>
         if ref = [] then Inr EmptySource
         else if startsWith ref ''tnlic1.'' then Inr (InlineSource ref)
         else if startsWith (toLowerCase ref) ''http://'' \<or> startsWith (toLowerCase ref) ''https://''
         then httpSource validUrl ref allowInsecure
         else Inr (FileSource ref))"

record persistedState =
  ps_token :: "string option"
  ps_clockWatermark :: "int option"

definition state_json :: "persistedState \<Rightarrow> json" where
  "state_json s = obj [(''token'', map_option JStr (ps_token s)), (''clockWatermark'', map_option JInt (ps_clockWatermark s))]"

text \<open>The file of the state store: its content, \<^const>\<open>None\<close> when there is none. The rename makes a
  write atomic.\<close>

definition fileWrite :: "persistedState \<Rightarrow> string option \<Rightarrow> string option" where
  "fileWrite s _ = Some (stringify (state_json s))"

definition fileRead :: "string option \<Rightarrow> persistedState option" where
  "fileRead file = (case file of
       None \<Rightarrow> None
     | Some content \<Rightarrow>
         (case json_parse content of
            Some (JObj kvs) \<Rightarrow>
              Some \<lparr>ps_token = (case map_of kvs ''token'' of Some (JStr t) \<Rightarrow> Some t | _ \<Rightarrow> None),
                    ps_clockWatermark = (case map_of kvs ''clockWatermark'' of Some (JInt w) \<Rightarrow> Some w | _ \<Rightarrow> None)\<rparr>
          | _ \<Rightarrow> None))"

definition memoryWrite :: "persistedState \<Rightarrow> persistedState option \<Rightarrow> persistedState option" where
  "memoryWrite s _ = Some s"

definition memoryRead :: "persistedState option \<Rightarrow> persistedState option" where
  "memoryRead st = st"

section \<open>manager.ts\<close>

record managerOptions =
  mo_keyring :: keyring
  mo_deploymentId :: "string option"
  mo_expectedIssuer :: "string option"
  mo_clockSkewSec :: int

record 'st manager =
  mg_entitlements :: entitlements
  mg_listeners :: "nat list"
  mg_notified :: "(nat \<times> entitlements) list"
  mg_timer :: bool
  mg_stopped :: bool
  mg_watermark :: int
  mg_revoked :: "string list option"
  mg_store :: 'st

record environment =
  env_source :: sourceResult
  env_wall :: int
  env_revocation :: "sourceResult option"
  env_revocationNow :: int
  env_writeOk :: bool

text \<open>The third-party functions, and the store's two operations.\<close>

record 'st platform =
  pf_verify :: "nat list \<Rightarrow> nat list \<Rightarrow> nat list \<Rightarrow> bool option"
  pf_sha256 :: "nat list \<Rightarrow> nat list"
  pf_read :: "'st \<Rightarrow> persistedState option"
  pf_write :: "persistedState \<Rightarrow> 'st \<Rightarrow> 'st"

definition newManager :: "'st \<Rightarrow> 'st manager" where
  "newManager store = \<lparr>mg_entitlements = COMMUNITY_ENTITLEMENTS, mg_listeners = [], mg_notified = [], mg_timer = False,
     mg_stopped = False, mg_watermark = 0, mg_revoked = None, mg_store = store\<rparr>"

definition has :: "'st manager \<Rightarrow> feature \<Rightarrow> bool" where
  "has m f = ent_features (mg_entitlements m) f"

definition require :: "'st manager \<Rightarrow> feature \<Rightarrow> (feature \<times> licenseTier) + unit" where
  "require m f = (if \<not> has m f then Inl (f, ent_tier (mg_entitlements m)) else Inr ())"

text \<open>\<^const>\<open>None\<close> is positive infinity.\<close>

definition limit_of :: "'st manager \<Rightarrow> limit \<Rightarrow> int option" where
  "limit_of m l = ent_limits (mg_entitlements m) l"

definition requireWithin :: "'st manager \<Rightarrow> limit \<Rightarrow> int \<Rightarrow> (limit \<times> int \<times> int) + unit" where
  "requireWithin m l requested = (case limit_of m l of
       None \<Rightarrow> Inr ()
     | Some allowed \<Rightarrow> if requested > allowed then Inl (l, allowed, requested) else Inr ())"

definition subscribe :: "nat \<Rightarrow> 'st manager \<Rightarrow> 'st manager" where
  "subscribe fn m = m\<lparr>mg_listeners := (if fn \<in> set (mg_listeners m) then mg_listeners m else mg_listeners m @ [fn])\<rparr>"

definition unsubscribe :: "nat \<Rightarrow> 'st manager \<Rightarrow> 'st manager" where
  "unsubscribe fn m = m\<lparr>mg_listeners := removeAll fn (mg_listeners m)\<rparr>"

definition publish :: "entitlements \<Rightarrow> 'st manager \<Rightarrow> 'st manager" where
  "publish e m = m\<lparr>mg_entitlements := e, mg_notified := mg_notified m @ map (\<lambda>fn. (fn, e)) (mg_listeners m)\<rparr>"

definition persist :: "'st platform \<Rightarrow> environment \<Rightarrow> string \<Rightarrow> 'st manager \<Rightarrow> 'st manager" where
  "persist pf env token m =
     (if env_writeOk env
      then m\<lparr>mg_store := pf_write pf \<lparr>ps_token = Some token, ps_clockWatermark = Some (mg_watermark m)\<rparr> (mg_store m)\<rparr>
      else m)"

definition loadRevocations :: "'st platform \<Rightarrow> managerOptions \<Rightarrow> environment \<Rightarrow> 'st manager \<Rightarrow> 'st manager" where
  "loadRevocations pf opts env m = (case env_revocation env of
       None \<Rightarrow> m
     | Some (Inl _) \<Rightarrow> m
     | Some (Inr token) \<Rightarrow>
         (case parseRevocationList (pf_verify pf) token (mo_keyring opts) (env_revocationNow env) of
            Inl _ \<Rightarrow> m
          | Inr parsed \<Rightarrow> m\<lparr>mg_revoked := Some (rev_revoked parsed)\<rparr>))"

definition effectiveNow :: "managerOptions \<Rightarrow> int \<Rightarrow> int \<Rightarrow> int" where
  "effectiveNow opts wall watermark = (if wall + mo_clockSkewSec opts < watermark then watermark else wall)"

definition nextWatermark :: "managerOptions \<Rightarrow> int \<Rightarrow> int \<Rightarrow> int" where
  "nextWatermark opts wall watermark =
     (if wall + mo_clockSkewSec opts < watermark then watermark
      else if wall > watermark then wall else watermark)"

definition verifyOpts :: "'st platform \<Rightarrow> managerOptions \<Rightarrow> int \<Rightarrow> string list option \<Rightarrow> verifyOptions" where
  "verifyOpts pf opts now revoked = \<lparr>vo_keyring = mo_keyring opts, vo_now = now,
     vo_clockSkewSec = Some (mo_clockSkewSec opts),
     vo_audience = (case mo_deploymentId opts of
         Some d \<Rightarrow> if d = [] then None else Some (deploymentFingerprint (pf_sha256 pf) d) | None \<Rightarrow> None),
     vo_expectedIssuer = mo_expectedIssuer opts, vo_revokedIds = revoked\<rparr>"

definition evaluate ::
    "'st platform \<Rightarrow> managerOptions \<Rightarrow> environment \<Rightarrow> string \<Rightarrow> bool \<Rightarrow> 'st manager \<Rightarrow> entitlements \<times> 'st manager" where
  "evaluate pf opts env token stale m =
     (let wall = env_wall env;
          now = effectiveNow opts wall (mg_watermark m);
          m1 = m\<lparr>mg_watermark := nextWatermark opts wall (mg_watermark m)\<rparr>;
          m2 = loadRevocations pf opts env m1 in
      case verifyLicenseToken (pf_verify pf) token (verifyOpts pf opts now (mg_revoked m2)) of
        Inl code \<Rightarrow>
          (communityWithReason (Some (Failure code)) stale,
           if code = Expired then persist pf env token m2 else m2)
      | Inr (lic, status) \<Rightarrow> (entitlementsFrom lic status stale, persist pf env token m2))"

fun source_reason :: "sourceReason \<Rightarrow> string" where
  "source_reason SrcNotConfigured = ''not_configured''"
| "source_reason SrcUnavailable = ''unavailable''"
| "source_reason SrcTooLarge = ''too_large''"

text \<open>The branch of a refresh whose source is unavailable: the last known good token.\<close>

definition refreshFromCache ::
    "'st platform \<Rightarrow> managerOptions \<Rightarrow> environment \<Rightarrow> sourceReason \<Rightarrow> 'st manager \<Rightarrow> 'st manager" where
  "refreshFromCache pf opts env r m =
     (let token = (case Option.bind (pf_read pf (mg_store m)) ps_token of Some tok \<Rightarrow> tok | None \<Rightarrow> []) in
      if token = [] then publish (communityWithReason (Some (SourceReason (source_reason r))) True) m
      else case evaluate pf opts env token True m of (e, m') \<Rightarrow> publish e m')"

definition doRefresh :: "'st platform \<Rightarrow> managerOptions \<Rightarrow> environment \<Rightarrow> 'st manager \<Rightarrow> 'st manager" where
  "doRefresh pf opts env m = (case env_source env of
       Inr token \<Rightarrow> (case evaluate pf opts env token False m of (e, m') \<Rightarrow> publish e m')
     | Inl SrcNotConfigured \<Rightarrow> publish COMMUNITY_ENTITLEMENTS m
     | Inl r \<Rightarrow> refreshFromCache pf opts env r m)"

definition schedule :: "'st manager \<Rightarrow> 'st manager" where
  "schedule m = (if mg_stopped m then m else m\<lparr>mg_timer := True\<rparr>)"

definition start :: "'st platform \<Rightarrow> managerOptions \<Rightarrow> environment \<Rightarrow> 'st manager \<Rightarrow> 'st manager" where
  "start pf opts env m =
     (let persisted = pf_read pf (mg_store m);
          wm = (case Option.bind persisted ps_clockWatermark of Some w \<Rightarrow> w | None \<Rightarrow> 0) in
      schedule (doRefresh pf opts env (m\<lparr>mg_watermark := wm\<rparr>)))"

definition stop :: "'st manager \<Rightarrow> 'st manager" where
  "stop m = m\<lparr>mg_stopped := True, mg_timer := False, mg_listeners := []\<rparr>"

text \<open>The timer fires: it is used up, the refresh runs and the timer is set again.\<close>

definition timerFires :: "'st platform \<Rightarrow> managerOptions \<Rightarrow> environment \<Rightarrow> 'st manager \<Rightarrow> 'st manager" where
  "timerFires pf opts env m = schedule (doRefresh pf opts env (m\<lparr>mg_timer := False\<rparr>))"

text \<open>What can happen to a manager, including the end of its process and the start of a new one on the
  same store.\<close>

datatype managerOp =
    OpStart environment
  | OpRefresh environment
  | OpTimer environment
  | OpStop
  | OpSubscribe nat
  | OpUnsubscribe nat
  | OpCrash

inductive managerStep :: "'st platform \<Rightarrow> managerOptions \<Rightarrow> 'st manager \<Rightarrow> managerOp \<Rightarrow> 'st manager \<Rightarrow> bool"
  for pf opts where
    Start: "managerStep pf opts m (OpStart env) (start pf opts env m)"
  | Refresh: "managerStep pf opts m (OpRefresh env) (doRefresh pf opts env m)"
  | Timer: "mg_timer m \<Longrightarrow> managerStep pf opts m (OpTimer env) (timerFires pf opts env m)"
  | Stop: "managerStep pf opts m OpStop (stop m)"
  | Subscribe: "managerStep pf opts m (OpSubscribe fn) (subscribe fn m)"
  | Unsubscribe: "managerStep pf opts m (OpUnsubscribe fn) (unsubscribe fn m)"
  | Crash: "managerStep pf opts m OpCrash (newManager (mg_store m))"

inductive_cases managerStep_cases: "managerStep pf opts m op m'"

inductive reachable :: "'st platform \<Rightarrow> managerOptions \<Rightarrow> 'st \<Rightarrow> 'st manager \<Rightarrow> bool"
  for pf opts store where
    Init: "reachable pf opts store (newManager store)"
  | Step: "reachable pf opts store m \<Longrightarrow> managerStep pf opts m op m' \<Longrightarrow> reachable pf opts store m'"

section \<open>The fields an operation leaves alone\<close>

lemma loadRevocations_fields [simp]:
  "mg_watermark (loadRevocations pf opts env m) = mg_watermark m"
  "mg_store (loadRevocations pf opts env m) = mg_store m"
  "mg_stopped (loadRevocations pf opts env m) = mg_stopped m"
  "mg_timer (loadRevocations pf opts env m) = mg_timer m"
  by (simp_all add: loadRevocations_def split: option.splits sum.splits)

lemma persist_fields [simp]:
  "mg_watermark (persist pf env token m) = mg_watermark m" "mg_revoked (persist pf env token m) = mg_revoked m"
  "mg_stopped (persist pf env token m) = mg_stopped m" "mg_timer (persist pf env token m) = mg_timer m"
  by (simp_all add: persist_def)

lemma publish_fields [simp]:
  "mg_entitlements (publish e m) = e" "mg_watermark (publish e m) = mg_watermark m"
  "mg_store (publish e m) = mg_store m" "mg_stopped (publish e m) = mg_stopped m"
  "mg_timer (publish e m) = mg_timer m" "mg_revoked (publish e m) = mg_revoked m"
  by (simp_all add: publish_def)

lemma schedule_fields [simp]:
  "mg_entitlements (schedule m) = mg_entitlements m" "mg_watermark (schedule m) = mg_watermark m"
  "mg_store (schedule m) = mg_store m" "mg_stopped (schedule m) = mg_stopped m"
  by (simp_all add: schedule_def)

section \<open>Entitlements\<close>

definition community :: "entitlements \<Rightarrow> bool" where
  "community e = (ent_status e = StatusCommunity \<and> ent_tier e = Community \<and> (\<forall>f. \<not> ent_features e f) \<and>
     ent_licenseId e = None)"

lemma community_COMMUNITY [simp]: "community COMMUNITY_ENTITLEMENTS"
  by (simp add: community_def COMMUNITY_ENTITLEMENTS_def featureMap_def)

lemma community_withReason [simp]: "community (communityWithReason r stale)"
  by (simp add: community_def communityWithReason_def COMMUNITY_ENTITLEMENTS_def featureMap_def)

text \<open>The entitlements are those of a token that verification accepted at a time that is at most the
  clock skew behind the watermark.\<close>

definition licensed :: "'st platform \<Rightarrow> managerOptions \<Rightarrow> int \<Rightarrow> entitlements \<Rightarrow> bool" where
  "licensed pf opts watermark e = (\<exists>token lic status stale now revoked.
     verifyLicenseToken (pf_verify pf) token (verifyOpts pf opts now revoked) = Inr (lic, status) \<and>
     e = entitlementsFrom lic status stale \<and> watermark \<le> now + mo_clockSkewSec opts)"

definition justified :: "'st platform \<Rightarrow> managerOptions \<Rightarrow> 'st manager \<Rightarrow> bool" where
  "justified pf opts m = (community (mg_entitlements m) \<or> licensed pf opts (mg_watermark m) (mg_entitlements m))"

lemma watermark_effective:
  "0 \<le> mo_clockSkewSec opts \<Longrightarrow> nextWatermark opts wall w \<le> effectiveNow opts wall w + mo_clockSkewSec opts"
  by (simp add: nextWatermark_def effectiveNow_def)

lemma watermark_grows: "w \<le> nextWatermark opts wall w"
  by (simp add: nextWatermark_def)

lemma evaluate_watermark: "mg_watermark (snd (evaluate pf opts env token stale m)) = nextWatermark opts (env_wall env) (mg_watermark m)"
  by (simp add: evaluate_def Let_def split: sum.splits)

lemma evaluate_entitled:
  assumes "0 \<le> mo_clockSkewSec opts"
  shows "community (fst (evaluate pf opts env token stale m)) \<or>
    licensed pf opts (mg_watermark (snd (evaluate pf opts env token stale m))) (fst (evaluate pf opts env token stale m))"
proof -
  let ?now = "effectiveNow opts (env_wall env) (mg_watermark m)"
  let ?m1 = "m\<lparr>mg_watermark := nextWatermark opts (env_wall env) (mg_watermark m)\<rparr>"
  let ?rev = "mg_revoked (loadRevocations pf opts env ?m1)"
  show ?thesis
  proof (cases "verifyLicenseToken (pf_verify pf) token (verifyOpts pf opts ?now ?rev)")
    case (Inl code)
    then show ?thesis by (simp add: evaluate_def Let_def)
  next
    case (Inr ls)
    then obtain lic status where ok:
      "verifyLicenseToken (pf_verify pf) token (verifyOpts pf opts ?now ?rev) = Inr (lic, status)" by (cases ls) auto
    then have "fst (evaluate pf opts env token stale m) = entitlementsFrom lic status stale"
      by (simp add: evaluate_def Let_def)
    then show ?thesis
      using ok watermark_effective [OF assms] unfolding evaluate_watermark licensed_def by blast
  qed
qed

text \<open>Every refresh publishes: community entitlements, or those of a verified token.\<close>

lemma refreshFromCache_publishes:
  "(\<exists>e. refreshFromCache pf opts env r m = publish e m \<and> community e) \<or>
   (\<exists>token stale. refreshFromCache pf opts env r m =
      publish (fst (evaluate pf opts env token stale m)) (snd (evaluate pf opts env token stale m)))"
  unfolding refreshFromCache_def Let_def case_prod_unfold using community_withReason by auto

lemma doRefresh_publishes:
  "(\<exists>e. doRefresh pf opts env m = publish e m \<and> community e) \<or>
   (\<exists>token stale. doRefresh pf opts env m =
      publish (fst (evaluate pf opts env token stale m)) (snd (evaluate pf opts env token stale m)))"
proof (cases "env_source env")
  case (Inl r)
  then show ?thesis
    using refreshFromCache_publishes [of pf opts env r m] by (cases r) (auto simp: doRefresh_def)
next
  case (Inr token)
  then show ?thesis by (auto simp: doRefresh_def case_prod_unfold)
qed

lemma doRefresh_justified: "0 \<le> mo_clockSkewSec opts \<Longrightarrow> justified pf opts (doRefresh pf opts env m)"
  using doRefresh_publishes [of pf opts env m] evaluate_entitled [of opts pf env _ _ m] unfolding justified_def
  by (metis publish_fields(1,2))

lemma doRefresh_watermark: "mg_watermark m \<le> mg_watermark (doRefresh pf opts env m)"
  using doRefresh_publishes [of pf opts env m] by (auto simp: evaluate_watermark watermark_grows)

lemma doRefresh_stopped: "mg_stopped (doRefresh pf opts env m) = mg_stopped m"
    "mg_timer (doRefresh pf opts env m) = mg_timer m"
proof -
  have "mg_stopped (snd (evaluate pf opts env token stale m)) = mg_stopped m"
    "mg_timer (snd (evaluate pf opts env token stale m)) = mg_timer m" for token stale
    by (simp_all add: evaluate_def Let_def split: sum.splits)
  then show "mg_stopped (doRefresh pf opts env m) = mg_stopped m" "mg_timer (doRefresh pf opts env m) = mg_timer m"
    using doRefresh_publishes [of pf opts env m] by auto
qed

section \<open>Invariants of the reachable states\<close>

lemma justified_step:
  assumes "0 \<le> mo_clockSkewSec opts" "justified pf opts m" "managerStep pf opts m op m'"
  shows "justified pf opts m'"
  using assms(3)
proof cases
  case (Start env)
  then show ?thesis using doRefresh_justified [OF assms(1)] by (simp add: start_def Let_def justified_def)
next
  case (Timer env)
  then show ?thesis using doRefresh_justified [OF assms(1)] by (simp add: timerFires_def justified_def)
next
  case (Crash)
  then show ?thesis by (simp add: newManager_def justified_def)
qed (use assms doRefresh_justified in \<open>simp_all add: justified_def stop_def subscribe_def unsubscribe_def\<close>)

lemma reachable_justified:
  "reachable pf opts store m \<Longrightarrow> 0 \<le> mo_clockSkewSec opts \<Longrightarrow> justified pf opts m"
proof (induction rule: reachable.induct)
  case Init
  then show ?case by (simp add: newManager_def justified_def)
next
  case (Step m op m')
  then show ?case using justified_step by blast
qed

text \<open>A stopped manager has no timer.\<close>

lemma stopped_step:
  "mg_stopped m \<longrightarrow> \<not> mg_timer m \<Longrightarrow> managerStep pf opts m op m' \<Longrightarrow> mg_stopped m' \<longrightarrow> \<not> mg_timer m'"
  by (erule managerStep_cases)
     (auto simp: start_def Let_def timerFires_def schedule_def doRefresh_stopped stop_def subscribe_def unsubscribe_def
        newManager_def)

lemma reachable_stopped: "reachable pf opts store m \<Longrightarrow> mg_stopped m \<longrightarrow> \<not> mg_timer m"
proof (induction rule: reachable.induct)
  case Init
  then show ?case by (simp add: newManager_def)
next
  case (Step m op m')
  then show ?case using stopped_step by blast
qed

section \<open>The state store\<close>

locale state_store =
  fixes pf :: "'st platform"
  assumes read_write: "pf_read pf (pf_write pf p st) = Some p"
begin

lemma persist_read:
  "env_writeOk env \<Longrightarrow> pf_read pf (mg_store (persist pf env token m)) =
     Some \<lparr>ps_token = Some token, ps_clockWatermark = Some (mg_watermark m)\<rparr>"
  by (simp add: persist_def read_write)

lemma evaluate_persists:
  assumes "env_writeOk env" "\<not> community (fst (evaluate pf opts env token stale m))"
  shows "pf_read pf (mg_store (snd (evaluate pf opts env token stale m))) =
    Some \<lparr>ps_token = Some token, ps_clockWatermark = Some (mg_watermark (snd (evaluate pf opts env token stale m)))\<rparr>"
  using assms persist_read by (auto simp: evaluate_def Let_def split: sum.splits)

text \<open>A refresh that publishes a licence leaves the watermark in the store.\<close>

lemma refresh_persists:
  assumes "env_writeOk env" "\<not> community (mg_entitlements (doRefresh pf opts env m))"
  shows "\<exists>token. pf_read pf (mg_store (doRefresh pf opts env m)) =
    Some \<lparr>ps_token = Some token, ps_clockWatermark = Some (mg_watermark (doRefresh pf opts env m))\<rparr>"
  using assms doRefresh_publishes [of pf opts env m] evaluate_persists by auto

text \<open>A new manager on that store starts from that watermark.\<close>

lemma restart_watermark:
  assumes "env_writeOk env" "\<not> community (mg_entitlements (doRefresh pf opts env m))"
  shows "start pf opts env' (newManager (mg_store (doRefresh pf opts env m))) =
    schedule (doRefresh pf opts env' ((newManager (mg_store (doRefresh pf opts env m)))
      \<lparr>mg_watermark := mg_watermark (doRefresh pf opts env m)\<rparr>))"
  using refresh_persists [OF assms] by (auto simp: start_def newManager_def)

end

definition file_platform ::
    "(nat list \<Rightarrow> nat list \<Rightarrow> nat list \<Rightarrow> bool option) \<Rightarrow> (nat list \<Rightarrow> nat list) \<Rightarrow> string option platform" where
  "file_platform ed sha = \<lparr>pf_verify = ed, pf_sha256 = sha, pf_read = fileRead, pf_write = fileWrite\<rparr>"

definition memory_platform ::
    "(nat list \<Rightarrow> nat list \<Rightarrow> nat list \<Rightarrow> bool option) \<Rightarrow> (nat list \<Rightarrow> nat list) \<Rightarrow> persistedState option platform" where
  "memory_platform ed sha = \<lparr>pf_verify = ed, pf_sha256 = sha, pf_read = memoryRead, pf_write = memoryWrite\<rparr>"

lemma fileRead_fileWrite: "fileRead (fileWrite p st) = Some p"
proof -
  have "json_wf (state_json p)"
    unfolding state_json_def by (rule json_wf_obj) (cases "ps_token p"; cases "ps_clockWatermark p"; auto)+
  then have "json_parse (stringify (state_json p)) = Some (state_json p)" by (rule parse_stringify)
  moreover obtain kvs where kvs: "state_json p = JObj kvs" by (simp add: state_json_def obj_def)
  moreover have "map_of kvs ''token'' = map_option JStr (ps_token p)"
    "map_of kvs ''clockWatermark'' = map_option JInt (ps_clockWatermark p)"
    using kvs map_of_members [of "[(''token'', map_option JStr (ps_token p)), (''clockWatermark'', map_option JInt (ps_clockWatermark p))]"]
    by (auto simp: state_json_def obj_def)
  ultimately show ?thesis
    by (cases p; cases "ps_token p"; cases "ps_clockWatermark p") (simp_all add: fileRead_def fileWrite_def)
qed

interpretation file_store: state_store "file_platform ed sha" for ed sha
  by unfold_locales (simp add: file_platform_def fileRead_fileWrite)

interpretation memory_store: state_store "memory_platform ed sha" for ed sha
  by unfold_locales (simp add: memory_platform_def memoryRead_def memoryWrite_def)

section \<open>The end of validity\<close>

definition validity_end :: "entitlements \<Rightarrow> int option" where
  "validity_end e = (case ent_graceUntil e of Some g \<Rightarrow> Some g | None \<Rightarrow> ent_notAfter e)"

lemma licensed_end:
  assumes "licensed pf opts w e"
  shows "\<exists>x. validity_end e = Some x \<and> w - 2 * mo_clockSkewSec opts < x"
proof -
  from assms obtain token lic status stale now revoked where
    v: "verifyLicenseToken (pf_verify pf) token (verifyOpts pf opts now revoked) = Inr (lic, status)"
    and e: "e = entitlementsFrom lic status stale" and w: "w \<le> now + mo_clockSkewSec opts"
    by (auto simp: licensed_def)
  from v vetToken_accepts have "claims_ok lic" "in_time (verifyOpts pf opts now revoked) lic status"
    unfolding verifyLicenseToken_accepts by blast+
  then have "now - mo_clockSkewSec opts < lic_exp lic + lic_grace lic" "0 \<le> lic_grace lic"
    by (auto simp: claims_ok_def in_time_def verifyOpts_def skew_of_def Let_def)
  then show ?thesis using w by (auto simp: e validity_end_def entitlementsFrom_def)
qed

lemma doRefresh_wall:
  assumes "0 \<le> mo_clockSkewSec opts" "\<not> community (mg_entitlements (doRefresh pf opts env m))"
  shows "env_wall env \<le> mg_watermark (doRefresh pf opts env m)"
proof -
  obtain token stale where "doRefresh pf opts env m =
      publish (fst (evaluate pf opts env token stale m)) (snd (evaluate pf opts env token stale m))"
    using assms(2) doRefresh_publishes [of pf opts env m] by auto
  then show ?thesis using assms(1) by (simp add: evaluate_watermark nextWatermark_def)
qed

section \<open>Properties\<close>

definition ex_mo :: managerOptions where
  "ex_mo = \<lparr>mo_keyring = vo_keyring (ex_opts 0), mo_deploymentId = None, mo_expectedIssuer = None, mo_clockSkewSec = 0\<rparr>"

definition ex_env :: "sourceResult \<Rightarrow> int \<Rightarrow> environment" where
  "ex_env src wall = \<lparr>env_source = src, env_wall = wall, env_revocation = None, env_revocationNow = wall, env_writeOk = True\<rparr>"

definition ex_pf :: "string option platform" where
  "ex_pf = file_platform ex_check (\<lambda>bs. bs)"

lemma ex_evaluate:
  assumes "effectiveNow ex_mo (env_wall env) (mg_watermark m) = 50" "env_revocation env = None" "mg_revoked m = None"
  shows "\<not> community (fst (evaluate ex_pf ex_mo env ex_token stale m))"
proof -
  have "is_ok (verifyDecoded ex_check (ex_decoded []) (verifyOpts ex_pf ex_mo 50 None))" by code_simp
  then obtain lic status where
    "verifyLicenseToken (pf_verify ex_pf) ex_token (verifyOpts ex_pf ex_mo 50 None) = Inr (lic, status)"
    by (auto simp: is_ok_iff verify_ex_token ex_pf_def file_platform_def)
  then show ?thesis
    using assms by (simp add: evaluate_def Let_def loadRevocations_def entitlementsFrom_def community_def)
qed

lemma ex_refresh: "\<not> community (mg_entitlements (doRefresh ex_pf ex_mo (ex_env (Inr ex_token) 50) (newManager None)))"
  using ex_evaluate [of "ex_env (Inr ex_token) 50" "newManager None" False]
  by (simp add: doRefresh_def ex_env_def newManager_def effectiveNow_def ex_mo_def case_prod_unfold)

lemma ex_restart: "\<not> community (mg_entitlements (start ex_pf ex_mo (ex_env (Inr ex_token) 10)
    (newManager (mg_store (doRefresh ex_pf ex_mo (ex_env (Inr ex_token) 50) (newManager None))))))"
proof -
  let ?m = "doRefresh ex_pf ex_mo (ex_env (Inr ex_token) 50) (newManager None)"
  have w: "mg_watermark ?m = 50"
    by (simp add: doRefresh_def ex_env_def case_prod_unfold evaluate_watermark newManager_def nextWatermark_def ex_mo_def)
  have "start ex_pf ex_mo (ex_env (Inr ex_token) 10) (newManager (mg_store ?m)) =
      schedule (doRefresh ex_pf ex_mo (ex_env (Inr ex_token) 10) ((newManager (mg_store ?m))\<lparr>mg_watermark := 50\<rparr>))"
    using file_store.restart_watermark [of "ex_env (Inr ex_token) 50"] ex_refresh w
    by (simp add: ex_pf_def ex_env_def)
  then show ?thesis
    using ex_evaluate [of "ex_env (Inr ex_token) 10" "(newManager (mg_store ?m))\<lparr>mg_watermark := 50\<rparr>" False]
    by (simp add: doRefresh_def ex_env_def newManager_def effectiveNow_def ex_mo_def case_prod_unfold)
qed

text \<open>
  C24. In every state that a manager can reach, through starts, refreshes, timers, subscriptions,
  stops and restarts on the same store, whatever the sources answer and the clock shows, the published
  entitlements are either the community ones, with no feature at all, or exactly those of a token that
  the verifier accepted, at a time that is at most the clock skew behind the watermark.
\<close>

theorem entitlements_justified:
  assumes "reachable pf opts store m" "0 \<le> mo_clockSkewSec opts"
  shows "community (mg_entitlements m) \<or> licensed pf opts (mg_watermark m) (mg_entitlements m)"
  using reachable_justified [OF assms] by (simp add: justified_def)

theorem entitlements_justified_witness:
  "\<exists>m. reachable ex_pf ex_mo None m \<and> licensed ex_pf ex_mo (mg_watermark m) (mg_entitlements m)"
proof -
  let ?m = "doRefresh ex_pf ex_mo (ex_env (Inr ex_token) 50) (newManager None)"
  have r: "reachable ex_pf ex_mo None ?m" by (rule Step [OF Init Refresh])
  have "0 \<le> mo_clockSkewSec ex_mo" by (simp add: ex_mo_def)
  then show ?thesis using r entitlements_justified [OF r] ex_refresh by blast
qed



end
