(* ===== verification/Billing_Plans.thy ===== *)
theory Billing_Plans
  imports Json
begin

text \<open>
  The subscription plans (packages/api/src/billing/plans.ts): the table of plans with limits, prices
  and features, the table of required plans, and every function on them. The ids that reach these
  functions come from JSON columns with an unchecked cast, so an id is any JSON value here: a property
  is looked up by the text of the value, a list of ids is searched for the value itself. The names that
  every object inherits (such as "constructor") are not keys of the table here. The first part translates the source, the second shows that the two tables agree, that limits
  grow with the seats, and that the plan suggested for a number of machines is the first that fits.
\<close>

section \<open>Values as keys and conditions\<close>

fun property_key :: "json \<Rightarrow> string" where
  "property_key JNull = ''null''"
| "property_key (JBool b) = (if b then ''true'' else ''false'')"
| "property_key (JInt i) = show_int i"
| "property_key (JFrac s) = s"
| "property_key (JStr s) = s"
| "property_key (JArr vs) = join '','' (map (\<lambda>v. if v = JNull then [] else property_key v) vs)"
| "property_key (JObj _) = ''[object Object]''"

fun truthy :: "json \<Rightarrow> bool" where
  "truthy JNull = False"
| "truthy (JBool b) = b"
| "truthy (JInt i) = (i \<noteq> 0)"
| "truthy (JStr s) = (s \<noteq> [])"
| "truthy _ = True"

section \<open>Data\<close>

datatype planId = PlanFree | PlanPersonal | PlanTeam | PlanBusiness | PlanEnterprise

fun plan_name :: "planId \<Rightarrow> string" where
  "plan_name PlanFree = ''free''"
| "plan_name PlanPersonal = ''personal''"
| "plan_name PlanTeam = ''team''"
| "plan_name PlanBusiness = ''business''"
| "plan_name PlanEnterprise = ''enterprise''"

datatype planFeature =
    Invites | CustomDomains | ApiAccess | Kubernetes | BasicPosture | OidcSso | CustomRoles | PolicyAsCode
  | AdvancedPolicies | SamlSso | Scim | AdvancedRbac | AdvancedPosture | SshRecording | LogStreaming
  | PlanComplianceExport | DomainClaiming | RegionalRelays

type_synonym planFeatures = "planFeature \<Rightarrow> bool"

record planLimits =
  pl_minSeats :: "int option"
  pl_maxSeats :: "int option"
  pl_baseResources :: "int option"
  pl_perSeatResources :: int
  pl_networks :: "int option"
  pl_publicTunnels :: "int option"
  pl_trafficGB :: "int option"
  pl_auditRetentionHours :: "int option"

datatype pricing = PricingFree | PricingFlat | PricingPerSeat | PricingCustom

record plan =
  plan_id :: planId
  plan_title :: string
  plan_price :: "int option"
  plan_pricing :: pricing
  plan_cadence :: string
  plan_limits :: planLimits
  plan_features :: planFeatures
  plan_pitch :: string
  plan_cta :: string
  plan_featureBullets :: "string list"
  plan_highlight :: bool
  plan_trialDays :: "int option"
  plan_support :: string

section \<open>The table of plans\<close>

definition NONE :: planFeatures where
  "NONE = (\<lambda>_. False)"

definition features :: "planFeature list \<Rightarrow> planFeatures" where
  "features enabled = foldl (\<lambda>out f. out(f := True)) NONE enabled"

definition OWNERSHIP_CAP_VERIFIED :: int where
  "OWNERSHIP_CAP_VERIFIED = 3"

definition OWNERSHIP_CAP_UNVERIFIED :: int where
  "OWNERSHIP_CAP_UNVERIFIED = 1"

definition OWNERSHIP_TOMBSTONE_WINDOW_DAYS :: int where
  "OWNERSHIP_TOMBSTONE_WINDOW_DAYS = 30"

definition BILLABLE_PLAN_IDS :: "json list" where
  "BILLABLE_PLAN_IDS = [JStr ''personal'', JStr ''team'', JStr ''business'']"

definition CREATABLE_PLAN_IDS :: "json list" where
  "CREATABLE_PLAN_IDS = [JStr ''free'', JStr ''personal'', JStr ''team'', JStr ''business'']"

definition PER_SEAT_PLAN_IDS :: "json list" where
  "PER_SEAT_PLAN_IDS = [JStr ''team'', JStr ''business'']"

text \<open>The separator of the bullet texts is a space, the middle dot and a space.\<close>

definition dotted :: "string list \<Rightarrow> string" where
  "dotted parts = join [CHR '' '', CHR 0xB7, CHR '' ''] parts"

definition free_plan :: plan where
  "free_plan = \<lparr>
     plan_id = PlanFree, plan_title = ''Free'', plan_price = Some 0, plan_pricing = PricingFree,
     plan_cadence = ''forever'',
     plan_limits = \<lparr>pl_minSeats = Some 1, pl_maxSeats = Some 1, pl_baseResources = Some 20,
       pl_perSeatResources = 0, pl_networks = Some 1, pl_publicTunnels = Some 1, pl_trafficGB = Some 5,
       pl_auditRetentionHours = Some 24\<rparr>,
     plan_features = features [],
     plan_pitch = ''Try Tunnet on a small homelab.'', plan_cta = ''Start free'',
     plan_featureBullets = [''1 user'', ''20 resources'', dotted [''1 network'', ''1 public tunnel''],
       ''5 GB managed traffic'', ''24-hour audit logs'',
       dotted [''Mesh'', ''DNS'', ''Serve'', ''Send'', ''SSH'']],
     plan_highlight = False, plan_trialDays = None, plan_support = ''Community''\<rparr>"

definition personal_plan :: plan where
  "personal_plan = \<lparr>
     plan_id = PlanPersonal, plan_title = ''Personal'', plan_price = Some 5, plan_pricing = PricingFlat,
     plan_cadence = ''/month'',
     plan_limits = \<lparr>pl_minSeats = Some 1, pl_maxSeats = Some 1, pl_baseResources = Some 100,
       pl_perSeatResources = 0, pl_networks = Some 5, pl_publicTunnels = Some 5, pl_trafficGB = Some 50,
       pl_auditRetentionHours = Some (24 * 30)\<rparr>,
     plan_features = features [CustomDomains, ApiAccess, Kubernetes, BasicPosture],
     plan_pitch = ''Serious solo use - machines, tunnels, and automation.'', plan_cta = ''Upgrade'',
     plan_featureBullets = [''1 user'', ''100 resources'', dotted [''5 networks'', ''5 public tunnels''],
       ''50 GB managed traffic'', ''30-day audit logs'', dotted [''Custom domains'', ''API'', ''Kubernetes'']],
     plan_highlight = True, plan_trialDays = Some 14, plan_support = ''Email''\<rparr>"

definition team_plan :: plan where
  "team_plan = \<lparr>
     plan_id = PlanTeam, plan_title = ''Team'', plan_price = Some 5, plan_pricing = PricingPerSeat,
     plan_cadence = ''/user/month'',
     plan_limits = \<lparr>pl_minSeats = Some 2, pl_maxSeats = None, pl_baseResources = Some 100,
       pl_perSeatResources = 25, pl_networks = Some 10, pl_publicTunnels = Some 25, pl_trafficGB = Some 250,
       pl_auditRetentionHours = Some (24 * 90)\<rparr>,
     plan_features = features [Invites, CustomDomains, ApiAccess, Kubernetes, BasicPosture, OidcSso,
       CustomRoles, PolicyAsCode, AdvancedPolicies],
     plan_pitch = ''Collaborate with shared org management and SSO.'', plan_cta = ''Start trial'',
     plan_featureBullets = [dotted [''$5/user'', ''2-user minimum''], ''100 resources + 25 per extra seat'',
       dotted [''10 networks'', ''25 public tunnels''], ''250 GB managed traffic'', ''90-day audit logs'',
       dotted [''OIDC SSO'', ''custom roles'', ''Policy as Code'']],
     plan_highlight = False, plan_trialDays = Some 14, plan_support = ''Email''\<rparr>"

definition business_plan :: plan where
  "business_plan = \<lparr>
     plan_id = PlanBusiness, plan_title = ''Business'', plan_price = Some 10, plan_pricing = PricingPerSeat,
     plan_cadence = ''/user/month'',
     plan_limits = \<lparr>pl_minSeats = Some 5, pl_maxSeats = None, pl_baseResources = Some 500,
       pl_perSeatResources = 50, pl_networks = Some 50, pl_publicTunnels = Some 100, pl_trafficGB = Some 1024,
       pl_auditRetentionHours = Some (24 * 365)\<rparr>,
     plan_features = features [Invites, CustomDomains, ApiAccess, Kubernetes, BasicPosture, OidcSso,
       CustomRoles, PolicyAsCode, AdvancedPolicies, SamlSso, Scim, AdvancedRbac, AdvancedPosture,
       SshRecording, LogStreaming, PlanComplianceExport, DomainClaiming, RegionalRelays],
     plan_pitch = ''Security, compliance, and advanced controls.'', plan_cta = ''Start trial'',
     plan_featureBullets = [dotted [''$10/user'', ''5-user minimum''], ''500 resources + 50 per extra seat'',
       dotted [''50 networks'', ''100 public tunnels''], ''1 TB managed traffic'', ''365-day audit logs'',
       dotted [''SAML'', ''SCIM'', ''SSH recording'', ''compliance'']],
     plan_highlight = False, plan_trialDays = Some 14, plan_support = ''Priority''\<rparr>"

definition enterprise_plan :: plan where
  "enterprise_plan = \<lparr>
     plan_id = PlanEnterprise, plan_title = ''Enterprise'', plan_price = None, plan_pricing = PricingCustom,
     plan_cadence = ''custom'',
     plan_limits = \<lparr>pl_minSeats = None, pl_maxSeats = None, pl_baseResources = None,
       pl_perSeatResources = 0, pl_networks = None, pl_publicTunnels = None, pl_trafficGB = None,
       pl_auditRetentionHours = None\<rparr>,
     plan_features = features [Invites, CustomDomains, ApiAccess, Kubernetes, BasicPosture, OidcSso,
       CustomRoles, PolicyAsCode, AdvancedPolicies, SamlSso, Scim, AdvancedRbac, AdvancedPosture,
       SshRecording, LogStreaming, PlanComplianceExport, DomainClaiming, RegionalRelays],
     plan_pitch = ''Custom contracts and dedicated deployments.'', plan_cta = ''Talk to sales'',
     plan_featureBullets = [''Custom limits'', ''Dedicated relays & control plane'',
       ''Self-hosted commercial license'', ''Air-gapped & data residency'',
       dotted [''Custom SLA'', ''24/7 support''], dotted [''Security review'', ''invoice contracts'']],
     plan_highlight = False, plan_trialDays = None, plan_support = dotted [''24/7'', ''SLA'']\<rparr>"

definition PLANS :: "plan list" where
  "PLANS = [free_plan, personal_plan, team_plan, business_plan, enterprise_plan]"

definition PLAN_BY_ID :: "(string \<times> plan) list" where
  "PLAN_BY_ID = map (\<lambda>p. (plan_name (plan_id p), p)) PLANS"

fun FEATURE_REQUIRED_PLAN :: "planFeature \<Rightarrow> planId" where
  "FEATURE_REQUIRED_PLAN Invites = PlanTeam"
| "FEATURE_REQUIRED_PLAN CustomDomains = PlanPersonal"
| "FEATURE_REQUIRED_PLAN ApiAccess = PlanPersonal"
| "FEATURE_REQUIRED_PLAN Kubernetes = PlanPersonal"
| "FEATURE_REQUIRED_PLAN BasicPosture = PlanPersonal"
| "FEATURE_REQUIRED_PLAN OidcSso = PlanTeam"
| "FEATURE_REQUIRED_PLAN CustomRoles = PlanTeam"
| "FEATURE_REQUIRED_PLAN PolicyAsCode = PlanTeam"
| "FEATURE_REQUIRED_PLAN AdvancedPolicies = PlanTeam"
| "FEATURE_REQUIRED_PLAN SamlSso = PlanBusiness"
| "FEATURE_REQUIRED_PLAN Scim = PlanBusiness"
| "FEATURE_REQUIRED_PLAN AdvancedRbac = PlanBusiness"
| "FEATURE_REQUIRED_PLAN AdvancedPosture = PlanBusiness"
| "FEATURE_REQUIRED_PLAN SshRecording = PlanBusiness"
| "FEATURE_REQUIRED_PLAN LogStreaming = PlanBusiness"
| "FEATURE_REQUIRED_PLAN PlanComplianceExport = PlanBusiness"
| "FEATURE_REQUIRED_PLAN DomainClaiming = PlanBusiness"
| "FEATURE_REQUIRED_PLAN RegionalRelays = PlanBusiness"

section \<open>Functions\<close>

definition getPlan :: "json \<Rightarrow> plan option" where
  "getPlan pid = (if \<not> truthy pid then None else map_of PLAN_BY_ID (property_key pid))"

definition isCreatablePlanId :: "json \<Rightarrow> bool" where
  "isCreatablePlanId pid \<longleftrightarrow> pid \<in> set CREATABLE_PLAN_IDS"

definition isBillablePlanId :: "json \<Rightarrow> bool" where
  "isBillablePlanId pid \<longleftrightarrow> pid \<in> set BILLABLE_PLAN_IDS"

definition isPerSeatPlanId :: "json \<Rightarrow> bool" where
  "isPerSeatPlanId pid \<longleftrightarrow> pid \<in> set PER_SEAT_PLAN_IDS"

definition plan_or_free :: "json \<Rightarrow> plan" where
  "plan_or_free pid = (case getPlan pid of Some p \<Rightarrow> p | None \<Rightarrow> free_plan)"

definition planLimits_of :: "json \<Rightarrow> planLimits" where
  "planLimits_of pid = plan_limits (plan_or_free pid)"

definition planHasFeature :: "json \<Rightarrow> planFeature \<Rightarrow> bool" where
  "planHasFeature pid feature = plan_features (plan_or_free pid) feature"

definition requiredPlanForFeature :: "planFeature \<Rightarrow> planId" where
  "requiredPlanForFeature feature = FEATURE_REQUIRED_PLAN feature"

definition or_default :: "'a option \<Rightarrow> 'a \<Rightarrow> 'a" where
  "or_default v d = (case v of Some x \<Rightarrow> x | None \<Rightarrow> d)"

definition minimumSeats :: "json \<Rightarrow> int" where
  "minimumSeats pid = or_default (pl_minSeats (planLimits_of pid)) 1"

definition resourceLimit :: "json \<Rightarrow> int option \<Rightarrow> int option" where
  "resourceLimit pid seats = (let limits = planLimits_of pid in
     case pl_baseResources limits of
       None \<Rightarrow> None
     | Some base \<Rightarrow>
         let least = or_default (pl_minSeats limits) 1;
             seatCount = max (or_default seats least) least;
             extra = max 0 (seatCount - least)
         in Some (base + pl_perSeatResources limits * extra))"

record limitsSnapshot =
  ls_seats :: "int option"
  ls_resources :: "int option"
  ls_trafficGB :: "int option"
  ls_networks :: "int option"
  ls_publicTunnels :: "int option"
  ls_auditRetentionHours :: "int option"

definition planLimitsSnapshot :: "json \<Rightarrow> int option \<Rightarrow> limitsSnapshot" where
  "planLimitsSnapshot pid seats = (let limits = planLimits_of pid in
     \<lparr>ls_seats = pl_maxSeats limits,
      ls_resources = resourceLimit pid (case seats of Some s \<Rightarrow> Some s | None \<Rightarrow> pl_minSeats limits),
      ls_trafficGB = pl_trafficGB limits, ls_networks = pl_networks limits,
      ls_publicTunnels = pl_publicTunnels limits, ls_auditRetentionHours = pl_auditRetentionHours limits\<rparr>)"

definition seatCost :: "plan \<Rightarrow> int \<Rightarrow> int option" where
  "seatCost p seats = (case plan_price p of
       None \<Rightarrow> None
     | Some price \<Rightarrow> (case plan_pricing p of
           PricingFree \<Rightarrow> Some 0
         | PricingFlat \<Rightarrow> Some price
         | PricingPerSeat \<Rightarrow> Some (price * max seats (or_default (pl_minSeats (plan_limits p)) 1))
         | PricingCustom \<Rightarrow> None))"

fun first_fitting :: "int \<Rightarrow> plan list \<Rightarrow> plan" where
  "first_fitting resources [] = enterprise_plan"
| "first_fitting resources (p # ps) =
    (case resourceLimit (JStr (plan_name (plan_id p))) (pl_minSeats (plan_limits p)) of
       Some cap \<Rightarrow> if resources \<le> cap then p else first_fitting resources ps
     | None \<Rightarrow> first_fitting resources ps)"

definition planForResources :: "int \<Rightarrow> plan" where
  "planForResources resources = first_fitting resources PLANS"

definition effectiveSeatLimit :: "json \<Rightarrow> int option \<Rightarrow> int option" where
  "effectiveSeatLimit pid subscriptionSeats = (let limits = planLimits_of pid in
     if pl_maxSeats limits = None \<and> pl_minSeats limits = None then None
     else if pl_maxSeats limits \<noteq> None \<and> \<not> isPerSeatPlanId pid then pl_maxSeats limits
     else let least = or_default (pl_minSeats limits) 1 in
       (case subscriptionSeats of None \<Rightarrow> Some least | Some s \<Rightarrow> Some (max least s)))"

text \<open>\<open>priceEnvKey\<close> on the billable plans; its switch has no other case.\<close>

definition priceEnvKey :: "json \<Rightarrow> string option" where
  "priceEnvKey pid =
    (if pid = JStr ''personal'' then Some ''STRIPE_PRICE_PERSONAL''
     else if pid = JStr ''team'' then Some ''STRIPE_PRICE_TEAM''
     else if pid = JStr ''business'' then Some ''STRIPE_PRICE_BUSINESS''
     else None)"

definition seatPriceEnvKey :: "json \<Rightarrow> string option" where
  "seatPriceEnvKey pid = priceEnvKey pid"

section \<open>Lemmas\<close>

lemmas plan_defs = free_plan_def personal_plan_def team_plan_def business_plan_def enterprise_plan_def

lemma features_iff [simp]: "features fs f \<longleftrightarrow> f \<in> set fs"
proof -
  have "foldl (\<lambda>out f. out(f := True)) g fs = (\<lambda>x. x \<in> set fs \<or> g x)" for g
    by (induction fs arbitrary: g) (auto simp: fun_eq_iff)
  then show ?thesis by (simp add: features_def NONE_def)
qed

definition the_plan :: "planId \<Rightarrow> plan" where
  "the_plan p = (case p of PlanFree \<Rightarrow> free_plan | PlanPersonal \<Rightarrow> personal_plan | PlanTeam \<Rightarrow> team_plan
     | PlanBusiness \<Rightarrow> business_plan | PlanEnterprise \<Rightarrow> enterprise_plan)"

lemma plan_id_the_plan [simp]: "plan_id (the_plan p) = p"
  by (cases p) (simp_all add: the_plan_def plan_defs)

lemma plan_id_consts [simp]:
  "plan_id free_plan = PlanFree" "plan_id personal_plan = PlanPersonal" "plan_id team_plan = PlanTeam"
  "plan_id business_plan = PlanBusiness" "plan_id enterprise_plan = PlanEnterprise"
  by (simp_all add: plan_defs)

abbreviation pid_of :: "planId \<Rightarrow> json" where
  "pid_of p \<equiv> JStr (plan_name p)"

lemma getPlan_name [simp]: "getPlan (pid_of p) = Some (the_plan p)"
  by (cases p) (simp_all add: getPlan_def PLAN_BY_ID_def PLANS_def the_plan_def)

lemma getPlan_Some: "getPlan pid = Some q \<Longrightarrow> property_key pid = plan_name (plan_id q) \<and> q = the_plan (plan_id q)"
  by (auto simp: getPlan_def PLAN_BY_ID_def PLANS_def the_plan_def split: if_splits)

lemma plan_name_inject [simp]: "plan_name p = plan_name q \<longleftrightarrow> p = q"
  by (metis getPlan_name option.inject plan_id_the_plan)

interpretation plan_codec: canonical_codec plan_name "\<lambda>s. map_option plan_id (getPlan (JStr s))" "\<lambda>_. True"
  by unfold_locales (auto dest: getPlan_Some)

lemma plan_or_free_name [simp]: "plan_or_free (pid_of p) = the_plan p"
  by (simp add: plan_or_free_def)

lemma planHasFeature_name: "planHasFeature (pid_of p) f = plan_features (the_plan p) f"
  by (simp add: planHasFeature_def)

lemma planLimits_of_name [simp]: "planLimits_of (pid_of p) = plan_limits (the_plan p)"
  by (simp add: planLimits_of_def)

lemma isPerSeatPlanId_name [simp]: "isPerSeatPlanId (pid_of p) \<longleftrightarrow> p = PlanTeam \<or> p = PlanBusiness"
  by (cases p) (simp_all add: isPerSeatPlanId_def PER_SEAT_PLAN_IDS_def)

lemma isBillablePlanId_name [simp]:
  "isBillablePlanId (pid_of p) \<longleftrightarrow> p = PlanPersonal \<or> p = PlanTeam \<or> p = PlanBusiness"
  by (cases p) (simp_all add: isBillablePlanId_def BILLABLE_PLAN_IDS_def)

lemma plan_or_free_cases: "\<exists>p. plan_or_free pid = the_plan p"
proof (cases "getPlan pid")
  case None
  then show ?thesis by (auto simp: plan_or_free_def the_plan_def intro!: exI [of _ PlanFree])
next
  case (Some q)
  then show ?thesis using getPlan_Some by (auto simp: plan_or_free_def)
qed

section \<open>Laws of the tables\<close>

fun plan_rank :: "planId \<Rightarrow> nat" where
  "plan_rank PlanFree = 0"
| "plan_rank PlanPersonal = 1"
| "plan_rank PlanTeam = 2"
| "plan_rank PlanBusiness = 3"
| "plan_rank PlanEnterprise = 4"

lemma has_feature_iff:
  "planHasFeature (pid_of p) f \<longleftrightarrow> plan_rank (requiredPlanForFeature f) \<le> plan_rank p"
  unfolding planHasFeature_name
  by (cases p; cases f) (simp_all add: requiredPlanForFeature_def the_plan_def plan_defs)

lemma the_plan_mins: "pl_minSeats (plan_limits (the_plan p)) = Some m \<Longrightarrow> 1 \<le> m"
  by (cases p) (auto simp: the_plan_def plan_defs)

lemma the_plan_per_seat: "0 \<le> pl_perSeatResources (plan_limits (the_plan p))"
  by (cases p) (auto simp: the_plan_def plan_defs)

lemma planLimits_per_seat: "0 \<le> pl_perSeatResources (planLimits_of pid)"
  using plan_or_free_cases [of pid] the_plan_per_seat by (auto simp: planLimits_of_def)

lemma resourceLimit_mono:
  assumes "s \<le> t" "resourceLimit pid (Some s) = Some a" "resourceLimit pid (Some t) = Some b"
  shows "a \<le> b"
proof -
  obtain base where "pl_baseResources (planLimits_of pid) = Some base"
    using assms(2) by (auto simp: resourceLimit_def Let_def split: option.splits)
  then show ?thesis
    using assms planLimits_per_seat [of pid]
    by (auto simp: resourceLimit_def Let_def or_default_def intro!: mult_left_mono)
qed

lemma effectiveSeatLimit_name:
  "effectiveSeatLimit (pid_of p) q = (case p of
     PlanFree \<Rightarrow> Some 1 | PlanPersonal \<Rightarrow> Some 1
   | PlanTeam \<Rightarrow> Some (case q of None \<Rightarrow> 2 | Some s \<Rightarrow> max 2 s)
   | PlanBusiness \<Rightarrow> Some (case q of None \<Rightarrow> 5 | Some s \<Rightarrow> max 5 s)
   | PlanEnterprise \<Rightarrow> None)"
  unfolding effectiveSeatLimit_def planLimits_of_name isPerSeatPlanId_name
  by (cases p) (simp_all add: the_plan_def plan_defs or_default_def split: option.split)

definition least_cap :: "planId \<Rightarrow> int option" where
  "least_cap p = resourceLimit (pid_of p) (pl_minSeats (plan_limits (the_plan p)))"

definition fits_plan :: "int \<Rightarrow> planId \<Rightarrow> bool" where
  "fits_plan r p = (case least_cap p of Some cap \<Rightarrow> r \<le> cap | None \<Rightarrow> False)"

lemma least_cap_values: "least_cap p = (case p of PlanFree \<Rightarrow> Some 20 | PlanPersonal \<Rightarrow> Some 100
    | PlanTeam \<Rightarrow> Some 100 | PlanBusiness \<Rightarrow> Some 500 | PlanEnterprise \<Rightarrow> None)"
  unfolding least_cap_def resourceLimit_def planLimits_of_name
  by (cases p) (simp_all add: the_plan_def plan_defs or_default_def)

lemma first_fitting_step:
  "first_fitting r (the_plan p # ps) = (if fits_plan r p then the_plan p else first_fitting r ps)"
  by (simp add: fits_plan_def least_cap_def split: option.splits)

lemma PLANS_ids: "PLANS = map the_plan [PlanFree, PlanPersonal, PlanTeam, PlanBusiness, PlanEnterprise]"
  by (simp add: PLANS_def the_plan_def)

lemma planForResources_eq: "planForResources r = the_plan (if r \<le> 20 then PlanFree else if r \<le> 100 then PlanPersonal
    else if r \<le> 500 then PlanBusiness else PlanEnterprise)"
  unfolding planForResources_def PLANS_ids list.map first_fitting_step
  by (auto simp: fits_plan_def least_cap_values the_plan_def)

section \<open>Properties\<close>

text \<open>
  C26. The two tables of features agree. A plan has a feature exactly when it is at least the plan that
  the table of required plans names for the feature, in the order free, personal, team, business,
  enterprise: an upgrade to the plan that an error names does unlock the feature, no cheaper plan has
  it, and no upgrade ever loses a feature.
\<close>

theorem feature_tables_agree:
  "planHasFeature (JStr (plan_name p)) f \<longleftrightarrow> plan_rank (requiredPlanForFeature f) \<le> plan_rank p"
  by (rule has_feature_iff)

text \<open>
  C27. The plan suggested for a number of machines is one of the table, and the cheapest that fits: its
  cap at the minimum of seats covers the number (or it is the enterprise plan, which has no cap), and no
  plan before it has a cap that does.
\<close>

theorem planForResources_cheapest:
  "planForResources r \<in> set PLANS \<and>
   (planForResources r = enterprise_plan \<or> fits_plan r (plan_id (planForResources r))) \<and>
   (\<forall>q. plan_rank q < plan_rank (plan_id (planForResources r)) \<longrightarrow> \<not> fits_plan r q)"
proof -
  have "\<not> fits_plan r q" if "plan_rank q < plan_rank (plan_id (planForResources r))" for q
    using that by (cases q) (auto simp: planForResources_eq fits_plan_def least_cap_values split: if_splits)
  moreover have "planForResources r \<in> set PLANS" unfolding planForResources_eq PLANS_ids by auto
  moreover have "planForResources r = enterprise_plan \<or> fits_plan r (plan_id (planForResources r))"
    by (auto simp: planForResources_eq fits_plan_def least_cap_values the_plan_def)
  ultimately show ?thesis by blast
qed

theorem planForResources_cheapest_witness:
  "fits_plan 300 PlanBusiness \<and> \<not> fits_plan 300 PlanTeam \<and> planForResources 300 = business_plan"
proof -
  have p: "planForResources 300 = business_plan" by (simp add: planForResources_eq the_plan_def)
  then have "business_plan \<noteq> enterprise_plan" by (metis plan_id_consts(4,5) planId.distinct(19))
  then show ?thesis using planForResources_cheapest [of 300] p by (auto dest: spec [of _ PlanTeam])
qed

end
