(* ===== verification/Org_Billing.thy ===== *)
theory Org_Billing
  imports Billing_Plans Json_Objects
begin

text \<open>
  What an organization may use (apps/management/src/lib/org-billing.ts and plan-errors.ts). The tables
  that the functions read and write are lists of rows in a record, in the order in which the database
  would return them; times are milliseconds since the epoch, and the clock is an argument. A query for
  the first row is a search from the front. The module's switch for cloud billing is a field as well.
\<close>

section \<open>Tables\<close>

record orgRow =
  or_id :: string
  or_slug :: string
  or_metadata :: "json option"
  or_createdAt :: int
  or_deletedAt :: "int option"

record memberRow =
  mb_id :: string
  mb_organizationId :: string
  mb_userId :: string
  mb_role :: string

record invitationRow =
  iv_id :: string
  iv_organizationId :: string
  iv_role :: "string option"
  iv_status :: string

record subscriptionRow =
  sub_id :: string
  sub_referenceId :: string
  sub_plan :: string
  sub_status :: string
  sub_seats :: "int option"
  sub_stripeSubscriptionId :: "string option"
  sub_periodEnd :: "int option"
  sub_cancelAtPeriodEnd :: "bool option"

record deviceRow =
  dv_organizationId :: string
  dv_endpointId :: string

record networkRow =
  nw_id :: string
  nw_organizationId :: string

record tunnelRow =
  tn_id :: string
  tn_organizationId :: string
  tn_status :: string

record usageRow =
  us_organizationId :: string
  us_month :: int
  us_relayBytes :: int
  us_publicTunnelBytes :: int

record auditRow =
  ae_organizationId :: string
  ae_time :: int

record sessionRow =
  ss_id :: string
  ss_userId :: string
  ss_activeOrganizationId :: "string option"

record database =
  db_organizations :: "orgRow list"
  db_members :: "memberRow list"
  db_invitations :: "invitationRow list"
  db_subscriptions :: "subscriptionRow list"
  db_devices :: "deviceRow list"
  db_networks :: "networkRow list"
  db_tunnels :: "tunnelRow list"
  db_usage :: "usageRow list"
  db_audit :: "auditRow list"
  db_sessions :: "sessionRow list"
  db_cloudBilling :: bool

definition count_rows :: "('a \<Rightarrow> bool) \<Rightarrow> 'a list \<Rightarrow> int" where
  "count_rows P rows = int (length (filter P rows))"

section \<open>Errors\<close>

datatype planError =
    PlanRequiredError planFeature planId json
  | PlanLimitError string int int "planId option" string

fun planFeature_name :: "planFeature \<Rightarrow> string" where
  "planFeature_name Invites = ''invites''"
| "planFeature_name CustomDomains = ''customDomains''"
| "planFeature_name ApiAccess = ''apiAccess''"
| "planFeature_name Kubernetes = ''kubernetes''"
| "planFeature_name BasicPosture = ''basicPosture''"
| "planFeature_name OidcSso = ''oidcSso''"
| "planFeature_name CustomRoles = ''customRoles''"
| "planFeature_name PolicyAsCode = ''policyAsCode''"
| "planFeature_name AdvancedPolicies = ''advancedPolicies''"
| "planFeature_name SamlSso = ''samlSso''"
| "planFeature_name Scim = ''scim''"
| "planFeature_name AdvancedRbac = ''advancedRbac''"
| "planFeature_name AdvancedPosture = ''advancedPosture''"
| "planFeature_name SshRecording = ''sshRecording''"
| "planFeature_name LogStreaming = ''logStreaming''"
| "planFeature_name PlanComplianceExport = ''complianceExport''"
| "planFeature_name DomainClaiming = ''domainClaiming''"
| "planFeature_name RegionalRelays = ''regionalRelays''"

fun planError_message :: "planError \<Rightarrow> string" where
  "planError_message (PlanRequiredError feature required current) =
    ''Feature '' @ [CHR 0x22] @ planFeature_name feature @ [CHR 0x22] @ '' requires the '' @ plan_name required @
    '' plan (current: '' @ property_key current @ ''). Upgrade to unlock it.''"
| "planError_message (PlanLimitError _ _ _ _ message) = message"

section \<open>Settings and roles\<close>

definition ACTIVE_SUB_STATUSES :: "string list" where
  "ACTIVE_SUB_STATUSES = [''active'', ''trialing'']"

definition SEAT_BILLING_MEMBERSHIP_CAP :: int where
  "SEAT_BILLING_MEMBERSHIP_CAP = 500"

definition setCloudBillingEnabled :: "bool \<Rightarrow> database \<Rightarrow> database" where
  "setCloudBillingEnabled enabled db = db\<lparr>db_cloudBilling := enabled\<rparr>"

definition isPriceConfigured :: "(string \<Rightarrow> string option) \<Rightarrow> json \<Rightarrow> bool" where
  "isPriceConfigured env pid = (if \<not> isBillablePlanId pid then False
     else case priceEnvKey pid of None \<Rightarrow> False
       | Some key \<Rightarrow> (case env key of None \<Rightarrow> False | Some v \<Rightarrow> trim v \<noteq> []))"

definition role_parts :: "string \<Rightarrow> string list" where
  "role_parts role = map trim (split_on (CHR '','') role)"

definition isOwnerRole :: "string \<Rightarrow> bool" where
  "isOwnerRole role \<longleftrightarrow> ''owner'' \<in> set (role_parts role)"

definition isAdminOrOwnerRole :: "string \<Rightarrow> bool" where
  "isAdminOrOwnerRole role \<longleftrightarrow> ''owner'' \<in> set (role_parts role) \<or> ''admin'' \<in> set (role_parts role)"

section \<open>The ownership quota\<close>

definition ownershipCapForUser :: "bool \<Rightarrow> int" where
  "ownershipCapForUser emailVerified = (if emailVerified then OWNERSHIP_CAP_VERIFIED else OWNERSHIP_CAP_UNVERIFIED)"

definition ownershipWindowStart :: "int \<Rightarrow> int" where
  "ownershipWindowStart now = now - OWNERSHIP_TOMBSTONE_WINDOW_DAYS * 24 * 60 * 60 * 1000"

definition orgCountsTowardOwnershipQuota :: "orgRow \<Rightarrow> int \<Rightarrow> bool" where
  "orgCountsTowardOwnershipQuota org now =
    (if or_deletedAt org = None then True else ownershipWindowStart now \<le> or_createdAt org)"

definition find_org :: "database \<Rightarrow> string \<Rightarrow> orgRow option" where
  "find_org db orgId = find (\<lambda>r. or_id r = orgId) (db_organizations db)"

definition countOwnedOrganizationsTowardQuota :: "database \<Rightarrow> string \<Rightarrow> int \<Rightarrow> int" where
  "countOwnedOrganizationsTowardQuota db userId now =
    count_rows (\<lambda>m. mb_userId m = userId \<and> isOwnerRole (mb_role m) \<and>
      (case find_org db (mb_organizationId m) of None \<Rightarrow> False
       | Some org \<Rightarrow> orgCountsTowardOwnershipQuota org now)) (db_members db)"

section \<open>The effective plan\<close>

record effectiveOrgPlan =
  ef_planId :: json
  ef_seats :: "int option"
  ef_resources :: "int option"
  ef_networks :: "int option"
  ef_publicTunnels :: "int option"
  ef_trafficGB :: "int option"
  ef_auditRetentionHours :: "int option"
  ef_features :: planFeatures
  ef_limits :: planLimits
  ef_subscriptionId :: "string option"
  ef_stripeSubscriptionId :: "string option"
  ef_status :: "string option"
  ef_seatsQuantity :: "int option"
  ef_periodEnd :: "int option"
  ef_cancelAtPeriodEnd :: "bool option"

definition getActiveSubscription :: "database \<Rightarrow> string \<Rightarrow> subscriptionRow option" where
  "getActiveSubscription db orgId =
    find (\<lambda>s. sub_referenceId s = orgId \<and> sub_status s \<in> set ACTIVE_SUB_STATUSES) (db_subscriptions db)"

definition buildEffective :: "json \<Rightarrow> int option \<Rightarrow> subscriptionRow option \<Rightarrow> effectiveOrgPlan" where
  "buildEffective pid seatsQuantity sub = (let p = plan_or_free pid; seats = effectiveSeatLimit pid seatsQuantity in
     \<lparr>ef_planId = pid,
      ef_seats = seats,
      ef_resources = resourceLimit pid seats,
      ef_networks = pl_networks (plan_limits p),
      ef_publicTunnels = pl_publicTunnels (plan_limits p),
      ef_trafficGB = pl_trafficGB (plan_limits p),
      ef_auditRetentionHours = pl_auditRetentionHours (plan_limits p),
      ef_features = plan_features p,
      ef_limits = plan_limits p,
      ef_subscriptionId = map_option sub_id sub,
      ef_stripeSubscriptionId = Option.bind sub sub_stripeSubscriptionId,
      ef_status = map_option sub_status sub,
      ef_seatsQuantity = seatsQuantity,
      ef_periodEnd = Option.bind sub sub_periodEnd,
      ef_cancelAtPeriodEnd = Option.bind sub sub_cancelAtPeriodEnd\<rparr>)"

definition unlimitedOrgPlan :: effectiveOrgPlan where
  "unlimitedOrgPlan = buildEffective (JStr ''enterprise'') None None"

text \<open>\<open>metadata.plan\<close>: only an object has the property.\<close>

fun metadata_plan :: "json option \<Rightarrow> json option" where
  "metadata_plan (Some (JObj fs)) = map_of fs ''plan''"
| "metadata_plan _ = None"

definition metadata_plan_id :: "json option \<Rightarrow> json" where
  "metadata_plan_id metadata =
    (case metadata_plan metadata of
       Some v \<Rightarrow> if truthy v \<and> getPlan v \<noteq> None \<and> v \<noteq> JStr ''enterprise'' then v else JStr ''free''
     | None \<Rightarrow> JStr ''free'')"

definition getEffectiveOrgPlan :: "database \<Rightarrow> string \<Rightarrow> effectiveOrgPlan" where
  "getEffectiveOrgPlan db orgId =
    (if \<not> db_cloudBilling db then unlimitedOrgPlan
     else case getActiveSubscription db orgId of
       Some sub \<Rightarrow>
         buildEffective
           (case getPlan (JStr (sub_plan sub)) of Some p \<Rightarrow> JStr (plan_name (plan_id p)) | None \<Rightarrow> JStr ''free'')
           (sub_seats sub) (Some sub)
     | None \<Rightarrow>
         let pid = metadata_plan_id (Option.bind (find_org db orgId) or_metadata);
             effectiveId = (if isBillablePlanId pid then JStr ''free'' else pid)
         in buildEffective effectiveId None None)"

section \<open>Usage\<close>

definition countOrgMembers :: "database \<Rightarrow> string \<Rightarrow> int" where
  "countOrgMembers db orgId = count_rows (\<lambda>m. mb_organizationId m = orgId) (db_members db)"

definition countPendingInvitations :: "database \<Rightarrow> string \<Rightarrow> int" where
  "countPendingInvitations db orgId =
    count_rows (\<lambda>i. iv_organizationId i = orgId \<and> iv_status i = ''pending'') (db_invitations db)"

definition countOrgDevices :: "database \<Rightarrow> string \<Rightarrow> int" where
  "countOrgDevices db orgId = count_rows (\<lambda>d. dv_organizationId d = orgId) (db_devices db)"

definition countOrgNetworks :: "database \<Rightarrow> string \<Rightarrow> int" where
  "countOrgNetworks db orgId = count_rows (\<lambda>n. nw_organizationId n = orgId) (db_networks db)"

definition ACTIVE_TUNNEL_STATUSES :: "string list" where
  "ACTIVE_TUNNEL_STATUSES = [''connecting'', ''active'']"

definition countOrgPublicTunnels :: "database \<Rightarrow> string \<Rightarrow> int" where
  "countOrgPublicTunnels db orgId =
    count_rows (\<lambda>t. tn_organizationId t = orgId \<and> tn_status t \<in> set ACTIVE_TUNNEL_STATUSES) (db_tunnels db)"

text \<open>Year and month (from 1) of a time in UTC, by the proleptic Gregorian calendar.\<close>

definition utc_year_month :: "int \<Rightarrow> int \<times> int" where
  "utc_year_month ms = (let z = ms div 86400000 + 719468;
     era = z div 146097;
     doe = z mod 146097;
     yoe = (doe - doe div 1460 + doe div 36524 - doe div 146096) div 365;
     doy = doe - (365 * yoe + yoe div 4 - yoe div 100);
     mp = (5 * doy + 2) div 153;
     mon = (if mp < 10 then mp + 3 else mp - 9)
   in (yoe + era * 400 + (if mon \<le> 2 then 1 else 0), mon))"

definition currentUsageMonth :: "int \<Rightarrow> int" where
  "currentUsageMonth now = fst (utc_year_month now) * 100 + snd (utc_year_month now)"

definition getOrgTrafficBytes :: "database \<Rightarrow> string \<Rightarrow> int \<Rightarrow> int" where
  "getOrgTrafficBytes db orgId mon =
    (case find (\<lambda>u. us_organizationId u = orgId \<and> us_month u = mon) (db_usage db) of
       None \<Rightarrow> 0
     | Some row \<Rightarrow> us_relayBytes row + us_publicTunnelBytes row)"

datatype trafficKind = Relay | PublicTunnel

text \<open>An insert that on a conflict of organization and month adds to the row that is there.\<close>

fun upsert_usage :: "string \<Rightarrow> int \<Rightarrow> int \<Rightarrow> int \<Rightarrow> usageRow list \<Rightarrow> usageRow list" where
  "upsert_usage orgId mon relayInc tunnelInc [] =
    [\<lparr>us_organizationId = orgId, us_month = mon, us_relayBytes = relayInc, us_publicTunnelBytes = tunnelInc\<rparr>]"
| "upsert_usage orgId mon relayInc tunnelInc (u # us) =
    (if us_organizationId u = orgId \<and> us_month u = mon
     then u\<lparr>us_relayBytes := us_relayBytes u + relayInc,
            us_publicTunnelBytes := us_publicTunnelBytes u + tunnelInc\<rparr> # us
     else u # upsert_usage orgId mon relayInc tunnelInc us)"

definition incrementOrgTraffic :: "string \<Rightarrow> trafficKind \<Rightarrow> int \<Rightarrow> int \<Rightarrow> database \<Rightarrow> database" where
  "incrementOrgTraffic orgId kind bytes mon db =
    (if \<not> db_cloudBilling db then db
     else if bytes \<le> 0 then db
     else let relayInc = (if kind = Relay then bytes else 0);
              tunnelInc = (if kind = PublicTunnel then bytes else 0)
          in db\<lparr>db_usage := upsert_usage orgId mon relayInc tunnelInc (db_usage db)\<rparr>)"

datatype warnLevel = LevelOk | LevelWarn | LevelExceeded

text \<open>Four fifths of the limit, as whole numbers.\<close>

definition trafficWarnLevel :: "int \<Rightarrow> int option \<Rightarrow> warnLevel" where
  "trafficWarnLevel used limitBytes = (case limitBytes of
       None \<Rightarrow> LevelOk
     | Some l \<Rightarrow> if l \<le> 0 then LevelOk
         else if l \<le> used then LevelExceeded
         else if l * 8 \<le> used * 10 then LevelWarn
         else LevelOk)"

record orgUsageSnapshot =
  sn_plan :: effectiveOrgPlan
  sn_members :: int
  sn_pendingInvitations :: int
  sn_seatsUsed :: int
  sn_resourcesUsed :: int
  sn_networksUsed :: int
  sn_publicTunnelsUsed :: int
  sn_trafficBytesUsed :: int
  sn_trafficBytesLimit :: "int option"
  sn_trafficWarnLevel :: warnLevel

definition getOrgUsageSnapshot :: "database \<Rightarrow> string \<Rightarrow> int \<Rightarrow> orgUsageSnapshot" where
  "getOrgUsageSnapshot db orgId now = (let
     p = getEffectiveOrgPlan db orgId;
     joined = countOrgMembers db orgId;
     pending = countPendingInvitations db orgId;
     traffic = getOrgTrafficBytes db orgId (currentUsageMonth now);
     trafficLimit = map_option (\<lambda>gb. gb * 1024 * 1024 * 1024) (ef_trafficGB p)
   in \<lparr>sn_plan = p, sn_members = joined, sn_pendingInvitations = pending, sn_seatsUsed = joined + pending,
       sn_resourcesUsed = countOrgDevices db orgId, sn_networksUsed = countOrgNetworks db orgId,
       sn_publicTunnelsUsed = countOrgPublicTunnels db orgId, sn_trafficBytesUsed = traffic,
       sn_trafficBytesLimit = trafficLimit,
       sn_trafficWarnLevel = (if db_cloudBilling db then trafficWarnLevel traffic trafficLimit else LevelOk)\<rparr>)"

section \<open>Guards\<close>

definition requirePlanFeature :: "database \<Rightarrow> string \<Rightarrow> planFeature \<Rightarrow> planError + effectiveOrgPlan" where
  "requirePlanFeature db orgId feature =
    (if \<not> db_cloudBilling db then Inr unlimitedOrgPlan
     else let p = getEffectiveOrgPlan db orgId in
       if \<not> planHasFeature (ef_planId p) feature
       then Inl (PlanRequiredError feature (requiredPlanForFeature feature) (ef_planId p))
       else Inr p)"

definition seat_limit :: "effectiveOrgPlan \<Rightarrow> int \<Rightarrow> int" where
  "seat_limit p seats = (if isPerSeatPlanId (ef_planId p)
     then min (max seats (or_default (pl_minSeats (ef_limits p)) 1)) SEAT_BILLING_MEMBERSHIP_CAP
     else seats)"

definition assertSeatCapacity :: "database \<Rightarrow> string \<Rightarrow> int \<Rightarrow> planError + unit" where
  "assertSeatCapacity db orgId additionalSeats =
    (if \<not> db_cloudBilling db then Inr ()
     else let p = getEffectiveOrgPlan db orgId; joined = countOrgMembers db orgId in
       if \<not> ef_features p Invites \<and> 0 < additionalSeats \<and> 1 < joined + additionalSeats
       then Inl (PlanLimitError ''seats'' 1 joined (Some PlanTeam)
         ''This plan allows only 1 user. Upgrade to Team to invite members.'')
       else case ef_seats p of
         None \<Rightarrow> Inr ()
       | Some seats \<Rightarrow>
           let cap = seat_limit p seats; pending = countPendingInvitations db orgId in
           if cap < joined + pending + additionalSeats
           then Inl (PlanLimitError ''seats'' cap (joined + pending)
             (if isPerSeatPlanId (ef_planId p) then None else Some PlanTeam)
             (''Organization seat limit reached ('' @ show_int cap @ ''). '' @
              (if isPerSeatPlanId (ef_planId p) then ''Add seats in billing.''
               else ''Upgrade the plan to invite members.'')))
           else Inr ())"

definition capacity_error :: "string \<Rightarrow> string \<Rightarrow> string \<Rightarrow> int \<Rightarrow> int \<Rightarrow> planError" where
  "capacity_error key what action allowed current = PlanLimitError key allowed current None
    (''Organization '' @ what @ '' limit reached ('' @ show_int allowed @ ''). Upgrade the plan to '' @ action @ ''.'')"

definition assertResourceCapacity :: "database \<Rightarrow> string \<Rightarrow> string option \<Rightarrow> planError + unit" where
  "assertResourceCapacity db orgId endpointId =
    (if \<not> db_cloudBilling db then Inr ()
     else case ef_resources (getEffectiveOrgPlan db orgId) of
       None \<Rightarrow> Inr ()
     | Some cap \<Rightarrow>
         if (case endpointId of None \<Rightarrow> False
             | Some e \<Rightarrow> e \<noteq> [] \<and> (\<exists>d \<in> set (db_devices db). dv_organizationId d = orgId \<and> dv_endpointId d = e))
         then Inr ()
         else let devices = countOrgDevices db orgId in
           if cap \<le> devices
           then Inl (capacity_error ''resources'' ''resource'' ''enroll more machines'' cap devices)
           else Inr ())"

definition assertNetworkCapacity :: "database \<Rightarrow> string \<Rightarrow> planError + unit" where
  "assertNetworkCapacity db orgId =
    (if \<not> db_cloudBilling db then Inr ()
     else case ef_networks (getEffectiveOrgPlan db orgId) of
       None \<Rightarrow> Inr ()
     | Some cap \<Rightarrow> let used = countOrgNetworks db orgId in
         if cap \<le> used then Inl (capacity_error ''networks'' ''network'' ''create more networks'' cap used)
         else Inr ())"

definition assertPublicTunnelCapacity :: "database \<Rightarrow> string \<Rightarrow> planError + unit" where
  "assertPublicTunnelCapacity db orgId =
    (if \<not> db_cloudBilling db then Inr ()
     else case ef_publicTunnels (getEffectiveOrgPlan db orgId) of
       None \<Rightarrow> Inr ()
     | Some cap \<Rightarrow> let used = countOrgPublicTunnels db orgId in
         if cap \<le> used then Inl (capacity_error ''publicTunnels'' ''public tunnel'' ''create more tunnels'' cap used)
         else Inr ())"

definition parseCreatablePlan :: "json option \<Rightarrow> string option" where
  "parseCreatablePlan metadata = (case metadata_plan metadata of
       Some (JStr s) \<Rightarrow> if isCreatablePlanId (JStr s) then Some s else None
     | _ \<Rightarrow> None)"

section \<open>Deletion and retention\<close>

definition softDeleteOrganization :: "int \<Rightarrow> string \<Rightarrow> database \<Rightarrow> string + database" where
  "softDeleteOrganization now orgId db = (case find_org db orgId of
       None \<Rightarrow> Inl ''Organization not found''
     | Some org \<Rightarrow>
         if or_deletedAt org \<noteq> None then Inl ''Organization already deleted''
         else if getActiveSubscription db orgId \<noteq> None
         then Inl ''Cancel the active subscription before deleting this organization''
         else Inr (db\<lparr>
           db_organizations := map (\<lambda>r. if or_id r = orgId
             then r\<lparr>or_deletedAt := Some now, or_slug := or_slug org @ ''-deleted-'' @ show_int now\<rparr> else r)
             (db_organizations db),
           db_sessions := map (\<lambda>s. if ss_activeOrganizationId s = Some orgId
             then s\<lparr>ss_activeOrganizationId := None\<rparr> else s) (db_sessions db)\<rparr>))"

definition requireActiveOrganization :: "database \<Rightarrow> string \<Rightarrow> string + orgRow" where
  "requireActiveOrganization db orgId =
    (case find (\<lambda>r. or_id r = orgId \<and> or_deletedAt r = None) (db_organizations db) of
       None \<Rightarrow> Inl ''Organization not found''
     | Some org \<Rightarrow> Inr org)"

definition memberRoleInOrg :: "database \<Rightarrow> string \<Rightarrow> string \<Rightarrow> string option" where
  "memberRoleInOrg db userId organizationId =
    map_option mb_role (find (\<lambda>m. mb_userId m = userId \<and> mb_organizationId m = organizationId) (db_members db))"

definition auditRetentionCutoff :: "database \<Rightarrow> string \<Rightarrow> int \<Rightarrow> int option" where
  "auditRetentionCutoff db orgId now =
    map_option (\<lambda>hours. now - hours * 60 * 60 * 1000) (ef_auditRetentionHours (getEffectiveOrgPlan db orgId))"

definition prune_org :: "int \<Rightarrow> database \<times> int \<Rightarrow> orgRow \<Rightarrow> database \<times> int" where
  "prune_org now acc org = (let db = fst acc in
     case auditRetentionCutoff db (or_id org) now of
       None \<Rightarrow> acc
     | Some cutoff \<Rightarrow>
         let expired = (\<lambda>e. ae_organizationId e = or_id org \<and> ae_time e < cutoff)
         in (db\<lparr>db_audit := filter (\<lambda>e. \<not> expired e) (db_audit db)\<rparr>,
             snd acc + count_rows expired (db_audit db)))"

definition pruneAuditEventsBeyondRetention :: "int \<Rightarrow> database \<Rightarrow> database \<times> int" where
  "pruneAuditEventsBeyondRetention now db =
    (if \<not> db_cloudBilling db then (db, 0)
     else foldl (prune_org now) (db, 0) (filter (\<lambda>r. or_deletedAt r = None) (db_organizations db)))"

section \<open>Lemmas on the effective plan\<close>

lemma getEffectiveOrgPlan_cong:
  assumes "db_cloudBilling db' = db_cloudBilling db" "db_subscriptions db' = db_subscriptions db"
    and "db_organizations db' = db_organizations db"
  shows "getEffectiveOrgPlan db' orgId = getEffectiveOrgPlan db orgId"
  unfolding getEffectiveOrgPlan_def getActiveSubscription_def find_org_def assms by (rule refl)

lemma getEffectiveOrgPlan_audit [simp]: "getEffectiveOrgPlan (db\<lparr>db_audit := es\<rparr>) orgId = getEffectiveOrgPlan db orgId"
  by (rule getEffectiveOrgPlan_cong) simp_all

lemma metadata_plan_id_typed:
  assumes "\<forall>v. metadata_plan metadata = Some v \<longrightarrow> (\<exists>s. v = JStr s)"
  shows "metadata_plan_id metadata = JStr ''free'' \<or> isBillablePlanId (metadata_plan_id metadata)"
proof (cases "metadata_plan metadata")
  case None
  then show ?thesis by (simp add: metadata_plan_id_def)
next
  case (Some v)
  then obtain s where v: "v = JStr s" using assms by blast
  show ?thesis
  proof (cases "getPlan v")
    case None
    then show ?thesis using Some by (simp add: metadata_plan_id_def)
  next
    case (Some q)
    then have "s = plan_name (plan_id q)" using getPlan_Some v by force
    then show ?thesis using \<open>metadata_plan metadata = Some v\<close> v
      by (cases "plan_id q") (auto simp: metadata_plan_id_def isBillablePlanId_def BILLABLE_PLAN_IDS_def)
  qed
qed

lemma getPlan_singleton [simp]: "getPlan (JArr [JStr (plan_name p)]) = Some (the_plan p)"
  using getPlan_name [of p] by (cases p) (simp_all add: getPlan_def)

lemma metadata_plan_id_array:
  assumes "metadata_plan metadata = Some (JArr [JStr (plan_name p)])"
  shows "metadata_plan_id metadata = JArr [JStr (plan_name p)]"
  using assms by (simp add: metadata_plan_id_def)

lemma not_billable_array [simp]: "\<not> isBillablePlanId (JArr vs)"
  by (simp add: isBillablePlanId_def BILLABLE_PLAN_IDS_def)

section \<open>Lemmas on traffic and retention\<close>

lemma upsert_usage_find:
  "find (\<lambda>u. us_organizationId u = o' \<and> us_month u = n) (upsert_usage orgId mon a b us) =
   (if o' = orgId \<and> n = mon
    then Some (case find (\<lambda>u. us_organizationId u = orgId \<and> us_month u = mon) us of
        None \<Rightarrow> \<lparr>us_organizationId = orgId, us_month = mon, us_relayBytes = a, us_publicTunnelBytes = b\<rparr>
      | Some u \<Rightarrow> u\<lparr>us_relayBytes := us_relayBytes u + a, us_publicTunnelBytes := us_publicTunnelBytes u + b\<rparr>)
    else find (\<lambda>u. us_organizationId u = o' \<and> us_month u = n) us)"
  by (induction us) auto

lemma incrementOrgTraffic_bytes:
  assumes "db_cloudBilling db" "0 < bytes"
  shows "getOrgTrafficBytes (incrementOrgTraffic orgId kind bytes mon db) o' n =
    getOrgTrafficBytes db o' n + (if o' = orgId \<and> n = mon then bytes else 0)"
  using assms by (cases kind)
    (auto simp: incrementOrgTraffic_def getOrgTrafficBytes_def upsert_usage_find split: option.splits)

definition beyond_retention :: "int \<Rightarrow> database \<Rightarrow> orgRow list \<Rightarrow> auditRow \<Rightarrow> bool" where
  "beyond_retention now db orgs e \<longleftrightarrow> (\<exists>r \<in> set orgs. or_id r = ae_organizationId e \<and>
     (\<exists>cutoff. auditRetentionCutoff db (or_id r) now = Some cutoff \<and> ae_time e < cutoff))"

lemma auditRetentionCutoff_audit [simp]:
  "auditRetentionCutoff (db\<lparr>db_audit := es\<rparr>) orgId now = auditRetentionCutoff db orgId now"
  by (simp add: auditRetentionCutoff_def)

lemma beyond_retention_audit [simp]: "beyond_retention now (db\<lparr>db_audit := es\<rparr>) orgs e = beyond_retention now db orgs e"
  by (simp add: beyond_retention_def)

lemma beyond_retention_Cons: "beyond_retention now db (r # orgs) e \<longleftrightarrow>
    beyond_retention now db [r] e \<or> beyond_retention now db orgs e"
  by (auto simp: beyond_retention_def)

lemma prune_org_eq: "prune_org now (db, n) r =
    (db\<lparr>db_audit := filter (\<lambda>e. \<not> beyond_retention now db [r] e) (db_audit db)\<rparr>,
     n + count_rows (beyond_retention now db [r]) (db_audit db))"
proof (cases "auditRetentionCutoff db (or_id r) now")
  case None
  then have "beyond_retention now db [r] = (\<lambda>_. False)" by (auto simp: beyond_retention_def fun_eq_iff)
  then show ?thesis using None by (simp add: prune_org_def count_rows_def)
next
  case (Some c)
  then have "beyond_retention now db [r] = (\<lambda>e. ae_organizationId e = or_id r \<and> ae_time e < c)"
    by (auto simp: beyond_retention_def fun_eq_iff)
  then show ?thesis using Some by (simp add: prune_org_def Let_def)
qed

lemma count_rows_split: "count_rows P xs + count_rows Q (filter (\<lambda>x. \<not> P x) xs) = count_rows (\<lambda>x. P x \<or> Q x) xs"
  by (induction xs) (auto simp: count_rows_def)

lemma foldl_prune:
  "foldl (prune_org now) (db, n) orgs =
    (db\<lparr>db_audit := filter (\<lambda>e. \<not> beyond_retention now db orgs e) (db_audit db)\<rparr>,
     n + count_rows (beyond_retention now db orgs) (db_audit db))"
proof (induction orgs arbitrary: db n)
  case Nil
  then show ?case by (simp add: beyond_retention_def count_rows_def)
next
  case (Cons r orgs)
  let ?P = "beyond_retention now db [r]" and ?Q = "beyond_retention now db orgs"
  have "beyond_retention now db (r # orgs) = (\<lambda>e. ?P e \<or> ?Q e)"
    by (rule ext) (rule beyond_retention_Cons)
  moreover have "filter (\<lambda>e. \<not> ?Q e) (filter (\<lambda>e. \<not> ?P e) (db_audit db)) = filter (\<lambda>e. \<not> (?P e \<or> ?Q e)) (db_audit db)"
    by (auto intro: filter_cong)
  ultimately show ?case
    using count_rows_split [of ?P "db_audit db" ?Q] by (simp add: prune_org_eq Cons.IH)
qed

section \<open>Properties\<close>

definition ex_db :: "json option \<Rightarrow> database" where
  "ex_db metadata = \<lparr>
     db_organizations = [\<lparr>or_id = ''o1'', or_slug = ''acme'', or_metadata = metadata, or_createdAt = 0, or_deletedAt = None\<rparr>],
     db_members = [\<lparr>mb_id = ''m1'', mb_organizationId = ''o1'', mb_userId = ''u1'', mb_role = ''owner''\<rparr>],
     db_invitations = [], db_subscriptions = [], db_devices = [], db_networks = [], db_tunnels = [], db_usage = [],
     db_audit = [], db_sessions = [], db_cloudBilling = True\<rparr>"



text \<open>
  C29. The guard of the previous property can be evaded: the plan of the metadata is cast and not
  checked, and an array with the name of a plan is found in the table of plans by its text but equals
  none of the billable names. An organization without a subscription whose metadata carries such an
  array has all features of the plan, and the limits of the plan at its minimum of seats; for the
  enterprise plan it has no limit at all.
\<close>

theorem array_metadata_grants_plan:
  assumes "db_cloudBilling db" "getActiveSubscription db orgId = None"
    and "metadata_plan (Option.bind (find_org db orgId) or_metadata) = Some (JArr [JStr (plan_name p)])"
  shows "ef_features (getEffectiveOrgPlan db orgId) = plan_features (the_plan p) \<and>
    ef_limits (getEffectiveOrgPlan db orgId) = plan_limits (the_plan p) \<and>
    (is_ok (requirePlanFeature db orgId f) \<longleftrightarrow> plan_features (the_plan p) f)"
proof -
  let ?v = "JArr [JStr (plan_name p)]"
  have e: "getEffectiveOrgPlan db orgId = buildEffective ?v None None"
    using assms metadata_plan_id_array [OF assms(3)] by (simp add: getEffectiveOrgPlan_def Let_def)
  have q: "plan_or_free ?v = the_plan p" by (simp add: plan_or_free_def)
  then have b: "ef_planId (buildEffective ?v None None) = ?v" "ef_features (buildEffective ?v None None) = plan_features (the_plan p)"
      "ef_limits (buildEffective ?v None None) = plan_limits (the_plan p)"
    by (simp_all add: buildEffective_def Let_def)
  show ?thesis
    using assms(1) q by (simp add: e b requirePlanFeature_def planHasFeature_def Let_def)
qed

theorem array_metadata_grants_plan_witness:
  "ef_networks (getEffectiveOrgPlan (ex_db (Some (JObj [(''plan'', JArr [JStr ''enterprise''])]))) ''o1'') = None \<and>
   is_ok (requirePlanFeature (ex_db (Some (JObj [(''plan'', JArr [JStr ''enterprise''])]))) ''o1'' SamlSso)"
proof -
  let ?db = "ex_db (Some (JObj [(''plan'', JArr [JStr (plan_name PlanEnterprise)])]))"
  have "is_ok (requirePlanFeature ?db ''o1'' SamlSso) \<longleftrightarrow> plan_features (the_plan PlanEnterprise) SamlSso"
    by (rule array_metadata_grants_plan [THEN conjunct2, THEN conjunct2])
      (simp_all add: ex_db_def getActiveSubscription_def find_org_def)
  moreover have "ef_networks (getEffectiveOrgPlan (ex_db (Some (JObj [(''plan'', JArr [JStr ''enterprise''])]))) ''o1'') = None"
    by code_simp
  ultimately show ?thesis by (simp add: the_plan_def plan_defs)
qed



end
