(* ===== verification/Auth_Hierarchy.thy ===== *)
theory Auth_Hierarchy
  imports Org_Billing
begin

text \<open>
  The hierarchy of roles (packages/api/src/auth/permissions.ts, apps/management/src/auth/hierarchy.ts
  and hierarchy-hooks.ts). Every role has a position; a member's rank is the highest position among the
  roles of the member. A hook runs before each endpoint of the organization plugin that changes members
  or roles and refuses what the actor's rank does not allow. The second part shows what the hooks
  achieve together with the documented effects of the endpoints behind them: an actor never changes
  anything at or above the actor's own rank. Positions are whole numbers.
\<close>

section \<open>Positions of roles\<close>

definition STATIC_ROLE_POSITIONS :: "(string \<times> int) list" where
  "STATIC_ROLE_POSITIONS = [(''owner'', 1000), (''admin'', 500), (''member'', 100)]"

definition STATIC_ROLE_NAMES :: "string list" where
  "STATIC_ROLE_NAMES = [''owner'', ''admin'', ''member'']"

definition DEFAULT_DYNAMIC_ROLE_POSITION :: int where
  "DEFAULT_DYNAMIC_ROLE_POSITION = 101"

definition isStaticRoleName :: "string \<Rightarrow> bool" where
  "isStaticRoleName role \<longleftrightarrow> role \<in> set STATIC_ROLE_NAMES"

definition parseRoleNames :: "string \<Rightarrow> string list" where
  "parseRoleNames role = filter (\<lambda>r. r \<noteq> []) (map trim (split_on (CHR '','') role))"

record rolePositionRecord =
  rp_role :: string
  rp_position :: "int option"

definition getStaticRolePosition :: "string \<Rightarrow> int option" where
  "getStaticRolePosition roleName =
    (if \<not> isStaticRoleName roleName then None else map_of STATIC_ROLE_POSITIONS roleName)"

definition getRolePosition :: "string \<Rightarrow> rolePositionRecord list \<Rightarrow> int" where
  "getRolePosition roleName dynamicRoles = (case getStaticRolePosition roleName of
       Some pos \<Rightarrow> pos
     | None \<Rightarrow>
         (case find (\<lambda>r. toLowerCase (rp_role r) = toLowerCase roleName) dynamicRoles of
            Some found \<Rightarrow> (case rp_position found of Some pos \<Rightarrow> pos | None \<Rightarrow> DEFAULT_DYNAMIC_ROLE_POSITION)
          | None \<Rightarrow> DEFAULT_DYNAMIC_ROLE_POSITION))"

definition getHighestRolePosition :: "string \<Rightarrow> rolePositionRecord list \<Rightarrow> int" where
  "getHighestRolePosition roleField dynamicRoles = (let names = parseRoleNames roleField in
     if names = [] then 0 else Max (set (map (\<lambda>name. getRolePosition name dynamicRoles) names)))"

section \<open>Assertions\<close>

datatype apiError = APIError string "string option"

definition assertCanManageTarget :: "int \<Rightarrow> int \<Rightarrow> apiError + unit" where
  "assertCanManageTarget actorRank targetRank = (if actorRank \<le> targetRank
     then Inl (APIError ''FORBIDDEN'' (Some ''Cannot modify a member with equal or higher role'')) else Inr ())"

definition assertCanAssignRole :: "int \<Rightarrow> int \<Rightarrow> apiError + unit" where
  "assertCanAssignRole actorRank newRoleRank = (if actorRank \<le> newRoleRank
     then Inl (APIError ''FORBIDDEN'' (Some ''Cannot assign a role equal to or higher than your own'')) else Inr ())"

definition assertCanManageRoleDefinition :: "int \<Rightarrow> int \<Rightarrow> string \<Rightarrow> apiError + unit" where
  "assertCanManageRoleDefinition actorRank rolePosition roleName =
    (if isStaticRoleName roleName then Inl (APIError ''FORBIDDEN'' (Some ''Cannot modify static system roles''))
     else if actorRank \<le> rolePosition
     then Inl (APIError ''FORBIDDEN'' (Some ''Cannot manage a role equal to or higher than your own''))
     else Inr ())"

definition assertCanSetRolePosition :: "int \<Rightarrow> int \<Rightarrow> apiError + unit" where
  "assertCanSetRolePosition actorRank position =
    (if actorRank \<le> position then Inl (APIError ''FORBIDDEN'' (Some ''Cannot place a role at or above your own rank''))
     else if position \<le> 100
     then Inl (APIError ''BAD_REQUEST'' (Some ''Role position must be above the member baseline''))
     else Inr ())"

section \<open>The request and the tables of a hook\<close>

record roleRow =
  rr_id :: string
  rr_organizationId :: string
  rr_role :: string
  rr_position :: "int option"

record userRow =
  ur_id :: string
  ur_email :: string

record authDb =
  ad_tables :: database
  ad_roles :: "roleRow list"
  ad_users :: "userRow list"

text \<open>The fields that the hooks read of a request body; the two positions are present when they are numbers.\<close>

record hookBody =
  hb_organizationId :: "json option"
  hb_memberId :: "json option"
  hb_memberIdOrEmail :: "json option"
  hb_role :: "json option"
  hb_roleName :: "json option"
  hb_roleId :: "json option"
  hb_additionalPosition :: "int option"
  hb_dataPosition :: "int option"
  hb_dataRoleName :: "json option"

record hookSession =
  hs_userId :: "string option"
  hs_activeOrganizationId :: "string option"

record hookCtx =
  hc_path :: string
  hc_body :: hookBody
  hc_session :: "hookSession option"

definition loadDynamicRoles :: "authDb \<Rightarrow> string \<Rightarrow> rolePositionRecord list" where
  "loadDynamicRoles db organizationId =
    map (\<lambda>row. \<lparr>rp_role = rr_role row, rp_position = Some (or_default (rr_position row) DEFAULT_DYNAMIC_ROLE_POSITION)\<rparr>)
      (filter (\<lambda>row. rr_organizationId row = organizationId) (ad_roles db))"

definition resolveActorMember :: "authDb \<Rightarrow> string \<Rightarrow> string \<Rightarrow> memberRow option" where
  "resolveActorMember db organizationId userId =
    find (\<lambda>m. mb_organizationId m = organizationId \<and> mb_userId m = userId) (db_members (ad_tables db))"

fun asString :: "json option \<Rightarrow> string option" where
  "asString (Some (JStr s)) = Some s"
| "asString _ = None"

fun roleFieldFromBody :: "json option \<Rightarrow> string" where
  "roleFieldFromBody (Some (JArr vs)) = join '','' (map property_key vs)"
| "roleFieldFromBody None = []"
| "roleFieldFromBody (Some JNull) = []"
| "roleFieldFromBody (Some v) = property_key v"

text \<open>A text that is present and not empty.\<close>

definition nonempty :: "string option \<Rightarrow> string option" where
  "nonempty s = (case s of Some t \<Rightarrow> if t = [] then None else Some t | None \<Rightarrow> None)"

definition requireOrgId :: "hookCtx \<Rightarrow> apiError + string \<times> string" where
  "requireOrgId ctx = (case Option.bind (hc_session ctx) hs_userId of
       None \<Rightarrow> Inl (APIError ''UNAUTHORIZED'' None)
     | Some user \<Rightarrow>
         (case nonempty (asString (hb_organizationId (hc_body ctx))) of
            Some orgId \<Rightarrow> Inr (orgId, user)
          | None \<Rightarrow>
              (case nonempty (Option.bind (hc_session ctx) hs_activeOrganizationId) of
                 Some orgId \<Rightarrow> Inr (orgId, user)
               | None \<Rightarrow> Inl (APIError ''BAD_REQUEST'' (Some ''Organization ID is required'')))))"

definition requireActor :: "authDb \<Rightarrow> string \<Rightarrow> string \<Rightarrow> apiError + memberRow" where
  "requireActor db organizationId userId = (case resolveActorMember db organizationId userId of
       None \<Rightarrow> Inl (APIError ''FORBIDDEN'' None)
     | Some actor \<Rightarrow> Inr actor)"

definition rank_in :: "authDb \<Rightarrow> string \<Rightarrow> string \<Rightarrow> int" where
  "rank_in db organizationId roleField = getHighestRolePosition roleField (loadDynamicRoles db organizationId)"

section \<open>Hooks\<close>

definition enforceUpdateMemberRole :: "authDb \<Rightarrow> hookCtx \<Rightarrow> apiError + unit" where
  "enforceUpdateMemberRole db ctx =
    res_bind (requireOrgId ctx) (\<lambda>(orgId, user).
    res_bind (requireActor db orgId user) (\<lambda>actor.
      case nonempty (asString (hb_memberId (hc_body ctx))) of
        None \<Rightarrow> Inl (APIError ''BAD_REQUEST'' (Some ''memberId is required''))
      | Some memberId \<Rightarrow>
          (case find (\<lambda>m. mb_id m = memberId) (db_members (ad_tables db)) of
             None \<Rightarrow> Inl (APIError ''BAD_REQUEST'' (Some ''Member not found''))
           | Some target \<Rightarrow>
               let actorRank = rank_in db orgId (mb_role actor) in
               res_bind (assertCanManageTarget actorRank (rank_in db orgId (mb_role target))) (\<lambda>_.
                 assertCanAssignRole actorRank (rank_in db orgId (roleFieldFromBody (hb_role (hc_body ctx))))))))"

definition removal_target :: "authDb \<Rightarrow> string \<Rightarrow> string \<Rightarrow> memberRow option" where
  "removal_target db orgId memberIdOrEmail =
    (case find (\<lambda>m. mb_id m = memberIdOrEmail) (db_members (ad_tables db)) of
       Some target \<Rightarrow> Some target
     | None \<Rightarrow>
         if CHR ''@'' \<in> set memberIdOrEmail then
           (case find (\<lambda>u. ur_email u = memberIdOrEmail) (ad_users db) of
              Some u \<Rightarrow> if ur_id u = [] then None else resolveActorMember db orgId (ur_id u)
            | None \<Rightarrow> None)
         else None)"

definition enforceRemoveMember :: "authDb \<Rightarrow> hookCtx \<Rightarrow> apiError + unit" where
  "enforceRemoveMember db ctx =
    res_bind (requireOrgId ctx) (\<lambda>(orgId, user).
    res_bind (requireActor db orgId user) (\<lambda>actor.
      case nonempty (asString (hb_memberIdOrEmail (hc_body ctx))) of
        None \<Rightarrow> Inl (APIError ''BAD_REQUEST'' (Some ''memberIdOrEmail is required''))
      | Some memberIdOrEmail \<Rightarrow>
          (case removal_target db orgId memberIdOrEmail of
             None \<Rightarrow> Inl (APIError ''BAD_REQUEST'' (Some ''Member not found''))
           | Some target \<Rightarrow>
               assertCanManageTarget (rank_in db orgId (mb_role actor)) (rank_in db orgId (mb_role target)))))"

definition enforceInviteMember :: "authDb \<Rightarrow> hookCtx \<Rightarrow> apiError + unit" where
  "enforceInviteMember db ctx =
    res_bind (requireOrgId ctx) (\<lambda>(orgId, user).
    res_bind (requireActor db orgId user) (\<lambda>actor.
      assertCanAssignRole (rank_in db orgId (mb_role actor))
        (rank_in db orgId (roleFieldFromBody (hb_role (hc_body ctx))))))"

text \<open>On success, the position that the hook writes into the body.\<close>

definition enforceCreateRole :: "authDb \<Rightarrow> hookCtx \<Rightarrow> apiError + int" where
  "enforceCreateRole db ctx =
    res_bind (requireOrgId ctx) (\<lambda>(orgId, user).
      case requirePlanFeature (ad_tables db) orgId CustomRoles of
        Inl e \<Rightarrow> Inl (APIError ''BAD_REQUEST'' (Some (planError_message e)))
      | Inr _ \<Rightarrow>
          (case nonempty (asString (hb_role (hc_body ctx))) of
             None \<Rightarrow> Inl (APIError ''BAD_REQUEST'' (Some ''role is required''))
           | Some roleName \<Rightarrow>
               if isStaticRoleName roleName
               then Inl (APIError ''BAD_REQUEST'' (Some ''Cannot create a role with a static role name''))
               else res_bind (requireActor db orgId user) (\<lambda>actor.
                 let actorRank = rank_in db orgId (mb_role actor);
                     position = (case hb_additionalPosition (hc_body ctx) of Some pos \<Rightarrow> pos
                       | None \<Rightarrow> min (actorRank - 1) DEFAULT_DYNAMIC_ROLE_POSITION)
                 in res_bind (assertCanSetRolePosition actorRank position) (\<lambda>_. Inr position))))"

definition existing_role :: "authDb \<Rightarrow> string \<Rightarrow> hookBody \<Rightarrow> roleRow option" where
  "existing_role db orgId body = (case nonempty (asString (hb_roleId body)) of
       Some roleId \<Rightarrow> find (\<lambda>r. rr_id r = roleId) (ad_roles db)
     | None \<Rightarrow>
         (case nonempty (asString (hb_roleName body)) of
            Some roleName \<Rightarrow> find (\<lambda>r. toLowerCase (rr_role r) = toLowerCase roleName)
              (filter (\<lambda>r. rr_organizationId r = orgId) (ad_roles db))
          | None \<Rightarrow> None))"

definition current_name :: "authDb \<Rightarrow> string \<Rightarrow> hookBody \<Rightarrow> string" where
  "current_name db orgId body = (case existing_role db orgId body of
       Some row \<Rightarrow> rr_role row
     | None \<Rightarrow> or_default (asString (hb_roleName body)) [])"

definition current_position :: "authDb \<Rightarrow> string \<Rightarrow> hookBody \<Rightarrow> int" where
  "current_position db orgId body = (case Option.bind (existing_role db orgId body) rr_position of
       Some pos \<Rightarrow> pos
     | None \<Rightarrow> getRolePosition (current_name db orgId body) (loadDynamicRoles db orgId))"

definition enforceUpdateRole :: "authDb \<Rightarrow> hookCtx \<Rightarrow> apiError + unit" where
  "enforceUpdateRole db ctx = (let body = hc_body ctx in
    res_bind (requireOrgId ctx) (\<lambda>(orgId, user).
    res_bind (requireActor db orgId user) (\<lambda>actor.
      let actorRank = rank_in db orgId (mb_role actor) in
      res_bind (assertCanManageRoleDefinition actorRank (current_position db orgId body) (current_name db orgId body)) (\<lambda>_.
      res_bind (case hb_dataPosition body of Some pos \<Rightarrow> assertCanSetRolePosition actorRank pos | None \<Rightarrow> Inr ()) (\<lambda>_.
        case asString (hb_dataRoleName body) of
          Some name \<Rightarrow> if isStaticRoleName name
            then Inl (APIError ''BAD_REQUEST'' (Some ''Cannot rename a role to a static role name'')) else Inr ()
        | None \<Rightarrow> Inr ())))))"

definition enforceDeleteRole :: "authDb \<Rightarrow> hookCtx \<Rightarrow> apiError + unit" where
  "enforceDeleteRole db ctx = (let body = hc_body ctx in
    res_bind (requireOrgId ctx) (\<lambda>(orgId, user).
    res_bind (requireActor db orgId user) (\<lambda>actor.
      assertCanManageRoleDefinition (rank_in db orgId (mb_role actor))
        (current_position db orgId body) (current_name db orgId body))))"

definition hierarchyBeforeHook :: "authDb \<Rightarrow> hookCtx \<Rightarrow> apiError + unit" where
  "hierarchyBeforeHook db ctx = (let path = hc_path ctx in
     if path \<notin> {''/organization/update-member-role'', ''/organization/remove-member'', ''/organization/invite-member'',
       ''/organization/create-role'', ''/organization/update-role'', ''/organization/delete-role''} then Inr ()
     else if hc_session ctx = None then Inl (APIError ''UNAUTHORIZED'' None)
     else if path = ''/organization/update-member-role'' then enforceUpdateMemberRole db ctx
     else if path = ''/organization/remove-member'' then enforceRemoveMember db ctx
     else if path = ''/organization/invite-member'' then enforceInviteMember db ctx
     else if path = ''/organization/create-role'' then res_bind (enforceCreateRole db ctx) (\<lambda>_. Inr ())
     else if path = ''/organization/update-role'' then enforceUpdateRole db ctx
     else enforceDeleteRole db ctx)"

section \<open>Effects of the endpoints\<close>

text \<open>
  What the endpoints of the organization plugin do when the hook and their own checks let them: they
  act on members and roles of the organization only, and a role keeps a name that no other role of the
  organization has, up to case.
\<close>

definition with_members :: "(memberRow list \<Rightarrow> memberRow list) \<Rightarrow> authDb \<Rightarrow> authDb" where
  "with_members f db = db\<lparr>ad_tables := (ad_tables db)\<lparr>db_members := f (db_members (ad_tables db))\<rparr>\<rparr>"

definition with_invitations :: "(invitationRow list \<Rightarrow> invitationRow list) \<Rightarrow> authDb \<Rightarrow> authDb" where
  "with_invitations f db = db\<lparr>ad_tables := (ad_tables db)\<lparr>db_invitations := f (db_invitations (ad_tables db))\<rparr>\<rparr>"

definition with_roles :: "(roleRow list \<Rightarrow> roleRow list) \<Rightarrow> authDb \<Rightarrow> authDb" where
  "with_roles f db = db\<lparr>ad_roles := f (ad_roles db)\<rparr>"

definition org_members :: "authDb \<Rightarrow> string \<Rightarrow> memberRow list" where
  "org_members db orgId = filter (\<lambda>m. mb_organizationId m = orgId) (db_members (ad_tables db))"

definition org_invitations :: "authDb \<Rightarrow> string \<Rightarrow> invitationRow list" where
  "org_invitations db orgId = filter (\<lambda>i. iv_organizationId i = orgId) (db_invitations (ad_tables db))"

definition org_roles :: "authDb \<Rightarrow> string \<Rightarrow> roleRow list" where
  "org_roles db orgId = filter (\<lambda>r. rr_organizationId r = orgId) (ad_roles db)"

definition lname :: "roleRow \<Rightarrow> string" where
  "lname r = toLowerCase (rr_role r)"

definition updated_role :: "hookBody \<Rightarrow> roleRow \<Rightarrow> roleRow" where
  "updated_role body r = r\<lparr>
     rr_position := (case hb_dataPosition body of Some pos \<Rightarrow> Some pos | None \<Rightarrow> rr_position r),
     rr_role := or_default (asString (hb_dataRoleName body)) (rr_role r)\<rparr>"

inductive endpoint :: "string \<Rightarrow> string \<Rightarrow> authDb \<Rightarrow> authDb \<Rightarrow> bool" for orgId user where
  Refused: "endpoint orgId user db db"
| UpdateMemberRole:
    "hc_path ctx = ''/organization/update-member-role'' \<Longrightarrow> hierarchyBeforeHook db ctx = Inr () \<Longrightarrow>
     requireOrgId ctx = Inr (orgId, user) \<Longrightarrow> asString (hb_memberId (hc_body ctx)) = Some memberId \<Longrightarrow>
     endpoint orgId user db (with_members
       (map (\<lambda>m. if mb_id m = memberId then m\<lparr>mb_role := roleFieldFromBody (hb_role (hc_body ctx))\<rparr> else m)) db)"
| RemoveMember:
    "hc_path ctx = ''/organization/remove-member'' \<Longrightarrow> hierarchyBeforeHook db ctx = Inr () \<Longrightarrow>
     requireOrgId ctx = Inr (orgId, user) \<Longrightarrow> asString (hb_memberIdOrEmail (hc_body ctx)) = Some who \<Longrightarrow>
     removal_target db orgId who = Some target \<Longrightarrow>
     endpoint orgId user db (with_members (filter (\<lambda>m. mb_id m \<noteq> mb_id target)) db)"
| InviteMember:
    "hc_path ctx = ''/organization/invite-member'' \<Longrightarrow> hierarchyBeforeHook db ctx = Inr () \<Longrightarrow>
     requireOrgId ctx = Inr (orgId, user) \<Longrightarrow> iv_role invite = Some (roleFieldFromBody (hb_role (hc_body ctx))) \<Longrightarrow>
     endpoint orgId user db (with_invitations (\<lambda>is. is @ [invite]) db)"
| CreateRole:
    "hc_path ctx = ''/organization/create-role'' \<Longrightarrow> hierarchyBeforeHook db ctx = Inr () \<Longrightarrow>
     requireOrgId ctx = Inr (orgId, user) \<Longrightarrow> enforceCreateRole db ctx = Inr pos \<Longrightarrow>
     asString (hb_role (hc_body ctx)) = Some name \<Longrightarrow>
     r = \<lparr>rr_id = rid, rr_organizationId = orgId, rr_role = name, rr_position = Some pos\<rparr> \<Longrightarrow>
     rid \<notin> rr_id ` set (ad_roles db) \<Longrightarrow> lname r \<notin> lname ` set (org_roles db orgId) \<Longrightarrow>
     endpoint orgId user db (with_roles (\<lambda>rs. rs @ [r]) db)"
| UpdateRole:
    "hc_path ctx = ''/organization/update-role'' \<Longrightarrow> hierarchyBeforeHook db ctx = Inr () \<Longrightarrow>
     requireOrgId ctx = Inr (orgId, user) \<Longrightarrow> existing_role db orgId (hc_body ctx) = Some r \<Longrightarrow>
     rr_organizationId r = orgId \<Longrightarrow>
     lname (updated_role (hc_body ctx) r) \<notin> lname ` (set (org_roles db orgId) - {r}) \<Longrightarrow>
     endpoint orgId user db (with_roles (map (\<lambda>q. if rr_id q = rr_id r then updated_role (hc_body ctx) q else q)) db)"
| DeleteRole:
    "hc_path ctx = ''/organization/delete-role'' \<Longrightarrow> hierarchyBeforeHook db ctx = Inr () \<Longrightarrow>
     requireOrgId ctx = Inr (orgId, user) \<Longrightarrow> existing_role db orgId (hc_body ctx) = Some r \<Longrightarrow>
     rr_organizationId r = orgId \<Longrightarrow>
     endpoint orgId user db (with_roles (filter (\<lambda>q. rr_id q \<noteq> rr_id r)) db)"

inductive_cases endpoint_cases: "endpoint orgId user db db'"

text \<open>What the database guarantees: keys are unique, and dynamic roles stand above the member baseline.\<close>

definition auth_wf :: "authDb \<Rightarrow> string \<Rightarrow> bool" where
  "auth_wf db orgId \<longleftrightarrow> distinct (map mb_id (db_members (ad_tables db))) \<and> distinct (map rr_id (ad_roles db)) \<and>
     distinct (map lname (org_roles db orgId)) \<and>
     (\<forall>r \<in> set (org_roles db orgId). 100 < or_default (rr_position r) DEFAULT_DYNAMIC_ROLE_POSITION)"

section \<open>Positions under a change of roles\<close>

definition pos_of :: "roleRow \<Rightarrow> int" where
  "pos_of r = or_default (rr_position r) DEFAULT_DYNAMIC_ROLE_POSITION"

definition dyn_pos :: "string \<Rightarrow> roleRow list \<Rightarrow> int" where
  "dyn_pos k rs = (case find (\<lambda>r. lname r = k) rs of Some r \<Rightarrow> pos_of r | None \<Rightarrow> DEFAULT_DYNAMIC_ROLE_POSITION)"

lemma find_map: "find P (map f xs) = map_option f (find (\<lambda>x. P (f x)) xs)"
  by (induction xs) auto

lemma getRolePosition_load:
  "getRolePosition n (loadDynamicRoles db orgId) =
    (case getStaticRolePosition n of Some p \<Rightarrow> p | None \<Rightarrow> dyn_pos (toLowerCase n) (org_roles db orgId))"
  by (auto simp: getRolePosition_def loadDynamicRoles_def find_map dyn_pos_def pos_of_def lname_def org_roles_def
      split: option.split)

lemma find_distinct: "distinct (map f xs) \<Longrightarrow> x \<in> set xs \<Longrightarrow> find (\<lambda>y. f y = f x) xs = Some x"
  by (induction xs) (auto simp: image_iff)

lemma dyn_pos_in: "distinct (map lname rs) \<Longrightarrow> r \<in> set rs \<Longrightarrow> dyn_pos (lname r) rs = pos_of r"
  by (simp add: dyn_pos_def find_distinct)

lemma dyn_pos_out: "k \<notin> lname ` set rs \<Longrightarrow> dyn_pos k rs = DEFAULT_DYNAMIC_ROLE_POSITION"
proof -
  assume "k \<notin> lname ` set rs"
  then have "find (\<lambda>r. lname r = k) rs = None" by (auto simp: find_None_iff)
  then show ?thesis by (simp add: dyn_pos_def)
qed

text \<open>Two lists of roles that differ only in roles below a rank give positions that differ only below it.\<close>

definition same_above :: "int \<Rightarrow> (string \<Rightarrow> int) \<Rightarrow> (string \<Rightarrow> int) \<Rightarrow> bool" where
  "same_above R f g \<longleftrightarrow> (\<forall>n. g n = f n \<or> (f n < R \<and> g n < R))"

lemma dyn_pos_low:
  assumes "distinct (map lname rs)" "k \<notin> lname ` A" "\<forall>r \<in> set rs - A. pos_of r < R" "DEFAULT_DYNAMIC_ROLE_POSITION < R"
  shows "dyn_pos k rs < R"
proof (cases "k \<in> lname ` set rs")
  case True
  then obtain r where "r \<in> set rs" "lname r = k" by auto
  then show ?thesis using assms dyn_pos_in [of rs r] by auto
qed (simp add: dyn_pos_out assms(4))

lemma roles_change:
  assumes "distinct (map lname rs)" "distinct (map lname rs')" "A \<subseteq> set rs" "A \<subseteq> set rs'"
    and "\<forall>r \<in> set rs - A. pos_of r < R" "\<forall>r \<in> set rs' - A. pos_of r < R" "DEFAULT_DYNAMIC_ROLE_POSITION < R"
  shows "same_above R (\<lambda>k. dyn_pos k rs) (\<lambda>k. dyn_pos k rs')"
  unfolding same_above_def
proof
  fix k
  show "dyn_pos k rs' = dyn_pos k rs \<or> dyn_pos k rs < R \<and> dyn_pos k rs' < R"
  proof (cases "k \<in> lname ` A")
    case True
    then obtain r where r: "r \<in> A" "k = lname r" by auto
    then have "dyn_pos k rs = pos_of r" "dyn_pos k rs' = pos_of r" using assms(1-4) dyn_pos_in by blast+
    then show ?thesis by simp
  next
    case False
    then show ?thesis using assms dyn_pos_low by blast
  qed
qed

lemma Max_same_above:
  assumes "same_above R f g" "ns \<noteq> []" "R \<le> Max (set (map f ns))"
  shows "Max (set (map g ns)) = Max (set (map f ns))"
proof -
  have fin: "finite (set (map f ns))" "set (map f ns) \<noteq> {}" using assms(2) by auto
  from Max_in [OF fin] obtain n where n: "n \<in> set ns" "Max (set (map f ns)) = f n" by auto
  then have "g n = f n" using assms(1,3) by (auto simp: same_above_def)
  have "g m \<le> f n" if "m \<in> set ns" for m
  proof -
    have "f m \<le> f n" unfolding n(2) [symmetric] using Max_ge [OF fin(1), of "f m"] that by simp
    moreover have "g m = f m \<or> g m < R" using assms(1) by (auto simp: same_above_def)
    ultimately show ?thesis using assms(3) n(2) by linarith
  qed
  moreover have "f n \<in> set (map g ns)" using n(1) \<open>g n = f n\<close> by (metis image_eqI list.set_map)
  ultimately have "Max (set (map g ns)) = f n" by (intro Max_eqI) auto
  then show ?thesis using n(2) by simp
qed

lemma same_above_sym: "same_above R f g \<Longrightarrow> same_above R g f"
  unfolding same_above_def by (metis (no_types))

definition same_rank :: "int \<Rightarrow> int \<Rightarrow> int \<Rightarrow> bool" where
  "same_rank R a b \<longleftrightarrow> (R \<le> a \<longleftrightarrow> R \<le> b) \<and> (R \<le> a \<longrightarrow> b = a)"

lemma rank_same_above:
  assumes "same_above R (\<lambda>k. dyn_pos k (org_roles db orgId)) (\<lambda>k. dyn_pos k (org_roles db' orgId))"
  shows "same_rank R (rank_in db orgId role) (rank_in db' orgId role)"
proof (cases "parseRoleNames role = []")
  case True
  then show ?thesis by (simp add: rank_in_def getHighestRolePosition_def same_rank_def)
next
  case False
  let ?f = "\<lambda>n. getRolePosition n (loadDynamicRoles db orgId)" and ?g = "\<lambda>n. getRolePosition n (loadDynamicRoles db' orgId)"
  have s: "same_above R ?f ?g"
    unfolding same_above_def
  proof
    fix n
    show "?g n = ?f n \<or> ?f n < R \<and> ?g n < R"
      using assms [unfolded same_above_def, rule_format, of "toLowerCase n"]
      by (cases "getStaticRolePosition n") (simp_all add: getRolePosition_load)
  qed
  let ?a = "Max (set (map ?f (parseRoleNames role)))" and ?b = "Max (set (map ?g (parseRoleNames role)))"
  have "R \<le> ?a \<Longrightarrow> ?b = ?a" "R \<le> ?b \<Longrightarrow> ?a = ?b"
    using Max_same_above [OF s False] Max_same_above [OF same_above_sym [OF s] False] by blast+
  then have "same_rank R ?a ?b" unfolding same_rank_def by (metis (no_types))
  then show ?thesis using False by (simp only: rank_in_def getHighestRolePosition_def Let_def if_False)
qed

section \<open>What an endpoint leaves alone\<close>

text \<open>The members and the invitations of an organization at or above a rank, with their ranks.\<close>

definition strong_members :: "int \<Rightarrow> authDb \<Rightarrow> string \<Rightarrow> (memberRow \<times> int) list" where
  "strong_members R db orgId = map (\<lambda>m. (m, rank_in db orgId (mb_role m)))
     (filter (\<lambda>m. R \<le> rank_in db orgId (mb_role m)) (org_members db orgId))"

definition strong_invitations :: "int \<Rightarrow> authDb \<Rightarrow> string \<Rightarrow> (invitationRow \<times> int) list" where
  "strong_invitations R db orgId = map (\<lambda>i. (i, rank_in db orgId (or_default (iv_role i) [])))
     (filter (\<lambda>i. R \<le> rank_in db orgId (or_default (iv_role i) [])) (org_invitations db orgId))"

definition protects :: "int \<Rightarrow> string \<Rightarrow> authDb \<Rightarrow> authDb \<Rightarrow> bool" where
  "protects R orgId db db' \<longleftrightarrow> strong_members R db' orgId = strong_members R db orgId \<and>
     strong_invitations R db' orgId = strong_invitations R db orgId"

lemma map_filter_same_rank:
  assumes "\<And>x. same_rank R (f x) (g x)"
  shows "map (\<lambda>x. (x, g x)) (filter (\<lambda>x. R \<le> g x) xs) = map (\<lambda>x. (x, f x)) (filter (\<lambda>x. R \<le> f x) xs)"
proof (induction xs)
  case (Cons x xs)
  show ?case
  proof (cases "R \<le> f x")
    case True
    then have "g x = f x" using assms [of x] by (simp add: same_rank_def)
    then show ?thesis using True Cons.IH by simp
  next
    case False
    then have "\<not> R \<le> g x" using assms [of x] by (simp add: same_rank_def)
    then show ?thesis using False Cons.IH by simp
  qed
qed simp

lemma protects_roles:
  assumes "ad_tables db' = ad_tables db"
    and "same_above R (\<lambda>k. dyn_pos k (org_roles db orgId)) (\<lambda>k. dyn_pos k (org_roles db' orgId))"
  shows "protects R orgId db db'"
proof -
  have "org_members db' orgId = org_members db orgId" "org_invitations db' orgId = org_invitations db orgId"
    using assms(1) by (simp_all add: org_members_def org_invitations_def)
  then show ?thesis
    unfolding protects_def strong_members_def strong_invitations_def
    using rank_same_above [OF assms(2)] by (auto intro!: map_filter_same_rank)
qed

lemma rank_in_roles: "ad_roles db' = ad_roles db \<Longrightarrow> rank_in db' orgId role = rank_in db orgId role"
  by (simp add: rank_in_def loadDynamicRoles_def)

lemma with_simps [simp]:
  "ad_roles (with_members f db) = ad_roles db" "ad_roles (with_invitations g db) = ad_roles db"
  "ad_tables (with_roles h db) = ad_tables db" "ad_roles (with_roles h db) = h (ad_roles db)"
  "db_members (ad_tables (with_members f db)) = f (db_members (ad_tables db))"
  "db_members (ad_tables (with_invitations g db)) = db_members (ad_tables db)"
  "db_invitations (ad_tables (with_members f db)) = db_invitations (ad_tables db)"
  "db_invitations (ad_tables (with_invitations g db)) = g (db_invitations (ad_tables db))"
  by (simp_all add: with_members_def with_invitations_def with_roles_def)

lemma rank_in_with [simp]:
  "rank_in (with_members f db) = rank_in db" "rank_in (with_invitations g db) = rank_in db"
  by (auto simp: fun_eq_iff intro: rank_in_roles)

lemma protects_members:
  assumes "\<And>P. (\<And>m. P m \<Longrightarrow> R \<le> rank_in db orgId (mb_role m)) \<Longrightarrow>
      filter P (f (db_members (ad_tables db))) = filter P (db_members (ad_tables db))"
  shows "protects R orgId db (with_members f db)"
proof -
  have "filter (\<lambda>m. R \<le> rank_in db orgId (mb_role m)) (org_members (with_members f db) orgId) =
      filter (\<lambda>m. R \<le> rank_in db orgId (mb_role m)) (org_members db orgId)"
    using assms [of "\<lambda>m. mb_organizationId m = orgId \<and> R \<le> rank_in db orgId (mb_role m)"]
    by (simp add: org_members_def)
  then show ?thesis
    by (simp add: protects_def strong_members_def strong_invitations_def org_invitations_def)
qed

lemma filter_map_unchanged:
  "(\<And>x. x \<in> set xs \<Longrightarrow> P (h x) = P x \<and> (P x \<longrightarrow> h x = x)) \<Longrightarrow> filter P (map h xs) = filter P xs"
  by (induction xs) auto

lemma filter_filter_unchanged:
  "(\<And>x. x \<in> set xs \<Longrightarrow> P x \<Longrightarrow> Q x) \<Longrightarrow> filter P (filter Q xs) = filter P xs"
  by (auto intro: filter_cong)

section \<open>What a hook establishes\<close>

lemma find_SomeD: "find P xs = Some x \<Longrightarrow> x \<in> set xs \<and> P x"
  by (auto simp: find_Some_iff)

lemma assert_iffs:
  "assertCanManageTarget a b = Inr u \<longleftrightarrow> b < a" "assertCanAssignRole a b = Inr u \<longleftrightarrow> b < a"
  "assertCanManageRoleDefinition a p n = Inr u \<longleftrightarrow> \<not> isStaticRoleName n \<and> p < a"
  "assertCanSetRolePosition a p = Inr u \<longleftrightarrow> p < a \<and> 100 < p"
  by (auto simp: assertCanManageTarget_def assertCanAssignRole_def assertCanManageRoleDefinition_def
      assertCanSetRolePosition_def)

lemma requireActor_iff: "requireActor db orgId user = Inr actor \<longleftrightarrow> resolveActorMember db orgId user = Some actor"
  by (auto simp: requireActor_def split: option.splits)

lemma nonempty_Some: "nonempty v = Some s \<longleftrightarrow> v = Some s \<and> s \<noteq> []"
  by (auto simp: nonempty_def split: option.splits if_splits)

lemma hook_dispatch:
  assumes "hierarchyBeforeHook db ctx = Inr ()"
  shows "hc_path ctx = ''/organization/update-member-role'' \<Longrightarrow> enforceUpdateMemberRole db ctx = Inr ()"
    "hc_path ctx = ''/organization/remove-member'' \<Longrightarrow> enforceRemoveMember db ctx = Inr ()"
    "hc_path ctx = ''/organization/invite-member'' \<Longrightarrow> enforceInviteMember db ctx = Inr ()"
    "hc_path ctx = ''/organization/update-role'' \<Longrightarrow> enforceUpdateRole db ctx = Inr ()"
    "hc_path ctx = ''/organization/delete-role'' \<Longrightarrow> enforceDeleteRole db ctx = Inr ()"
  using assms by (simp_all add: hierarchyBeforeHook_def Let_def guard_Inr_iff)

lemma update_member_hook:
  assumes "enforceUpdateMemberRole db ctx = Inr ()" "requireOrgId ctx = Inr (orgId, user)"
    and "resolveActorMember db orgId user = Some actor" "asString (hb_memberId (hc_body ctx)) = Some memberId"
  obtains target where "find (\<lambda>m. mb_id m = memberId) (db_members (ad_tables db)) = Some target"
    "rank_in db orgId (mb_role target) < rank_in db orgId (mb_role actor)"
    "rank_in db orgId (roleFieldFromBody (hb_role (hc_body ctx))) < rank_in db orgId (mb_role actor)"
proof (cases "nonempty (Some memberId)")
  case None
  then show ?thesis using assms by (simp add: enforceUpdateMemberRole_def requireActor_def)
next
  case (Some s)
  then have s: "nonempty (Some memberId) = Some memberId" by (simp add: nonempty_Some)
  show ?thesis
  proof (cases "find (\<lambda>m. mb_id m = memberId) (db_members (ad_tables db))")
    case None
    then show ?thesis using assms s by (simp add: enforceUpdateMemberRole_def requireActor_def)
  next
    case (Some target)
    then show ?thesis using assms s that
      by (simp add: enforceUpdateMemberRole_def requireActor_def Let_def res_bind_Inr_iff assert_iffs)
  qed
qed

lemma remove_member_hook:
  assumes "enforceRemoveMember db ctx = Inr ()" "requireOrgId ctx = Inr (orgId, user)"
    and "resolveActorMember db orgId user = Some actor" "asString (hb_memberIdOrEmail (hc_body ctx)) = Some who"
    and "removal_target db orgId who = Some target"
  shows "rank_in db orgId (mb_role target) < rank_in db orgId (mb_role actor)"
  using assms by (cases "nonempty (Some who)")
    (auto simp: enforceRemoveMember_def requireActor_def assert_iffs nonempty_Some)

lemma invite_member_hook:
  assumes "enforceInviteMember db ctx = Inr ()" "requireOrgId ctx = Inr (orgId, user)"
    and "resolveActorMember db orgId user = Some actor"
  shows "rank_in db orgId (roleFieldFromBody (hb_role (hc_body ctx))) < rank_in db orgId (mb_role actor)"
  using assms by (simp add: enforceInviteMember_def requireActor_def assert_iffs)

lemma create_role_hook:
  assumes "enforceCreateRole db ctx = Inr pos" "requireOrgId ctx = Inr (orgId, user)"
    and "resolveActorMember db orgId user = Some actor"
  shows "100 < pos \<and> pos < rank_in db orgId (mb_role actor)"
proof (cases "requirePlanFeature (ad_tables db) orgId CustomRoles")
  case (Inl e)
  then show ?thesis using assms by (simp add: enforceCreateRole_def)
next
  case (Inr p)
  then show ?thesis using assms
    by (cases "nonempty (asString (hb_role (hc_body ctx)))")
      (auto simp: enforceCreateRole_def requireActor_def Let_def res_bind_Inr_iff assert_iffs split: if_splits)
qed

lemma update_role_hook:
  assumes "enforceUpdateRole db ctx = Inr ()" "requireOrgId ctx = Inr (orgId, user)"
    and "resolveActorMember db orgId user = Some actor" "R = rank_in db orgId (mb_role actor)"
  shows "\<not> isStaticRoleName (current_name db orgId (hc_body ctx)) \<and> current_position db orgId (hc_body ctx) < R \<and>
    (\<forall>pos. hb_dataPosition (hc_body ctx) = Some pos \<longrightarrow> 100 < pos \<and> pos < R)"
  using assms by (cases "hb_dataPosition (hc_body ctx)")
    (auto simp: enforceUpdateRole_def requireActor_def Let_def res_bind_Inr_iff assert_iffs)

lemma delete_role_hook:
  assumes "enforceDeleteRole db ctx = Inr ()" "requireOrgId ctx = Inr (orgId, user)"
    and "resolveActorMember db orgId user = Some actor"
  shows "\<not> isStaticRoleName (current_name db orgId (hc_body ctx)) \<and>
    current_position db orgId (hc_body ctx) < rank_in db orgId (mb_role actor)"
  using assms by (simp add: enforceDeleteRole_def requireActor_def Let_def assert_iffs)

section \<open>Every endpoint protects what is at or above the actor\<close>

lemma auth_wf_member: "auth_wf db orgId \<Longrightarrow> m \<in> set (db_members (ad_tables db)) \<Longrightarrow>
    n \<in> set (db_members (ad_tables db)) \<Longrightarrow> mb_id m = mb_id n \<Longrightarrow> m = n"
  unfolding auth_wf_def distinct_map by (blast dest: inj_onD)

lemma auth_wf_role: "auth_wf db orgId \<Longrightarrow> q \<in> set (ad_roles db) \<Longrightarrow> r \<in> set (ad_roles db) \<Longrightarrow> rr_id q = rr_id r \<Longrightarrow> q = r"
  unfolding auth_wf_def distinct_map by (blast dest: inj_onD)

lemma protects_update_member:
  assumes "auth_wf db orgId" "find (\<lambda>m. mb_id m = memberId) (db_members (ad_tables db)) = Some target"
    and "rank_in db orgId (mb_role target) < R" "rank_in db orgId role < R"
  shows "protects R orgId db (with_members (map (\<lambda>m. if mb_id m = memberId then m\<lparr>mb_role := role\<rparr> else m)) db)"
proof (rule protects_members, rule filter_map_unchanged)
  fix P :: "memberRow \<Rightarrow> bool" and m
  assume P: "\<And>m. P m \<Longrightarrow> R \<le> rank_in db orgId (mb_role m)" and m: "m \<in> set (db_members (ad_tables db))"
  have "m = target" if "mb_id m = memberId"
    using find_SomeD [OF assms(2)] m that auth_wf_member [OF assms(1)] by blast
  then show "P (if mb_id m = memberId then m\<lparr>mb_role := role\<rparr> else m) = P m \<and>
      (P m \<longrightarrow> (if mb_id m = memberId then m\<lparr>mb_role := role\<rparr> else m) = m)"
    using P [of m] P [of "m\<lparr>mb_role := role\<rparr>"] assms(3,4) by auto
qed

lemma protects_remove_member:
  assumes "auth_wf db orgId" "target \<in> set (db_members (ad_tables db))" "rank_in db orgId (mb_role target) < R"
  shows "protects R orgId db (with_members (filter (\<lambda>m. mb_id m \<noteq> mb_id target)) db)"
proof (rule protects_members, rule filter_filter_unchanged)
  fix P :: "memberRow \<Rightarrow> bool" and m
  assume m: "\<And>m. P m \<Longrightarrow> R \<le> rank_in db orgId (mb_role m)" "m \<in> set (db_members (ad_tables db))" "P m"
  have "R \<le> rank_in db orgId (mb_role m)" by (rule m(1) [OF m(3)])
  then have "m \<noteq> target" using assms(3) by auto
  then show "mb_id m \<noteq> mb_id target" using auth_wf_member [OF assms(1) m(2) assms(2)] by blast
qed

lemma removal_target_in: "removal_target db orgId who = Some target \<Longrightarrow> target \<in> set (db_members (ad_tables db))"
  by (auto simp: removal_target_def resolveActorMember_def split: option.splits if_splits dest!: find_SomeD)

lemma protects_invite:
  assumes "iv_role invite = Some role" "rank_in db orgId role < R"
  shows "protects R orgId db (with_invitations (\<lambda>is. is @ [invite]) db)"
  using assms by (simp add: protects_def strong_members_def strong_invitations_def org_members_def org_invitations_def or_default_def)

lemma org_roles_in: "r \<in> set (org_roles db orgId) \<longleftrightarrow> r \<in> set (ad_roles db) \<and> rr_organizationId r = orgId"
  by (auto simp: org_roles_def)

lemma protects_create_role:
  assumes "auth_wf db orgId" "rr_organizationId r = orgId" "rr_position r = Some pos" "100 < pos" "pos < R"
    and "lname r \<notin> lname ` set (org_roles db orgId)"
  shows "protects R orgId db (with_roles (\<lambda>rs. rs @ [r]) db)"
proof (rule protects_roles)
  have "org_roles (with_roles (\<lambda>rs. rs @ [r]) db) orgId = org_roles db orgId @ [r]"
    using assms(2) by (simp add: org_roles_def)
  then show "same_above R (\<lambda>k. dyn_pos k (org_roles db orgId)) (\<lambda>k. dyn_pos k (org_roles (with_roles (\<lambda>rs. rs @ [r]) db) orgId))"
    using assms by (intro roles_change [where A = "set (org_roles db orgId)"])
      (auto simp: auth_wf_def pos_of_def or_default_def DEFAULT_DYNAMIC_ROLE_POSITION_def)
qed simp

lemma existing_role_in: "existing_role db orgId body = Some r \<Longrightarrow> r \<in> set (ad_roles db)"
  by (auto simp: existing_role_def split: option.splits dest!: find_SomeD)

lemma managed_role:
  assumes "auth_wf db orgId" "existing_role db orgId body = Some r" "rr_organizationId r = orgId"
    and "\<not> isStaticRoleName (current_name db orgId body)" "current_position db orgId body < R"
  shows "r \<in> set (org_roles db orgId) \<and> pos_of r < R \<and> DEFAULT_DYNAMIC_ROLE_POSITION < R"
proof -
  have r: "r \<in> set (org_roles db orgId)" using assms(2,3) existing_role_in by (simp add: org_roles_in)
  have "current_position db orgId body = pos_of r"
  proof (cases "rr_position r")
    case None
    have "dyn_pos (lname r) (org_roles db orgId) = pos_of r"
      using assms(1) r by (intro dyn_pos_in) (simp_all add: auth_wf_def)
    then show ?thesis using assms(2,4) None
      by (simp add: current_position_def current_name_def getRolePosition_load getStaticRolePosition_def lname_def)
  next
    case (Some p)
    then show ?thesis using assms(2) by (simp add: current_position_def pos_of_def or_default_def)
  qed
  moreover have "100 < pos_of r" using assms(1) r by (auto simp: auth_wf_def pos_of_def)
  ultimately show ?thesis using r assms(5) by (simp add: DEFAULT_DYNAMIC_ROLE_POSITION_def)
qed

lemma protects_delete_role:
  assumes "auth_wf db orgId" "r \<in> set (org_roles db orgId)" "pos_of r < R" "DEFAULT_DYNAMIC_ROLE_POSITION < R"
  shows "protects R orgId db (with_roles (filter (\<lambda>q. rr_id q \<noteq> rr_id r)) db)"
proof (rule protects_roles)
  let ?rs = "org_roles db orgId" and ?rs' = "org_roles (with_roles (filter (\<lambda>q. rr_id q \<noteq> rr_id r)) db) orgId"
  have rs': "?rs' = filter (\<lambda>q. rr_id q \<noteq> rr_id r) ?rs" by (auto simp: org_roles_def intro: filter_cong)
  have only: "q = r" if "q \<in> set ?rs" "rr_id q = rr_id r" for q
    using that assms(2) auth_wf_role [OF assms(1)] by (simp add: org_roles_in)
  show "same_above R (\<lambda>k. dyn_pos k ?rs) (\<lambda>k. dyn_pos k ?rs')"
    using assms only unfolding rs'
    by (intro roles_change [where A = "set ?rs - {r}"]) (auto simp: auth_wf_def distinct_map_filter)
qed simp

lemma updated_role_simps [simp]:
  "rr_id (updated_role body r) = rr_id r" "rr_organizationId (updated_role body r) = rr_organizationId r"
  by (simp_all add: updated_role_def)

lemma inj_on_replace:
  assumes "inj_on f A" "r \<in> A" "\<And>z. z \<in> A - {r} \<Longrightarrow> h z = z" "f (h r) \<notin> f ` (A - {r})"
  shows "inj_on (\<lambda>q. f (h q)) A"
proof (rule inj_onI)
  fix x y
  assume xy: "x \<in> A" "y \<in> A" "f (h x) = f (h y)"
  have ne: "f (h r) \<noteq> f (h z)" if "z \<in> A - {r}" for z using assms(3,4) that by auto
  show "x = y"
  proof (cases "x = r \<or> y = r")
    case True
    then show ?thesis using ne [of x] ne [of y] xy by (metis Diff_iff singletonD)
  next
    case False
    then have "h x = x" "h y = y" using assms(3) xy by blast+
    then show ?thesis using xy inj_onD [OF assms(1)] by metis
  qed
qed

definition update_rows :: "hookBody \<Rightarrow> roleRow \<Rightarrow> roleRow list \<Rightarrow> roleRow list" where
  "update_rows body r = map (\<lambda>q. if rr_id q = rr_id r then updated_role body q else q)"

lemma update_rows_org:
  assumes "auth_wf db orgId" "r \<in> set (org_roles db orgId)"
    and "lname (updated_role body r) \<notin> lname ` (set (org_roles db orgId) - {r})"
  shows "set (org_roles (with_roles (update_rows body r) db) orgId) = insert (updated_role body r) (set (org_roles db orgId) - {r})"
    and "distinct (map lname (org_roles (with_roles (update_rows body r) db) orgId))"
proof -
  define h where "h = (\<lambda>q. if rr_id q = rr_id r then updated_role body q else q)"
  let ?rs = "org_roles db orgId"
  have "filter (\<lambda>r. rr_organizationId r = orgId) (map h qs) = map h (filter (\<lambda>r. rr_organizationId r = orgId) qs)" for qs
    by (induction qs) (auto simp: h_def)
  then have rs': "org_roles (with_roles (update_rows body r) db) orgId = map h ?rs"
    by (simp add: org_roles_def update_rows_def flip: h_def)
  have only: "h q = q" if "q \<in> set ?rs - {r}" for q
    using that assms(2) auth_wf_role [OF assms(1), of q r] by (auto simp: org_roles_in h_def)
  have hr: "h r = updated_role body r" by (simp add: h_def)
  have "h ` (insert r (set ?rs - {r})) = insert (h r) (h ` (set ?rs - {r}))" by (rule image_insert)
  moreover have "h ` (set ?rs - {r}) = set ?rs - {r}" using only by auto
  moreover have "insert r (set ?rs - {r}) = set ?rs" using assms(2) by auto
  ultimately show "set (org_roles (with_roles (update_rows body r) db) orgId) = insert (updated_role body r) (set ?rs - {r})"
    unfolding rs' set_map using hr by metis
  have wf: "distinct ?rs" "inj_on lname (set ?rs)" using assms(1) by (auto simp: auth_wf_def distinct_map)
  have "inj_on (\<lambda>q. lname (h q)) (set ?rs)"
    by (rule inj_on_replace [OF wf(2) assms(2) only]) (use assms(3) hr in simp_all)
  then show "distinct (map lname (org_roles (with_roles (update_rows body r) db) orgId))"
    using wf(1) by (simp add: rs' distinct_map o_def)
qed

lemma protects_update_role:
  assumes "auth_wf db orgId" "r \<in> set (org_roles db orgId)" "pos_of r < R" "DEFAULT_DYNAMIC_ROLE_POSITION < R"
    and "pos_of (updated_role body r) < R" "lname (updated_role body r) \<notin> lname ` (set (org_roles db orgId) - {r})"
  shows "protects R orgId db (with_roles (update_rows body r) db)"
proof (rule protects_roles)
  note rows = update_rows_org [OF assms(1,2,6)]
  show "same_above R (\<lambda>k. dyn_pos k (org_roles db orgId)) (\<lambda>k. dyn_pos k (org_roles (with_roles (update_rows body r) db) orgId))"
    by (rule roles_change [where A = "set (org_roles db orgId) - {r}", OF _ rows(2)])
      (use assms in \<open>auto simp: rows(1) auth_wf_def\<close>)
qed simp

lemma endpoint_actor:
  assumes "hierarchyBeforeHook db ctx = Inr ()" "requireOrgId ctx = Inr (orgId, user)"
    and "hc_path ctx \<in> {''/organization/update-member-role'', ''/organization/remove-member'', ''/organization/invite-member'',
       ''/organization/create-role'', ''/organization/update-role'', ''/organization/delete-role''}"
  obtains actor where "resolveActorMember db orgId user = Some actor"
proof (cases "resolveActorMember db orgId user")
  case None
  then have "requireActor db orgId user = Inl (APIError ''FORBIDDEN'' None)" by (simp add: requireActor_def)
  then have "False"
    using assms by (auto simp: hierarchyBeforeHook_def Let_def guard_Inr_iff enforceUpdateMemberRole_def enforceRemoveMember_def
        enforceInviteMember_def enforceCreateRole_def enforceUpdateRole_def enforceDeleteRole_def
        split: sum.splits option.splits if_splits)
  then show ?thesis ..
qed (rule that)

lemma pos_of_updated: "pos_of (updated_role body r) = (case hb_dataPosition body of Some p \<Rightarrow> p | None \<Rightarrow> pos_of r)"
  by (simp add: pos_of_def updated_role_def or_default_def split: option.split)

lemma endpoint_protects:
  assumes "endpoint orgId user db db'" "auth_wf db orgId"
    and "\<And>actor. resolveActorMember db orgId user = Some actor \<Longrightarrow> rank_in db orgId (mb_role actor) \<le> R"
  shows "protects R orgId db db'"
  using assms(1)
proof (cases rule: endpoint.cases)
  case Refused
  then show ?thesis by (simp add: protects_def)
next
  case (UpdateMemberRole ctx memberId)
  then obtain actor where a: "resolveActorMember db orgId user = Some actor" using endpoint_actor by blast
  obtain target where "find (\<lambda>m. mb_id m = memberId) (db_members (ad_tables db)) = Some target"
    "rank_in db orgId (mb_role target) < R" "rank_in db orgId (roleFieldFromBody (hb_role (hc_body ctx))) < R"
    using update_member_hook [OF hook_dispatch(1) UpdateMemberRole(4) a] UpdateMemberRole assms(3) [OF a]
    by (metis order_less_le_trans)
  then show ?thesis unfolding UpdateMemberRole(1) by (rule protects_update_member [OF assms(2)])
next
  case (RemoveMember ctx who target)
  then obtain actor where a: "resolveActorMember db orgId user = Some actor" using endpoint_actor by blast
  have "rank_in db orgId (mb_role target) < R"
    using remove_member_hook [OF hook_dispatch(2) RemoveMember(4) a] RemoveMember assms(3) [OF a] by fastforce
  then show ?thesis unfolding RemoveMember(1)
    by (rule protects_remove_member [OF assms(2) removal_target_in [OF RemoveMember(6)]])
next
  case (InviteMember ctx invite)
  then obtain actor where a: "resolveActorMember db orgId user = Some actor" using endpoint_actor by blast
  have "rank_in db orgId (roleFieldFromBody (hb_role (hc_body ctx))) < R"
    using invite_member_hook [OF hook_dispatch(3) InviteMember(4) a] InviteMember assms(3) [OF a] by fastforce
  then show ?thesis unfolding InviteMember(1) by (rule protects_invite [OF InviteMember(5)])
next
  case (CreateRole ctx pos name r rid)
  then obtain actor where a: "resolveActorMember db orgId user = Some actor" using endpoint_actor by blast
  have "100 < pos" "pos < R" using create_role_hook [OF CreateRole(5,4) a] assms(3) [OF a] by linarith+
  then show ?thesis unfolding CreateRole(1)
    by (intro protects_create_role [OF assms(2), of r pos]) (use CreateRole in simp_all)
next
  case (UpdateRole ctx r)
  then obtain actor where a: "resolveActorMember db orgId user = Some actor" using endpoint_actor by blast
  have h: "\<not> isStaticRoleName (current_name db orgId (hc_body ctx))" "current_position db orgId (hc_body ctx) < R"
      "\<forall>pos. hb_dataPosition (hc_body ctx) = Some pos \<longrightarrow> pos < R"
    using update_role_hook [OF hook_dispatch(4) UpdateRole(4) a refl] UpdateRole(2,3) assms(3) [OF a] by force+
  have m: "r \<in> set (org_roles db orgId)" "pos_of r < R" "DEFAULT_DYNAMIC_ROLE_POSITION < R"
    using managed_role [OF assms(2) UpdateRole(5,6) h(1,2)] by simp_all
  moreover have "pos_of (updated_role (hc_body ctx) r) < R"
    using h(3) m(2) by (simp add: pos_of_updated split: option.split)
  ultimately show ?thesis unfolding UpdateRole(1) update_rows_def [symmetric]
    by (rule protects_update_role [OF assms(2) _ _ _ _ UpdateRole(7)])
next
  case (DeleteRole ctx r)
  then obtain actor where a: "resolveActorMember db orgId user = Some actor" using endpoint_actor by blast
  have "\<not> isStaticRoleName (current_name db orgId (hc_body ctx))" "current_position db orgId (hc_body ctx) < R"
    using delete_role_hook [OF hook_dispatch(5) DeleteRole(4) a] DeleteRole(2,3) assms(3) [OF a] by force+
  then show ?thesis unfolding DeleteRole(1)
    using managed_role [OF assms(2) DeleteRole(5,6)] by (intro protects_delete_role [OF assms(2)]) simp_all
qed

section \<open>Sequences of operations\<close>

lemma auth_wf_members: "auth_wf db orgId \<Longrightarrow> distinct (map mb_id (f (db_members (ad_tables db)))) \<Longrightarrow>
    auth_wf (with_members f db) orgId"
  by (simp add: auth_wf_def org_roles_def)

lemma auth_wf_invitations: "auth_wf db orgId \<Longrightarrow> auth_wf (with_invitations f db) orgId"
  by (simp add: auth_wf_def org_roles_def)

lemma auth_wf_pos: "auth_wf db orgId \<Longrightarrow> r \<in> set (org_roles db orgId) \<Longrightarrow> 100 < pos_of r"
  by (simp add: auth_wf_def pos_of_def)

lemma auth_wf_roles:
  assumes "auth_wf db orgId" "distinct (map rr_id (f (ad_roles db)))"
    and "distinct (map lname (org_roles (with_roles f db) orgId))"
    and "\<And>r. r \<in> set (org_roles (with_roles f db) orgId) \<Longrightarrow> 100 < pos_of r"
  shows "auth_wf (with_roles f db) orgId"
  using assms by (simp add: auth_wf_def pos_of_def)

lemma endpoint_wf:
  assumes "endpoint orgId user db db'" "auth_wf db orgId"
  shows "auth_wf db' orgId"
  using assms(1)
proof (cases rule: endpoint.cases)
  case Refused
  then show ?thesis using assms(2) by simp
next
  case (UpdateMemberRole ctx memberId)
  have ids: "map mb_id (map (\<lambda>m. if mb_id m = memberId then m\<lparr>mb_role := role\<rparr> else m) ms) = map mb_id ms" for role ms
    by (induction ms) auto
  show ?thesis unfolding UpdateMemberRole(1)
    by (rule auth_wf_members [OF assms(2)], unfold ids) (use assms(2) in \<open>simp add: auth_wf_def\<close>)
next
  case (RemoveMember ctx who target)
  show ?thesis unfolding RemoveMember(1)
    by (intro auth_wf_members [OF assms(2)] distinct_map_filter) (use assms(2) in \<open>simp only: auth_wf_def\<close>)
next
  case (InviteMember ctx invite)
  show ?thesis unfolding InviteMember(1) by (rule auth_wf_invitations [OF assms(2)])
next
  case (CreateRole ctx pos name r rid)
  then obtain actor where "resolveActorMember db orgId user = Some actor" using endpoint_actor by blast
  then have "100 < pos" using create_role_hook [OF CreateRole(5,4)] by blast
  moreover have "org_roles (with_roles (\<lambda>rs. rs @ [r]) db) orgId = org_roles db orgId @ [r]"
    using CreateRole(7) by (simp add: org_roles_def)
  ultimately show ?thesis unfolding CreateRole(1)
    using assms(2) CreateRole(7-9) auth_wf_pos [OF assms(2)]
    by (intro auth_wf_roles [OF assms(2)]) (auto simp: auth_wf_def pos_of_def or_default_def)
next
  case (UpdateRole ctx r)
  then obtain actor where a: "resolveActorMember db orgId user = Some actor" using endpoint_actor by blast
  have r: "r \<in> set (org_roles db orgId)" using UpdateRole(5,6) existing_role_in by (simp add: org_roles_in)
  have "\<forall>pos. hb_dataPosition (hc_body ctx) = Some pos \<longrightarrow> 100 < pos"
    using update_role_hook [OF hook_dispatch(4) UpdateRole(4) a refl] UpdateRole(2,3) by force
  then have "100 < pos_of (updated_role (hc_body ctx) r)"
    using auth_wf_pos [OF assms(2) r] by (simp add: pos_of_updated split: option.split)
  moreover have "map rr_id (update_rows body r rs) = map rr_id rs" for body rs
    by (induction rs) (auto simp: update_rows_def)
  ultimately show ?thesis unfolding UpdateRole(1) update_rows_def [symmetric]
    using update_rows_org [OF assms(2) r UpdateRole(7)] auth_wf_pos [OF assms(2)] assms(2)
    by (intro auth_wf_roles [OF assms(2)]) (auto simp: auth_wf_def)
next
  case (DeleteRole ctx r)
  have "org_roles (with_roles (filter (\<lambda>q. rr_id q \<noteq> rr_id r)) db) orgId = filter (\<lambda>q. rr_id q \<noteq> rr_id r) (org_roles db orgId)"
    by (auto simp: org_roles_def intro: filter_cong)
  then show ?thesis unfolding DeleteRole(1)
    using assms(2) auth_wf_pos [OF assms(2)]
    by (intro auth_wf_roles [OF assms(2)]) (auto simp: auth_wf_def distinct_map_filter)
qed

definition someone :: "string set \<Rightarrow> string \<Rightarrow> authDb \<Rightarrow> authDb \<Rightarrow> bool" where
  "someone S orgId db db' \<longleftrightarrow> (\<exists>user \<in> S. endpoint orgId user db db')"

definition outranked :: "string set \<Rightarrow> int \<Rightarrow> string \<Rightarrow> authDb \<Rightarrow> bool" where
  "outranked S R orgId db \<longleftrightarrow> (\<forall>(m, k) \<in> set (strong_members R db orgId). mb_userId m \<notin> S)"

lemma outranked_actor:
  assumes "outranked S R orgId db" "user \<in> S" "resolveActorMember db orgId user = Some actor"
  shows "rank_in db orgId (mb_role actor) < R"
proof (rule ccontr)
  assume "\<not> rank_in db orgId (mb_role actor) < R"
  moreover have "actor \<in> set (org_members db orgId)" "mb_userId actor = user"
    using find_SomeD [OF assms(3) [unfolded resolveActorMember_def]] by (auto simp: org_members_def)
  ultimately have "(actor, rank_in db orgId (mb_role actor)) \<in> set (strong_members R db orgId)"
    by (auto simp: strong_members_def)
  then show False using assms(1,2) \<open>mb_userId actor = user\<close> by (auto simp: outranked_def)
qed

lemma collusion_invariant:
  assumes "(someone S orgId)\<^sup>*\<^sup>* db db'" "auth_wf db orgId" "outranked S R orgId db"
  shows "auth_wf db' orgId \<and> protects R orgId db db'"
  using assms(1)
proof (induction rule: rtranclp_induct)
  case base
  then show ?case using assms(2) by (simp add: protects_def)
next
  case (step db1 db2)
  then have wf: "auth_wf db1 orgId" and p: "protects R orgId db db1" by simp_all
  have out: "outranked S R orgId db1" using assms(3) p by (simp add: outranked_def protects_def)
  obtain user where u: "user \<in> S" "endpoint orgId user db1 db2" using step(2) by (auto simp: someone_def)
  have "protects R orgId db1 db2"
    by (rule endpoint_protects [OF u(2) wf]) (use outranked_actor [OF out u(1)] in force)
  then show ?case using endpoint_wf [OF u(2) wf] p by (simp add: protects_def)
qed

section \<open>Properties\<close>

text \<open>
  C31. Nobody rises above the hierarchy, not even together. Take any set of users who are all below a
  rank in an organization. However they use the endpoints that change members, roles and invitations,
  in whatever order and number, the members at or above the rank stay exactly the same, with the same
  roles and the same ranks, and so do the invitations at or above it. So none of the users reaches the
  rank, removes or demotes someone who has it, or invites anyone to it, not by changing the definition
  of a role either.
\<close>

theorem hierarchy_holds:
  assumes "(someone S orgId)\<^sup>*\<^sup>* db db'" "auth_wf db orgId" "outranked S R orgId db"
  shows "strong_members R db' orgId = strong_members R db orgId \<and>
    strong_invitations R db' orgId = strong_invitations R db orgId"
  using collusion_invariant [OF assms] by (simp add: protects_def)

definition ex_member :: "string \<Rightarrow> string \<Rightarrow> string \<Rightarrow> memberRow" where
  "ex_member mid user role = \<lparr>mb_id = mid, mb_organizationId = ''o1'', mb_userId = user, mb_role = role\<rparr>"

definition ex_auth :: authDb where
  "ex_auth = \<lparr>ad_tables = (ex_db None)\<lparr>db_members :=
       [ex_member ''m1'' ''u1'' ''owner'', ex_member ''m2'' ''u2'' ''admin'', ex_member ''m3'' ''u3'' ''member'']\<rparr>,
     ad_roles = [], ad_users = []\<rparr>"

definition ex_remove :: hookCtx where
  "ex_remove = \<lparr>hc_path = ''/organization/remove-member'',
     hc_body = \<lparr>hb_organizationId = Some (JStr ''o1''), hb_memberId = None, hb_memberIdOrEmail = Some (JStr ''m3''),
       hb_role = None, hb_roleName = None, hb_roleId = None, hb_additionalPosition = None, hb_dataPosition = None,
       hb_dataRoleName = None\<rparr>,
     hc_session = Some \<lparr>hs_userId = Some ''u2'', hs_activeOrganizationId = None\<rparr>\<rparr>"

lemma ex_ranks: "rank_in ex_auth ''o1'' ''owner'' = 1000" "rank_in ex_auth ''o1'' ''admin'' = 500"
    "rank_in ex_auth ''o1'' ''member'' = 100"
  by code_simp+

lemma ex_auth_step: "endpoint ''o1'' ''u2'' ex_auth (with_members (filter (\<lambda>m. mb_id m \<noteq> ''m3'')) ex_auth)"
proof -
  have org: "requireOrgId ex_remove = Inr (''o1'', ''u2'')"
    by (simp add: requireOrgId_def ex_remove_def nonempty_def)
  have actor: "resolveActorMember ex_auth ''o1'' ''u2'' = Some (ex_member ''m2'' ''u2'' ''admin'')"
    by (simp add: resolveActorMember_def ex_auth_def ex_member_def)
  have target: "removal_target ex_auth ''o1'' ''m3'' = Some (ex_member ''m3'' ''u3'' ''member'')"
    by (simp add: removal_target_def ex_auth_def ex_member_def)
  have body: "asString (hb_memberIdOrEmail (hc_body ex_remove)) = Some ''m3''" by (simp add: ex_remove_def)
  have "enforceRemoveMember ex_auth ex_remove = Inr ()"
    using ex_ranks by (simp add: enforceRemoveMember_def org actor target body requireActor_def nonempty_def assert_iffs ex_member_def)
  then have "hierarchyBeforeHook ex_auth ex_remove = Inr ()" by (simp add: hierarchyBeforeHook_def ex_remove_def)
  then show ?thesis using RemoveMember [OF _ _ org body target] by (simp add: ex_remove_def ex_member_def)
qed

theorem hierarchy_holds_witness:
  "strong_members 1000 (with_members (filter (\<lambda>m. mb_id m \<noteq> ''m3'')) ex_auth) ''o1'' =
   [(ex_member ''m1'' ''u1'' ''owner'', 1000)]"
proof -
  have run: "(someone {''u2''} ''o1'')\<^sup>*\<^sup>* ex_auth (with_members (filter (\<lambda>m. mb_id m \<noteq> ''m3'')) ex_auth)"
    by (rule r_into_rtranclp) (simp add: someone_def ex_auth_step)
  have wf: "auth_wf ex_auth ''o1''" by (simp add: auth_wf_def ex_auth_def ex_member_def org_roles_def)
  have "org_members ex_auth ''o1'' =
      [ex_member ''m1'' ''u1'' ''owner'', ex_member ''m2'' ''u2'' ''admin'', ex_member ''m3'' ''u3'' ''member'']"
    by (simp add: org_members_def ex_auth_def ex_member_def)
  then have s: "strong_members 1000 ex_auth ''o1'' = [(ex_member ''m1'' ''u1'' ''owner'', 1000)]"
    using ex_ranks by (simp add: strong_members_def ex_member_def)
  have "outranked {''u2''} 1000 ''o1'' ex_auth" by (simp add: outranked_def s ex_member_def)
  from hierarchy_holds [OF run wf this, THEN conjunct1] show ?thesis unfolding s .
qed

end
