(* ===== verification/Org_Auth.thy ===== *)
theory Org_Auth
  imports Auth_Hierarchy License_Features
begin

text \<open>
  How the management server sets up authentication (apps/management/src/auth.ts): the switch for cloud
  billing, taken from the licence when the server starts, the Stripe plans, the limits on organizations
  and members, and the hooks around invitations, members and the deletion of organizations. The second
  part shows that the hooks keep an organization within its plan, whatever order the operations come in.
\<close>

section \<open>Set-up\<close>

record stripePlan =
  sp_name :: string
  sp_priceId :: string
  sp_annualDiscountPriceId :: "string option"
  sp_seats :: int
  sp_resources :: int
  sp_trialDays :: int

record authConfig =
  ac_disablePublicSignUp :: bool
  ac_isCloudBilling :: bool
  ac_stripePlans :: "stripePlan list"
  ac_stripeEnabled :: bool

definition env_trim :: "(string \<Rightarrow> string option) \<Rightarrow> string \<Rightarrow> string option" where
  "env_trim env key = nonempty (map_option trim (env key))"

definition stripe_entry :: "(string \<Rightarrow> string option) \<Rightarrow> string \<Rightarrow> string \<Rightarrow> (planLimits \<Rightarrow> int option) \<Rightarrow> int \<Rightarrow> int \<Rightarrow> stripePlan list" where
  "stripe_entry env name priceKey seats defaultSeats defaultResources =
    (case (env_trim env priceKey, getPlan (JStr name)) of
       (Some price, Some p) \<Rightarrow>
         [\<lparr>sp_name = name, sp_priceId = price,
           sp_annualDiscountPriceId = env_trim env (priceKey @ ''_ANNUAL''),
           sp_seats = or_default (seats (plan_limits p)) defaultSeats,
           sp_resources = or_default (pl_baseResources (plan_limits p)) defaultResources,
           sp_trialDays = or_default (plan_trialDays p) 14\<rparr>]
     | _ \<Rightarrow> [])"

definition buildStripePlans :: "(string \<Rightarrow> string option) \<Rightarrow> stripePlan list" where
  "buildStripePlans env =
    stripe_entry env ''personal'' ''STRIPE_PRICE_PERSONAL'' pl_maxSeats 1 100 @
    stripe_entry env ''team'' ''STRIPE_PRICE_TEAM'' pl_minSeats 2 100 @
    stripe_entry env ''business'' ''STRIPE_PRICE_BUSINESS'' pl_minSeats 5 500"

definition buildAuth :: "(string \<Rightarrow> string option) \<Rightarrow> entitlements \<Rightarrow> database \<Rightarrow> authConfig \<times> database" where
  "buildAuth env e db = (let
     isCloudBilling = (ent_tier e = Cloud);
     stripePlans = (if isCloudBilling then buildStripePlans env else [])
   in (\<lparr>ac_disablePublicSignUp = (\<not> ent_features e OpenSignUp),
        ac_isCloudBilling = isCloudBilling,
        ac_stripePlans = stripePlans,
        ac_stripeEnabled = (isCloudBilling \<and> env_trim env ''STRIPE_SECRET_KEY'' \<noteq> None \<and>
          env_trim env ''STRIPE_WEBHOOK_SECRET'' \<noteq> None \<and> stripePlans \<noteq> [])\<rparr>,
       setCloudBillingEnabled isCloudBilling db))"

section \<open>Limits on organizations and members\<close>

record userInfo =
  ui_id :: string
  ui_emailVerified :: bool

definition countActiveMemberships :: "database \<Rightarrow> string \<Rightarrow> int" where
  "countActiveMemberships db userId =
    count_rows (\<lambda>m. mb_userId m = userId \<and>
      (case find_org db (mb_organizationId m) of None \<Rightarrow> True | Some org \<Rightarrow> or_deletedAt org = None)) (db_members db)"

definition canUserCreateOrganization :: "authConfig \<Rightarrow> entitlements \<Rightarrow> database \<Rightarrow> userInfo \<Rightarrow> int \<Rightarrow> bool" where
  "canUserCreateOrganization cfg e db user now =
    (if ac_isCloudBilling cfg
     then countOwnedOrganizationsTowardQuota db (ui_id user) now < ownershipCapForUser (ui_emailVerified user)
     else let active = countActiveMemberships db (ui_id user) in
       if active = 0 then True
       else case ent_limits e Organizations of None \<Rightarrow> True | Some l \<Rightarrow> active + 1 \<le> l)"

definition hasReachedOrganizationLimit :: "authConfig \<Rightarrow> entitlements \<Rightarrow> database \<Rightarrow> userInfo \<Rightarrow> int \<Rightarrow> bool" where
  "hasReachedOrganizationLimit cfg e db user now =
    (if ac_isCloudBilling cfg
     then ownershipCapForUser (ui_emailVerified user) \<le> countOwnedOrganizationsTowardQuota db (ui_id user) now
     else let active = countActiveMemberships db (ui_id user) in
       if active = 0 then False
       else case ent_limits e Organizations of None \<Rightarrow> False | Some l \<Rightarrow> l \<le> active)"

definition membershipLimit :: "authConfig \<Rightarrow> database \<Rightarrow> string \<Rightarrow> int" where
  "membershipLimit cfg db orgId =
    (if \<not> ac_isCloudBilling cfg then 100
     else case ef_seats (getEffectiveOrgPlan db orgId) of None \<Rightarrow> 500 | Some seats \<Rightarrow> seats)"

section \<open>Hooks of the organization plugin\<close>

text \<open>On success, the metadata that the organization is created with.\<close>

definition beforeCreateOrganization ::
    "authConfig \<Rightarrow> entitlements \<Rightarrow> database \<Rightarrow> json option \<Rightarrow> userInfo \<Rightarrow> int \<Rightarrow> apiError + json option" where
  "beforeCreateOrganization cfg e db metadata user now =
    (if ac_isCloudBilling cfg then
       (case parseCreatablePlan metadata of
          None \<Rightarrow> Inl (APIError ''BAD_REQUEST'' (Some
            (''Organization plan is required. Choose '' @ [CHR 0x22] @ ''free'' @ [CHR 0x22] @ '', '' @ [CHR 0x22] @
             ''personal'' @ [CHR 0x22] @ '', '' @ [CHR 0x22] @ ''team'' @ [CHR 0x22] @ '', or '' @ [CHR 0x22] @
             ''business'' @ [CHR 0x22] @ ''.'')))
        | Some p \<Rightarrow>
            if \<not> canUserCreateOrganization cfg e db user now
            then Inl (APIError ''BAD_REQUEST'' (Some
              (if ui_emailVerified user
               then ''You can own at most '' @ show_int (ownershipCapForUser (ui_emailVerified user)) @ '' organizations.''
               else ''Verify your email to own more than one organization.'')))
            else Inr (Some (JObj (AList.update ''plan'' (JStr p)
              (case metadata of Some (JObj fs) \<Rightarrow> fs | _ \<Rightarrow> [])))))
     else Inr metadata)"

definition seat_hook :: "authConfig \<Rightarrow> database \<Rightarrow> string \<Rightarrow> apiError + unit" where
  "seat_hook cfg db orgId =
    (if ac_isCloudBilling cfg
     then (case assertSeatCapacity db orgId 1 of
             Inl e \<Rightarrow> Inl (APIError ''BAD_REQUEST'' (Some (planError_message e)))
           | Inr _ \<Rightarrow> Inr ())
     else Inr ())"

definition beforeCreateInvitation :: "authConfig \<Rightarrow> entitlements \<Rightarrow> database \<Rightarrow> string \<Rightarrow> apiError + unit" where
  "beforeCreateInvitation cfg e db orgId =
    (if \<not> ent_features e OpenSignUp
     then Inl (APIError ''BAD_REQUEST'' (Some
       ''Invitations require cloud signup. Create users from the admin panel instead.''))
     else seat_hook cfg db orgId)"

definition beforeAddMember :: "authConfig \<Rightarrow> database \<Rightarrow> string \<Rightarrow> apiError + unit" where
  "beforeAddMember cfg db orgId = seat_hook cfg db orgId"

definition beforeAcceptInvitation :: "authConfig \<Rightarrow> database \<Rightarrow> string \<Rightarrow> apiError + unit" where
  "beforeAcceptInvitation cfg db orgId = seat_hook cfg db orgId"

definition authorizeReference :: "database \<Rightarrow> string \<Rightarrow> string \<Rightarrow> string \<Rightarrow> bool" where
  "authorizeReference db userId referenceId action =
    (case nonempty (memberRoleInOrg db userId referenceId) of
       None \<Rightarrow> False
     | Some role \<Rightarrow> action = ''list-subscription'' \<or> isAdminOrOwnerRole role)"

section \<open>The hook before every request\<close>

datatype hookAnswer = Deleted string | Proceed

definition with_tables :: "database \<Rightarrow> authDb \<Rightarrow> authDb" where
  "with_tables tables db = db\<lparr>ad_tables := tables\<rparr>"

definition delete_hook :: "int \<Rightarrow> authDb \<Rightarrow> hookCtx \<Rightarrow> apiError + hookAnswer \<times> authDb" where
  "delete_hook now db ctx = (case nonempty (asString (hb_organizationId (hc_body ctx))) of
       None \<Rightarrow> Inl (APIError ''BAD_REQUEST'' (Some ''organizationId is required''))
     | Some organizationId \<Rightarrow>
         (case nonempty (Option.bind (hc_session ctx) hs_userId) of
            None \<Rightarrow> Inl (APIError ''UNAUTHORIZED'' (Some ''Not authenticated''))
          | Some userId \<Rightarrow>
              if (case memberRoleInOrg (ad_tables db) userId organizationId of None \<Rightarrow> True
                  | Some role \<Rightarrow> \<not> isOwnerRole role)
              then Inl (APIError ''FORBIDDEN'' (Some ''Only owners can delete an organization''))
              else (case softDeleteOrganization now organizationId (ad_tables db) of
                Inl message \<Rightarrow> Inl (APIError ''BAD_REQUEST'' (Some message))
              | Inr tables \<Rightarrow> Inr (Deleted organizationId, with_tables tables db))))"

definition set_active_check :: "authDb \<Rightarrow> hookCtx \<Rightarrow> apiError + unit" where
  "set_active_check db ctx = (case nonempty (asString (hb_organizationId (hc_body ctx))) of
       None \<Rightarrow> Inr ()
     | Some organizationId \<Rightarrow>
         (case find_org (ad_tables db) organizationId of
            None \<Rightarrow> Inl (APIError ''BAD_REQUEST'' (Some ''Organization not found''))
          | Some org \<Rightarrow> if or_deletedAt org \<noteq> None
              then Inl (APIError ''BAD_REQUEST'' (Some ''Organization not found'')) else Inr ()))"

definition authBeforeHook :: "int \<Rightarrow> authDb \<Rightarrow> hookCtx \<Rightarrow> apiError + hookAnswer \<times> authDb" where
  "authBeforeHook now db ctx =
    (if hc_path ctx = ''/organization/delete'' then delete_hook now db ctx
     else res_bind (if hc_path ctx = ''/organization/set-active'' then set_active_check db ctx else Inr ()) (\<lambda>_.
       res_bind (hierarchyBeforeHook db ctx) (\<lambda>_. Inr (Proceed, db))))"

section \<open>Operations on an organization\<close>

text \<open>
  The operations that change how much an organization uses, each behind its guard: invitations and
  members through the hooks above, machines, networks and tunnels through the guards of the billing
  module that their handlers call. Rows also go away, in any number.
\<close>

definition add_device :: "deviceRow \<Rightarrow> deviceRow list \<Rightarrow> deviceRow list" where
  "add_device d ds = (if \<exists>x \<in> set ds. dv_organizationId x = dv_organizationId d \<and> dv_endpointId x = dv_endpointId d
     then ds else ds @ [d])"

inductive orgStep :: "authConfig \<Rightarrow> entitlements \<Rightarrow> string \<Rightarrow> database \<Rightarrow> database \<Rightarrow> bool" for cfg e orgId where
  Invite: "beforeCreateInvitation cfg e db orgId = Inr () \<Longrightarrow>
    orgStep cfg e orgId db (db\<lparr>db_invitations := db_invitations db @ [i]\<rparr>)"
| AddMember: "beforeAddMember cfg db orgId = Inr () \<Longrightarrow>
    orgStep cfg e orgId db (db\<lparr>db_members := db_members db @ [m]\<rparr>)"
| Accept: "beforeAcceptInvitation cfg db orgId = Inr () \<Longrightarrow> db_invitations db = is @ i # js \<Longrightarrow>
    iv_organizationId i = orgId \<Longrightarrow> iv_status i = ''pending'' \<Longrightarrow>
    orgStep cfg e orgId db (db\<lparr>db_invitations := is @ i\<lparr>iv_status := ''accepted''\<rparr> # js, db_members := db_members db @ [m]\<rparr>)"
| CloseInvitations: "s \<noteq> ''pending'' \<Longrightarrow>
    orgStep cfg e orgId db (db\<lparr>db_invitations := map (\<lambda>i. if P i then i\<lparr>iv_status := s\<rparr> else i) (db_invitations db)\<rparr>)"
| RemoveMembers: "orgStep cfg e orgId db (db\<lparr>db_members := filter Q (db_members db)\<rparr>)"
| Enroll: "assertResourceCapacity db orgId (Some (dv_endpointId d)) = Inr () \<Longrightarrow> dv_endpointId d \<noteq> [] \<Longrightarrow> dv_organizationId d = orgId \<Longrightarrow>
    orgStep cfg e orgId db (db\<lparr>db_devices := add_device d (db_devices db)\<rparr>)"
| RemoveDevices: "orgStep cfg e orgId db (db\<lparr>db_devices := filter D (db_devices db)\<rparr>)"
| CreateNetwork: "assertNetworkCapacity db orgId = Inr () \<Longrightarrow>
    orgStep cfg e orgId db (db\<lparr>db_networks := db_networks db @ [n]\<rparr>)"
| DeleteNetworks: "orgStep cfg e orgId db (db\<lparr>db_networks := filter N (db_networks db)\<rparr>)"
| OpenTunnel: "assertPublicTunnelCapacity db orgId = Inr () \<Longrightarrow>
    orgStep cfg e orgId db (db\<lparr>db_tunnels := db_tunnels db @ [t]\<rparr>)"
| StopTunnels: "s \<notin> set ACTIVE_TUNNEL_STATUSES \<Longrightarrow>
    orgStep cfg e orgId db (db\<lparr>db_tunnels := map (\<lambda>t. if T t then t\<lparr>tn_status := s\<rparr> else t) (db_tunnels db)\<rparr>)"
| ActivateTunnels: "orgStep cfg e orgId db (db\<lparr>db_tunnels :=
    map (\<lambda>t. if T t \<and> tn_status t = ''connecting'' then t\<lparr>tn_status := ''active''\<rparr> else t) (db_tunnels db)\<rparr>)"
| Traffic: "orgStep cfg e orgId db (incrementOrgTraffic orgId kind bytes mon db)"

definition at_most :: "int \<Rightarrow> int option \<Rightarrow> bool" where
  "at_most used cap = (case cap of None \<Rightarrow> True | Some c \<Rightarrow> used \<le> c)"

definition seats_used :: "database \<Rightarrow> string \<Rightarrow> int" where
  "seats_used db orgId = countOrgMembers db orgId + countPendingInvitations db orgId"

definition within_plan :: "database \<Rightarrow> string \<Rightarrow> bool" where
  "within_plan db orgId = (let p = getEffectiveOrgPlan db orgId in
     at_most (seats_used db orgId) (map_option (seat_limit p) (ef_seats p)) \<and>
     at_most (countOrgDevices db orgId) (ef_resources p) \<and>
     at_most (countOrgNetworks db orgId) (ef_networks p) \<and>
     at_most (countOrgPublicTunnels db orgId) (ef_publicTunnels p))"

section \<open>Counting rows\<close>

lemma count_rows_simps [simp]:
  "count_rows P [] = 0" "count_rows P (x # xs) = (if P x then 1 else 0) + count_rows P xs"
  "count_rows P (xs @ ys) = count_rows P xs + count_rows P ys"
  by (auto simp: count_rows_def)

lemma count_rows_filter: "count_rows P (filter Q xs) \<le> count_rows P xs"
  by (induction xs) auto

lemma count_rows_map: "(\<And>x. P (h x) \<Longrightarrow> P x) \<Longrightarrow> count_rows P (map h xs) \<le> count_rows P xs"
  by (induction xs) auto

lemma at_most_mono: "at_most b cap \<Longrightarrow> a \<le> b \<Longrightarrow> at_most a cap"
  by (auto simp: at_most_def split: option.splits)

lemmas count_defs = countOrgMembers_def countPendingInvitations_def countOrgDevices_def countOrgNetworks_def
  countOrgPublicTunnels_def seats_used_def

section \<open>What the guards establish\<close>

lemma assertSeatCapacity_room:
  assumes "db_cloudBilling db" "assertSeatCapacity db orgId 1 = Inr ()" "p = getEffectiveOrgPlan db orgId"
  shows "at_most (seats_used db orgId + 1) (map_option (seat_limit p) (ef_seats p))"
  using assms by (cases "ef_seats p") (auto simp: assertSeatCapacity_def Let_def at_most_def seats_used_def split: if_splits)

lemma seat_hook_room:
  assumes "db_cloudBilling db" "ac_isCloudBilling cfg" "seat_hook cfg db orgId = Inr ()" "p = getEffectiveOrgPlan db orgId"
  shows "at_most (seats_used db orgId + 1) (map_option (seat_limit p) (ef_seats p))"
  using assms assertSeatCapacity_room by (auto simp: seat_hook_def split: sum.splits)

lemma assertNetworkCapacity_room:
  assumes "db_cloudBilling db" "assertNetworkCapacity db orgId = Inr ()"
  shows "at_most (countOrgNetworks db orgId + 1) (ef_networks (getEffectiveOrgPlan db orgId))"
  using assms by (auto simp: assertNetworkCapacity_def Let_def at_most_def split: option.splits if_splits)

lemma assertPublicTunnelCapacity_room:
  assumes "db_cloudBilling db" "assertPublicTunnelCapacity db orgId = Inr ()"
  shows "at_most (countOrgPublicTunnels db orgId + 1) (ef_publicTunnels (getEffectiveOrgPlan db orgId))"
  using assms by (auto simp: assertPublicTunnelCapacity_def Let_def at_most_def split: option.splits if_splits)

lemma assertResourceCapacity_room:
  assumes "db_cloudBilling db" "assertResourceCapacity db orgId (Some (dv_endpointId d)) = Inr ()"
    and "dv_endpointId d \<noteq> []" "dv_organizationId d = orgId"
    and "at_most (countOrgDevices db orgId) (ef_resources (getEffectiveOrgPlan db orgId))"
  shows "at_most (count_rows (\<lambda>d. dv_organizationId d = orgId) (add_device d (db_devices db)))
    (ef_resources (getEffectiveOrgPlan db orgId))"
  using assms by (cases "ef_resources (getEffectiveOrgPlan db orgId)")
    (auto simp: assertResourceCapacity_def Let_def at_most_def add_device_def count_defs split: if_splits)

section \<open>Every step stays within the plan\<close>

definition seat_cap :: "database \<Rightarrow> string \<Rightarrow> int option" where
  "seat_cap db orgId = (let p = getEffectiveOrgPlan db orgId in map_option (seat_limit p) (ef_seats p))"

text \<open>The part of the bound that does not concern seats, and so on: each table counts towards one bound.\<close>

lemma within_plan_iff: "within_plan db orgId \<longleftrightarrow>
    at_most (seats_used db orgId) (seat_cap db orgId) \<and>
    at_most (countOrgDevices db orgId) (ef_resources (getEffectiveOrgPlan db orgId)) \<and>
    at_most (countOrgNetworks db orgId) (ef_networks (getEffectiveOrgPlan db orgId)) \<and>
    at_most (countOrgPublicTunnels db orgId) (ef_publicTunnels (getEffectiveOrgPlan db orgId))"
  by (simp only: within_plan_def seat_cap_def Let_def)

lemma plan_frame:
  "getEffectiveOrgPlan (db\<lparr>db_members := ms\<rparr>) orgId = getEffectiveOrgPlan db orgId"
  "getEffectiveOrgPlan (db\<lparr>db_invitations := is\<rparr>) orgId = getEffectiveOrgPlan db orgId"
  "getEffectiveOrgPlan (db\<lparr>db_devices := ds\<rparr>) orgId = getEffectiveOrgPlan db orgId"
  "getEffectiveOrgPlan (db\<lparr>db_networks := ns\<rparr>) orgId = getEffectiveOrgPlan db orgId"
  "getEffectiveOrgPlan (db\<lparr>db_tunnels := ts\<rparr>) orgId = getEffectiveOrgPlan db orgId"
  "getEffectiveOrgPlan (db\<lparr>db_usage := us\<rparr>) orgId = getEffectiveOrgPlan db orgId"
  by (rule getEffectiveOrgPlan_cong; simp)+

lemma seats_within:
  assumes "within_plan db orgId"
    and "at_most (seats_used (db\<lparr>db_invitations := is, db_members := ms\<rparr>) orgId) (seat_cap db orgId)"
  shows "within_plan (db\<lparr>db_invitations := is, db_members := ms\<rparr>) orgId"
  using assms unfolding within_plan_iff seat_cap_def plan_frame by (simp add: count_defs)

lemma devices_within:
  assumes "within_plan db orgId"
    and "at_most (count_rows (\<lambda>d. dv_organizationId d = orgId) ds) (ef_resources (getEffectiveOrgPlan db orgId))"
  shows "within_plan (db\<lparr>db_devices := ds\<rparr>) orgId"
  using assms unfolding within_plan_iff seat_cap_def plan_frame by (simp add: count_defs)

lemma networks_within:
  assumes "within_plan db orgId"
    and "at_most (count_rows (\<lambda>n. nw_organizationId n = orgId) ns) (ef_networks (getEffectiveOrgPlan db orgId))"
  shows "within_plan (db\<lparr>db_networks := ns\<rparr>) orgId"
  using assms unfolding within_plan_iff seat_cap_def plan_frame by (simp add: count_defs)

lemma tunnels_within:
  assumes "within_plan db orgId"
    and "count_rows (\<lambda>t. tn_organizationId t = orgId \<and> tn_status t \<in> set ACTIVE_TUNNEL_STATUSES) ts \<le> n"
    and "at_most n (ef_publicTunnels (getEffectiveOrgPlan db orgId))"
  shows "within_plan (db\<lparr>db_tunnels := ts\<rparr>) orgId"
  using assms at_most_mono unfolding within_plan_iff seat_cap_def plan_frame by (simp add: count_defs)

lemma traffic_within: "within_plan db orgId \<Longrightarrow> within_plan (incrementOrgTraffic orgId kind bytes mon db) orgId"
  unfolding incrementOrgTraffic_def Let_def
  by (simp add: within_plan_iff seat_cap_def plan_frame count_defs)

lemma members_within:
  assumes "within_plan db orgId" "count_rows (\<lambda>m. mb_organizationId m = orgId) ms \<le> countOrgMembers db orgId + k"
    and "at_most (seats_used db orgId + k) (seat_cap db orgId)"
  shows "within_plan (db\<lparr>db_members := ms\<rparr>) orgId"
  using seats_within [OF assms(1), of ms "db_invitations db"] at_most_mono [OF assms(3)] assms(2)
  by (simp add: count_defs)

lemma invitations_within:
  assumes "within_plan db orgId" "at_most (seats_used db orgId + k) (seat_cap db orgId)"
    and "count_rows (\<lambda>i. iv_organizationId i = orgId \<and> iv_status i = ''pending'') is \<le> countPendingInvitations db orgId + k"
  shows "within_plan (db\<lparr>db_invitations := is\<rparr>) orgId"
  using seats_within [OF assms(1), of "db_members db" "is"] at_most_mono [OF assms(2)] assms(3)
  by (simp add: count_defs)

lemma seat_hook_cap:
  assumes "db_cloudBilling db" "ac_isCloudBilling cfg" "seat_hook cfg db orgId = Inr ()"
  shows "at_most (seats_used db orgId + 1) (seat_cap db orgId)"
  using seat_hook_room [OF assms refl] by (simp add: seat_cap_def Let_def)

lemma orgStep_cloud: "orgStep cfg e orgId db db' \<Longrightarrow> db_cloudBilling db' = db_cloudBilling db"
  by (induction rule: orgStep.induct) (simp_all add: incrementOrgTraffic_def Let_def)

lemma orgStep_seats:
  assumes "ac_isCloudBilling cfg" "db_cloudBilling db" "within_plan db orgId"
  shows "beforeCreateInvitation cfg e db orgId = Inr () \<Longrightarrow> within_plan (db\<lparr>db_invitations := db_invitations db @ [i]\<rparr>) orgId"
    and "beforeAddMember cfg db orgId = Inr () \<Longrightarrow> within_plan (db\<lparr>db_members := db_members db @ [m]\<rparr>) orgId"
    and "db_invitations db = is @ i # js \<Longrightarrow> iv_organizationId i = orgId \<Longrightarrow> iv_status i = ''pending'' \<Longrightarrow>
      within_plan (db\<lparr>db_invitations := is @ i\<lparr>iv_status := ''accepted''\<rparr> # js, db_members := db_members db @ [m]\<rparr>) orgId"
    and "s \<noteq> ''pending'' \<Longrightarrow>
      within_plan (db\<lparr>db_invitations := map (\<lambda>i. if P i then i\<lparr>iv_status := s\<rparr> else i) (db_invitations db)\<rparr>) orgId"
    and "within_plan (db\<lparr>db_members := filter Q (db_members db)\<rparr>) orgId"
proof -
  note cap = seat_hook_cap [OF assms(2,1)]
  have here: "at_most (seats_used db orgId + 0) (seat_cap db orgId)" using assms(3) by (simp add: within_plan_iff)
  show "beforeCreateInvitation cfg e db orgId = Inr () \<Longrightarrow> within_plan (db\<lparr>db_invitations := db_invitations db @ [i]\<rparr>) orgId"
    by (rule invitations_within [OF assms(3) cap]) (auto simp: beforeCreateInvitation_def count_defs split: if_splits)
  show "beforeAddMember cfg db orgId = Inr () \<Longrightarrow> within_plan (db\<lparr>db_members := db_members db @ [m]\<rparr>) orgId"
    by (rule members_within [OF assms(3) _ cap]) (auto simp: beforeAddMember_def count_defs)
  show "db_invitations db = is @ i # js \<Longrightarrow> iv_organizationId i = orgId \<Longrightarrow> iv_status i = ''pending'' \<Longrightarrow>
      within_plan (db\<lparr>db_invitations := is @ i\<lparr>iv_status := ''accepted''\<rparr> # js, db_members := db_members db @ [m]\<rparr>) orgId"
    by (rule seats_within [OF assms(3)], rule at_most_mono [OF here]) (simp add: count_defs)
  show "s \<noteq> ''pending'' \<Longrightarrow>
      within_plan (db\<lparr>db_invitations := map (\<lambda>i. if P i then i\<lparr>iv_status := s\<rparr> else i) (db_invitations db)\<rparr>) orgId"
    by (rule invitations_within [OF assms(3) here])
      (auto simp: count_defs intro!: count_rows_map split: if_splits)
  show "within_plan (db\<lparr>db_members := filter Q (db_members db)\<rparr>) orgId"
    by (rule members_within [OF assms(3) _ here]) (simp add: count_defs count_rows_filter)
qed

lemma orgStep_within:
  assumes "orgStep cfg e orgId db db'" "ac_isCloudBilling cfg" "db_cloudBilling db" "within_plan db orgId"
  shows "within_plan db' orgId"
  using assms(1)
proof (cases rule: orgStep.cases)
  case (Enroll d)
  have "at_most (countOrgDevices db orgId) (ef_resources (getEffectiveOrgPlan db orgId))"
    using assms(4) by (simp add: within_plan_iff)
  then show ?thesis unfolding Enroll(1)
    by (rule devices_within [OF assms(4) assertResourceCapacity_room [OF assms(3) Enroll(2-4)]])
next
  case (RemoveDevices D)
  show ?thesis unfolding RemoveDevices
    by (rule devices_within [OF assms(4)], rule at_most_mono [OF _ count_rows_filter])
      (use assms(4) in \<open>simp add: within_plan_iff count_defs\<close>)
next
  case (CreateNetwork n)
  show ?thesis unfolding CreateNetwork(1)
    by (rule networks_within [OF assms(4)], rule at_most_mono [OF assertNetworkCapacity_room [OF assms(3) CreateNetwork(2)]])
      (simp add: count_defs)
next
  case (DeleteNetworks N)
  show ?thesis unfolding DeleteNetworks
    by (rule networks_within [OF assms(4)], rule at_most_mono [OF _ count_rows_filter])
      (use assms(4) in \<open>simp add: within_plan_iff count_defs\<close>)
next
  case (OpenTunnel t)
  show ?thesis unfolding OpenTunnel(1)
    by (rule tunnels_within [OF assms(4) _ assertPublicTunnelCapacity_room [OF assms(3) OpenTunnel(2)]]) (simp add: count_defs)
next
  case (StopTunnels s T)
  show ?thesis unfolding StopTunnels(1)
    by (rule tunnels_within [OF assms(4) count_rows_map])
      (use StopTunnels(2) assms(4) in \<open>auto simp: within_plan_iff count_defs split: if_splits\<close>)
next
  case (ActivateTunnels T)
  show ?thesis unfolding ActivateTunnels
    by (rule tunnels_within [OF assms(4) count_rows_map])
      (use assms(4) in \<open>auto simp: within_plan_iff count_defs ACTIVE_TUNNEL_STATUSES_def split: if_splits\<close>)
qed (use orgStep_seats [OF assms(2-4)] traffic_within [OF assms(4)] in simp_all)

lemma orgSteps_within:
  assumes "(orgStep cfg e orgId)\<^sup>*\<^sup>* db db'" "ac_isCloudBilling cfg" "db_cloudBilling db" "within_plan db orgId"
  shows "within_plan db' orgId \<and> db_cloudBilling db'"
  using assms(1)
  by (induction rule: rtranclp_induct) (use assms(2-4) orgStep_within orgStep_cloud in \<open>blast+\<close>)

section \<open>Deletion\<close>

lemma softDelete_iff:
  "softDeleteOrganization now orgId db = Inr db' \<longleftrightarrow>
    (\<exists>org. find_org db orgId = Some org \<and> or_deletedAt org = None \<and> getActiveSubscription db orgId = None \<and>
      db' = db\<lparr>
        db_organizations := map (\<lambda>r. if or_id r = orgId
          then r\<lparr>or_deletedAt := Some now, or_slug := or_slug org @ ''-deleted-'' @ show_int now\<rparr> else r) (db_organizations db),
        db_sessions := map (\<lambda>s. if ss_activeOrganizationId s = Some orgId
          then s\<lparr>ss_activeOrganizationId := None\<rparr> else s) (db_sessions db)\<rparr>)"
  unfolding softDeleteOrganization_def lookup_Inr_iff guard_Inr_iff by auto

lemma find_org_deleted:
  "find (\<lambda>r. or_id r = o') (map (\<lambda>r. if or_id r = orgId then r\<lparr>or_deletedAt := d, or_slug := s\<rparr> else r) rs) =
   map_option (\<lambda>r. if or_id r = orgId then r\<lparr>or_deletedAt := d, or_slug := s\<rparr> else r) (find (\<lambda>r. or_id r = o') rs)"
  by (induction rs) auto

lemma find_deleted:
  "find (\<lambda>r. or_id r = orgId \<and> or_deletedAt r = None)
     (map (\<lambda>r. if or_id r = orgId then r\<lparr>or_deletedAt := Some d, or_slug := s\<rparr> else r) rs) = None"
  by (induction rs) auto

lemma softDelete_effect:
  assumes "softDeleteOrganization now orgId db = Inr db'"
  shows "requireActiveOrganization db' orgId = Inl ''Organization not found''"
    and "s \<in> set (db_sessions db') \<Longrightarrow> ss_activeOrganizationId s \<noteq> Some orgId"
    and "o' \<noteq> orgId \<Longrightarrow> find_org db' o' = find_org db o'"
proof -
  obtain org :: orgRow where db': "db' = db\<lparr>
        db_organizations := map (\<lambda>r. if or_id r = orgId
          then r\<lparr>or_deletedAt := Some now, or_slug := or_slug org @ ''-deleted-'' @ show_int now\<rparr> else r) (db_organizations db),
        db_sessions := map (\<lambda>s. if ss_activeOrganizationId s = Some orgId
          then s\<lparr>ss_activeOrganizationId := None\<rparr> else s) (db_sessions db)\<rparr>"
    using assms unfolding softDelete_iff by blast
  have "find (\<lambda>r. or_id r = orgId \<and> or_deletedAt r = None) (db_organizations db') = None"
    unfolding db' by (simp add: find_deleted)
  then show "requireActiveOrganization db' orgId = Inl ''Organization not found''"
    by (simp add: requireActiveOrganization_def)
  show "s \<in> set (db_sessions db') \<Longrightarrow> ss_activeOrganizationId s \<noteq> Some orgId" by (auto simp: db')
  show "o' \<noteq> orgId \<Longrightarrow> find_org db' o' = find_org db o'"
  proof (cases "find (\<lambda>r. or_id r = o') (db_organizations db)")
    case None
    then show ?thesis by (simp add: db' find_org_def find_org_deleted)
  next
    case (Some r)
    assume "o' \<noteq> orgId"
    then have "or_id r \<noteq> orgId" using find_SomeD [OF Some] by simp
    then show ?thesis using Some by (simp add: db' find_org_def find_org_deleted)
  qed
qed

lemma delete_hook_owner:
  assumes "delete_hook now db ctx = Inr (Deleted orgId, db')"
  shows "\<exists>userId role tables. Option.bind (hc_session ctx) hs_userId = Some userId \<and>
    memberRoleInOrg (ad_tables db) userId orgId = Some role \<and> isOwnerRole role \<and>
    softDeleteOrganization now orgId (ad_tables db) = Inr tables \<and> db' = with_tables tables db"
  using assms unfolding delete_hook_def lookup_Inr_iff guard_Inr_iff nonempty_Some
  by (auto split: option.splits sum.splits)

section \<open>Properties\<close>


definition ex_cfg :: authConfig where
  "ex_cfg = \<lparr>ac_disablePublicSignUp = False, ac_isCloudBilling = True, ac_stripePlans = [], ac_stripeEnabled = False\<rparr>"

definition ex_ent :: entitlements where
  "ex_ent = COMMUNITY_ENTITLEMENTS\<lparr>ent_tier := Cloud, ent_features := TIER_PRESETS Cloud\<rparr>"

definition ex_team :: database where
  "ex_team = (ex_db None)\<lparr>db_subscriptions := [\<lparr>sub_id = ''s1'', sub_referenceId = ''o1'', sub_plan = plan_name PlanTeam,
     sub_status = ''active'', sub_seats = Some 2, sub_stripeSubscriptionId = None, sub_periodEnd = None,
     sub_cancelAtPeriodEnd = None\<rparr>]\<rparr>"

definition ex_invite :: invitationRow where
  "ex_invite = \<lparr>iv_id = ''i1'', iv_organizationId = ''o1'', iv_role = Some ''member'', iv_status = ''pending''\<rparr>"

lemma ex_team_plan:
  "ef_planId (getEffectiveOrgPlan ex_team ''o1'') = pid_of PlanTeam" "ef_seats (getEffectiveOrgPlan ex_team ''o1'') = Some 2"
  "ef_limits (getEffectiveOrgPlan ex_team ''o1'') = plan_limits team_plan"
  "ef_features (getEffectiveOrgPlan ex_team ''o1'') = plan_features team_plan"
  by (simp_all add: ex_team_def ex_db_def getEffectiveOrgPlan_def getActiveSubscription_def ACTIVE_SUB_STATUSES_def
      buildEffective_def Let_def effectiveSeatLimit_name the_plan_def del: plan_name.simps)

lemma ex_team_room: "beforeCreateInvitation ex_cfg ex_ent ex_team ''o1'' = Inr ()"
  by (simp add: beforeCreateInvitation_def ex_ent_def featureMap_def FEATURES_def seat_hook_def ex_cfg_def
      assertSeatCapacity_def Let_def ex_team_plan seat_limit_def or_default_def SEAT_BILLING_MEMBERSHIP_CAP_def
      count_defs del: plan_name.simps)
    (simp add: ex_team_def ex_db_def team_plan_def)


text \<open>
  C33. The invitation that takes the last seat cannot be accepted. The hook on acceptance asks for one
  more seat on top of all members and pending invitations, and the invitation that is being accepted is
  still one of these. So when the hook on invitations let the last seat be taken, the hook on
  acceptance refuses, with any plan that has a limit.
\<close>

theorem last_seat_cannot_be_accepted:
  assumes "ac_isCloudBilling cfg" "db_cloudBilling db" "beforeCreateInvitation cfg e db orgId = Inr ()"
    and "iv_organizationId i = orgId" "iv_status i = ''pending''"
    and "seat_cap db orgId = Some cap" "seats_used db orgId + 1 = cap"
  shows "\<not> is_ok (beforeAcceptInvitation cfg (db\<lparr>db_invitations := db_invitations db @ [i]\<rparr>) orgId)"
proof
  let ?db = "db\<lparr>db_invitations := db_invitations db @ [i]\<rparr>"
  assume "is_ok (beforeAcceptInvitation cfg ?db orgId)"
  then have "seat_hook cfg ?db orgId = Inr ()" by (auto simp: is_ok_iff beforeAcceptInvitation_def)
  then have "at_most (seats_used ?db orgId + 1) (seat_cap ?db orgId)"
    using assms(1,2) by (intro seat_hook_cap) simp_all
  moreover have "seat_cap ?db orgId = Some cap" using assms(6) by (simp add: seat_cap_def plan_frame)
  moreover have "seats_used ?db orgId = seats_used db orgId + 1" using assms(4,5) by (simp add: count_defs)
  ultimately show False using assms(7) by (simp add: at_most_def)
qed

theorem last_seat_cannot_be_accepted_witness:
  "\<not> is_ok (beforeAcceptInvitation ex_cfg (ex_team\<lparr>db_invitations := db_invitations ex_team @ [ex_invite]\<rparr>) ''o1'')"
proof (rule last_seat_cannot_be_accepted [OF _ _ ex_team_room])
  show "seat_cap ex_team ''o1'' = Some 2" by code_simp
  show "seats_used ex_team ''o1'' + 1 = 2" by code_simp
qed (simp_all add: ex_cfg_def ex_team_def ex_db_def ex_invite_def)

text \<open>
  The two answers given to the organization plugin agree: a user may create an organization exactly
  when the user has not reached the limit, with cloud billing (where organizations deleted within thirty
  days of their creation still count) and without it.
\<close>

theorem create_iff_limit_not_reached:
  "canUserCreateOrganization cfg e db user now \<longleftrightarrow> \<not> hasReachedOrganizationLimit cfg e db user now"
  by (auto simp: canUserCreateOrganization_def hasReachedOrganizationLimit_def Let_def split: option.split)

text \<open>
  C35. Deleting an organization. When the hook answers a request that it deleted an organization, the
  user of the session is an owner of it; afterwards it is not found as active, no session has it as its
  active organization, and every other organization is as before.
\<close>

theorem delete_by_owner:
  assumes "authBeforeHook now db ctx = Inr (Deleted orgId, db')"
  shows "(\<exists>userId role. Option.bind (hc_session ctx) hs_userId = Some userId \<and>
      memberRoleInOrg (ad_tables db) userId orgId = Some role \<and> isOwnerRole role) \<and>
    requireActiveOrganization (ad_tables db') orgId = Inl ''Organization not found'' \<and>
    (\<forall>s \<in> set (db_sessions (ad_tables db')). ss_activeOrganizationId s \<noteq> Some orgId) \<and>
    (\<forall>o'. o' \<noteq> orgId \<longrightarrow> find_org (ad_tables db') o' = find_org (ad_tables db) o')"
proof -
  have "delete_hook now db ctx = Inr (Deleted orgId, db')"
    using assms by (auto simp: authBeforeHook_def res_bind_Inr_iff split: if_splits)
  from delete_hook_owner [OF this] obtain userId role tables where
    u: "Option.bind (hc_session ctx) hs_userId = Some userId" "memberRoleInOrg (ad_tables db) userId orgId = Some role"
      "isOwnerRole role" "softDeleteOrganization now orgId (ad_tables db) = Inr tables" "db' = with_tables tables db"
    by blast
  then have "ad_tables db' = tables" by (simp add: with_tables_def)
  then show ?thesis using u softDelete_effect [OF u(4)] by auto
qed

definition ex_delete :: hookCtx where
  "ex_delete = ex_remove\<lparr>hc_path := ''/organization/delete'',
     hc_session := Some \<lparr>hs_userId = Some ''u1'', hs_activeOrganizationId = None\<rparr>\<rparr>"

theorem delete_by_owner_witness:
  "\<exists>db'. authBeforeHook 7 ex_auth ex_delete = Inr (Deleted ''o1'', db') \<and>
     requireActiveOrganization (ad_tables db') ''o1'' = Inl ''Organization not found''"
proof -
  have role: "memberRoleInOrg (ad_tables ex_auth) ''u1'' ''o1'' = Some ''owner''"
    by (simp add: memberRoleInOrg_def ex_auth_def ex_member_def)
  have owner: "isOwnerRole ''owner''" by code_simp
  have "\<exists>tables. softDeleteOrganization 7 ''o1'' (ad_tables ex_auth) = Inr tables"
    by (simp add: softDelete_iff ex_auth_def ex_db_def find_org_def getActiveSubscription_def)
  then obtain tables where "softDeleteOrganization 7 ''o1'' (ad_tables ex_auth) = Inr tables" by blast
  then have "authBeforeHook 7 ex_auth ex_delete = Inr (Deleted ''o1'', with_tables tables ex_auth)"
    using role owner by (simp add: authBeforeHook_def delete_hook_def ex_delete_def ex_remove_def nonempty_def)
  then show ?thesis using delete_by_owner by blast
qed

end
