(* ===== verification/Mgmt_Store.thy ===== *)
theory Mgmt_Store
  imports Org_Auth
begin

text \<open>
  What the request handlers of the management server share: the tables behind tags, API keys and
  enrollment tokens, the audit trail (apps/management/src/lib/audit.ts), the version counters and
  notifications (notify.ts) and the error responses (middleware/session.ts).

  The store is a record: the tables of billing (\<open>mg_tables\<close>), the further tables as lists of rows,
  and the two outputs that leave the process, namely the audit events handed to the control plane
  and the notifications sent on the database's channels, each in the order in which they are sent.
  A transaction that throws leaves the store as it was, so an error carries no new store.
\<close>

section \<open>Responses\<close>

datatype httpError = HttpError int string | Thrown string

definition unauthorized :: httpError where
  "unauthorized = HttpError 401 ''Unauthorized''"

definition forbidden :: httpError where
  "forbidden = HttpError 403 ''Forbidden''"

definition badRequest :: "string \<Rightarrow> httpError" where
  "badRequest message = HttpError 400 message"

definition notFound :: "string \<Rightarrow> httpError" where
  "notFound message = HttpError 404 message"

definition conflict :: "string \<Rightarrow> httpError" where
  "conflict message = HttpError 409 message"

section \<open>Times\<close>

definition utc_day :: "int \<Rightarrow> int" where
  "utc_day ms = (let doe = (ms div 86400000 + 719468) mod 146097;
     yoe = (doe - doe div 1460 + doe div 36524 - doe div 146096) div 365;
     doy = doe - (365 * yoe + yoe div 4 - yoe div 100);
     mp = (5 * doy + 2) div 153
   in doy - (153 * mp + 2) div 5 + 1)"

definition pad :: "nat \<Rightarrow> int \<Rightarrow> string" where
  "pad width n = (let s = show_nat (nat n) in replicate (width - length s) (CHR ''0'') @ s)"

text \<open>\<open>date.toISOString()\<close>.\<close>

definition toISOString :: "int \<Rightarrow> string" where
  "toISOString ms = (let (year, mon) = utc_year_month ms; t = ms mod 86400000 in
     (if 0 \<le> year \<and> year \<le> 9999 then pad 4 year
      else (if year < 0 then ''-'' else ''+'') @ pad 6 \<bar>year\<bar>) @
     ''-'' @ pad 2 mon @ ''-'' @ pad 2 (utc_day ms) @ ''T'' @ pad 2 (t div 3600000) @ '':'' @
     pad 2 (t div 60000 mod 60) @ '':'' @ pad 2 (t div 1000 mod 60) @ ''.'' @ pad 3 (t mod 1000) @ ''Z'')"

section \<open>Tables\<close>

record tagDefRow =
  td_id :: string
  td_organizationId :: string
  td_name :: string
  td_owners :: "string list"

record deviceTagRow =
  dt_endpointId :: string
  dt_tag :: string

record apiKeyRow =
  ak_id :: string
  ak_organizationId :: string
  ak_name :: string
  ak_secretPrefix :: "string option"
  ak_hashedSecret :: string
  ak_scopes :: "string list"
  ak_networkIds :: "string list option"
  ak_expiresAt :: "int option"
  ak_revokedAt :: "int option"

record oauthClientRow =
  oc_id :: string
  oc_organizationId :: string
  oc_clientId :: string
  oc_hashedSecret :: string
  oc_scopes :: "string list"
  oc_networkIds :: "string list option"
  oc_revokedAt :: "int option"

record oauthTokenRow =
  ot_id :: string
  ot_clientId :: string
  ot_organizationId :: string
  ot_tokenHash :: string
  ot_scopes :: "string list"
  ot_expiresAt :: int

record enrollmentTokenRow =
  et_tokenHash :: string
  et_organizationId :: string
  et_networkId :: string
  et_createdBy :: string
  et_tags :: "string list"
  et_expiresAt :: int
  et_usedAt :: "int option"

record membershipRow =
  nm_networkId :: string
  nm_endpointId :: string

record auditEvent =
  ev_organization_id :: string
  ev_class_uid :: int
  ev_activity_id :: int
  ev_message :: string
  ev_actor_id :: string
  ev_target_type :: string
  ev_target_id :: string
  ev_metadata :: "(string \<times> json) list"
  ev_trace_id :: "string option"

record mgmtDb =
  mg_tables :: database
  mg_snapshotVersion :: "(string \<times> int) list"
  mg_networkVersion :: "((string \<times> string) \<times> int) list"
  mg_memberships :: "membershipRow list"
  mg_tagDefinitions :: "tagDefRow list"
  mg_deviceTags :: "deviceTagRow list"
  mg_apiKeys :: "apiKeyRow list"
  mg_oauthClients :: "oauthClientRow list"
  mg_oauthTokens :: "oauthTokenRow list"
  mg_enrollmentTokens :: "enrollmentTokenRow list"
  mg_auditLog :: "auditEvent list"
  mg_notified :: "(string \<times> string) list"

section \<open>Audit events\<close>

definition CLASS_ENTITY_MGMT :: int where
  "CLASS_ENTITY_MGMT = 7003"

text \<open>The class and the kind of target for the first segment of an action.\<close>

definition action_classes :: "(string list \<times> int \<times> string) list" where
  "action_classes =
    [([''network''], 7101, ''network''),
     ([''device'', ''sdk''], 7102, ''device''),
     ([''policy'', ''acl''], 7103, ''policy''),
     ([''tunnel''], 7104, ''tunnel''),
     ([''ssh''], 7105, ''ssh''),
     ([''edge''], 7106, ''edge''),
     ([''relay''], 7112, ''relay''),
     ([''posture''], 7107, ''posture''),
     ([''certificate'', ''ca''], 7108, ''certificate''),
     ([''serve''], 7110, ''serve''),
     ([''api_key'', ''apikey''], 7111, ''api_key''),
     ([''member'', ''user'', ''invitation''], 7001, ''user''),
     ([''auth'', ''sso''], 7002, ''auth'')]"

definition action_activity :: "string \<Rightarrow> int" where
  "action_activity action =
    (if \<exists>w \<in> set [''created'', ''added'', ''registered'', ''enrolled'', ''issued'']. str_includes action w then 1
     else if \<exists>w \<in> set [''deleted'', ''removed'', ''revoked'', ''purged'']. str_includes action w then 4
     else if \<exists>w \<in> set [''updated'', ''changed'', ''patched'', ''set'']. str_includes action w then 3
     else 99)"

definition mapAction :: "string \<Rightarrow> int \<times> int \<times> string" where
  "mapAction action = (let prefix = hd (split_on (CHR ''.'') action);
       (classUid, targetType) =
         (case find (\<lambda>(ps, _). prefix \<in> set ps) action_classes of
            Some (_, c, t) \<Rightarrow> (c, t)
          | None \<Rightarrow> (CLASS_ENTITY_MGMT, ''entity''))
     in (classUid, action_activity action, targetType))"

record auditInput =
  in_organizationId :: string
  in_actor :: string
  in_action :: string
  in_target :: "string option"
  in_metadata :: "(string \<times> json) list"
  in_traceId :: "string option"

definition spread :: "(string \<times> json) list \<Rightarrow> (string \<times> json) list \<Rightarrow> (string \<times> json) list" where
  "spread kvs kvs2 = foldl (\<lambda>m (k, v). AList.update k v m) kvs kvs2"

definition toIngestEvent :: "auditInput \<Rightarrow> auditEvent" where
  "toIngestEvent i = (let (classUid, activityId, targetType) = mapAction (in_action i);
       targetId = (case in_target i of Some t \<Rightarrow> t | None \<Rightarrow> [])
     in \<lparr>ev_organization_id = in_organizationId i, ev_class_uid = classUid, ev_activity_id = activityId,
         ev_message = in_action i @ (if targetId \<noteq> [] then '' on '' @ targetId else []) @ '' by '' @ in_actor i,
         ev_actor_id = in_actor i, ev_target_type = targetType, ev_target_id = targetId,
         ev_metadata = spread [(''action'', JStr (in_action i))] (in_metadata i),
         ev_trace_id = in_traceId i\<rparr>)"

definition writeAudit :: "auditInput \<Rightarrow> mgmtDb \<Rightarrow> mgmtDb" where
  "writeAudit i db = db\<lparr>mg_auditLog := mg_auditLog db @ [toIngestEvent i]\<rparr>"

section \<open>Versions and notifications\<close>

definition NOTIFY_CHANNEL :: string where
  "NOTIFY_CHANNEL = ''tunnet:network_changed''"

definition ORG_NOTIFY_CHANNEL :: string where
  "ORG_NOTIFY_CHANNEL = ''tunnet:org_changed''"

definition bump :: "'k \<Rightarrow> ('k \<times> int) list \<Rightarrow> ('k \<times> int) list" where
  "bump k rows = map (\<lambda>(k', v). if k' = k then (k', v + 1) else (k', v)) rows"

definition bumpNetworkVersion :: "string \<Rightarrow> string \<Rightarrow> mgmtDb \<Rightarrow> mgmtDb" where
  "bumpNetworkVersion networkId organizationId db =
    db\<lparr>mg_networkVersion := bump (networkId, organizationId) (mg_networkVersion db)\<rparr>"

definition bumpOrgSnapshotVersion :: "string \<Rightarrow> mgmtDb \<Rightarrow> mgmtDb" where
  "bumpOrgSnapshotVersion organizationId db =
    db\<lparr>mg_snapshotVersion := bump organizationId (mg_snapshotVersion db)\<rparr>"

definition notifyNetworkChanged :: "string \<Rightarrow> mgmtDb \<Rightarrow> mgmtDb" where
  "notifyNetworkChanged networkId db = db\<lparr>mg_notified := mg_notified db @ [(NOTIFY_CHANNEL, networkId)]\<rparr>"

definition notifyOrgChanged :: "string \<Rightarrow> mgmtDb \<Rightarrow> mgmtDb" where
  "notifyOrgChanged organizationId db =
    db\<lparr>mg_notified := mg_notified db @ [(ORG_NOTIFY_CHANNEL, organizationId)]\<rparr>"

definition bumpNetworkAndNotify :: "string \<Rightarrow> string \<Rightarrow> mgmtDb \<Rightarrow> mgmtDb" where
  "bumpNetworkAndNotify networkId organizationId db =
    notifyNetworkChanged networkId (bumpNetworkVersion networkId organizationId db)"

definition bumpOrgAndNotify :: "string \<Rightarrow> mgmtDb \<Rightarrow> mgmtDb" where
  "bumpOrgAndNotify organizationId db = notifyOrgChanged organizationId (bumpOrgSnapshotVersion organizationId db)"

lemmas store_defs =
  writeAudit_def bumpNetworkVersion_def bumpOrgSnapshotVersion_def notifyNetworkChanged_def
  notifyOrgChanged_def bumpNetworkAndNotify_def bumpOrgAndNotify_def

section \<open>Grouping\<close>

text \<open>\<open>const list = map.get(k) ?? []; list.push(v); map.set(k, list)\<close>.\<close>

definition map_push :: "'k \<Rightarrow> 'v \<Rightarrow> ('k \<times> 'v list) list \<Rightarrow> ('k \<times> 'v list) list" where
  "map_push k v m = AList.update k ((case map_of m k of Some vs \<Rightarrow> vs | None \<Rightarrow> []) @ [v]) m"

lemma map_of_foldl_push:
  "map_of (foldl (\<lambda>m x. map_push (f x) (g x) m) m xs) k =
   (let vs = map g (filter (\<lambda>x. f x = k) xs) in
    case map_of m k of Some us \<Rightarrow> Some (us @ vs) | None \<Rightarrow> if vs = [] then None else Some vs)"
  by (induction xs arbitrary: m) (auto simp: map_push_def Let_def update_conv split: option.splits)

lemma distinct_foldl_push:
  "distinct (map fst m) \<Longrightarrow> distinct (map fst (foldl (\<lambda>m x. map_push (f x) (g x) m) m xs))"
  by (induction xs arbitrary: m) (auto simp: map_push_def distinct_update)

lemma foldl_push_mem:
  "(\<exists>vs. (k, vs) \<in> set (foldl (\<lambda>m x. map_push (f x) (g x) m) [] xs) \<and> v \<in> set vs) \<longleftrightarrow> (\<exists>x \<in> set xs. f x = k \<and> g x = v)"
proof -
  let ?m = "foldl (\<lambda>m x. map_push (f x) (g x) m) [] xs"
  have "(k, vs) \<in> set ?m \<longleftrightarrow> map_of ?m k = Some vs" for vs
    using distinct_foldl_push [of "[]" f g xs] by simp
  then show ?thesis by (auto simp: map_of_foldl_push Let_def filter_empty_conv)
qed

section \<open>What the bookkeeping leaves alone\<close>

lemma writeAudit_frame [simp]:
  "mg_tables (writeAudit i db) = mg_tables db"
  "mg_memberships (writeAudit i db) = mg_memberships db"
  "mg_tagDefinitions (writeAudit i db) = mg_tagDefinitions db"
  "mg_deviceTags (writeAudit i db) = mg_deviceTags db"
  "mg_apiKeys (writeAudit i db) = mg_apiKeys db"
  "mg_oauthClients (writeAudit i db) = mg_oauthClients db"
  "mg_oauthTokens (writeAudit i db) = mg_oauthTokens db"
  "mg_enrollmentTokens (writeAudit i db) = mg_enrollmentTokens db"
  "mg_snapshotVersion (writeAudit i db) = mg_snapshotVersion db"
  "mg_notified (writeAudit i db) = mg_notified db"
  "mg_auditLog (writeAudit i db) = mg_auditLog db @ [toIngestEvent i]"
  by (simp_all add: writeAudit_def)

lemma bumpOrgAndNotify_frame [simp]:
  "mg_tables (bumpOrgAndNotify o' db) = mg_tables db"
  "mg_memberships (bumpOrgAndNotify o' db) = mg_memberships db"
  "mg_tagDefinitions (bumpOrgAndNotify o' db) = mg_tagDefinitions db"
  "mg_deviceTags (bumpOrgAndNotify o' db) = mg_deviceTags db"
  "mg_apiKeys (bumpOrgAndNotify o' db) = mg_apiKeys db"
  "mg_oauthClients (bumpOrgAndNotify o' db) = mg_oauthClients db"
  "mg_oauthTokens (bumpOrgAndNotify o' db) = mg_oauthTokens db"
  "mg_enrollmentTokens (bumpOrgAndNotify o' db) = mg_enrollmentTokens db"
  "mg_auditLog (bumpOrgAndNotify o' db) = mg_auditLog db"
  "mg_snapshotVersion (bumpOrgAndNotify o' db) = bump o' (mg_snapshotVersion db)"
  "mg_notified (bumpOrgAndNotify o' db) = mg_notified db @ [(ORG_NOTIFY_CHANNEL, o')]"
  by (simp_all add: store_defs)

lemma bumpNetworkAndNotify_frame [simp]:
  "mg_tables (bumpNetworkAndNotify n o' db) = mg_tables db"
  "mg_memberships (bumpNetworkAndNotify n o' db) = mg_memberships db"
  "mg_deviceTags (bumpNetworkAndNotify n o' db) = mg_deviceTags db"
  by (simp_all add: store_defs)

lemma map_of_bump [simp]: "map_of (bump k rows) k' = map_option (\<lambda>v. if k' = k then v + 1 else v) (map_of rows k')"
  by (induction rows) (auto simp: bump_def)

end
