(* ===== verification/Tag_Ownership.thy ===== *)
theory Tag_Ownership
  imports Mgmt_Store
begin

text \<open>
  Who may put which tag on a device (apps/management/src/lib/tag-ownership.ts). A tag definition names
  its owners: users, the administrators, or further tags, whose owners own the tag as well. Ownership
  may be cyclic; the search for a matching owner carries the set of tags it has visited, and since the
  set grows in the nested call and is used again afterwards, termination rests on the fact that a call
  only ever adds to it (\<open>visited_grows\<close>). The second part specifies ownership as an inductive relation
  that knows nothing of a visited set, and shows that the search decides it.
\<close>

section \<open>Names and owners\<close>

definition normalizeTagName :: "string \<Rightarrow> string" where
  "normalizeTagName name = (let s = toLowerCase (trim name) in
     if startsWith s ''tag:'' then drop 4 s else s)"

definition defaultOwnerForUser :: "string \<Rightarrow> string" where
  "defaultOwnerForUser userId = ''user:'' @ userId"

record tagActor =
  ta_userId :: "string option"
  ta_email :: "string option"
  ta_isOrgAdmin :: bool
  ta_endpointId :: "string option"

definition find_def :: "mgmtDb \<Rightarrow> string \<Rightarrow> string \<Rightarrow> tagDefRow option" where
  "find_def db organizationId name =
    find (\<lambda>d. td_organizationId d = organizationId \<and> td_name d = name) (mg_tagDefinitions db)"

definition identity_matches :: "tagActor \<Rightarrow> string \<Rightarrow> bool" where
  "identity_matches actor identity \<longleftrightarrow>
    (case nonempty (ta_userId actor) of Some u \<Rightarrow> identity = u | None \<Rightarrow> False) \<or>
    (case nonempty (ta_email actor) of Some e \<Rightarrow> toLowerCase identity = toLowerCase e | None \<Rightarrow> False)"

definition device_holds :: "mgmtDb \<Rightarrow> tagActor \<Rightarrow> string \<Rightarrow> bool" where
  "device_holds db actor tag \<longleftrightarrow> (case nonempty (ta_endpointId actor) of
       Some ep \<Rightarrow> find (\<lambda>r. dt_endpointId r = ep \<and> dt_tag r = tag) (mg_deviceTags db) \<noteq> None
     | None \<Rightarrow> False)"

text \<open>What the body of the loop does with one owner: return true, go on with the next owner, or ask
  the owners of a parent tag. Each carries the set \<open>visited\<close> at that point.\<close>

datatype ownerStep = Match "string list" | Continue "string list" | Parent tagDefRow "string list"

definition owner_step :: "mgmtDb \<Rightarrow> string \<Rightarrow> tagActor \<Rightarrow> string \<Rightarrow> string list \<Rightarrow> ownerStep" where
  "owner_step db organizationId actor owner visited =
    (if owner = ''autogroup:admin'' then
       (if ta_isOrgAdmin actor then Match visited else Continue visited)
     else if startsWith owner ''user:'' then
       (if identity_matches actor (drop 5 owner) then Match visited else Continue visited)
     else if startsWith owner ''tag:'' then
       (let parentTag = normalizeTagName (drop 4 owner) in
        if parentTag \<in> set visited then Continue visited
        else let visited = visited @ [parentTag] in
          if device_holds db actor parentTag then Match visited
          else (case find_def db organizationId parentTag of
              None \<Rightarrow> Continue visited
            | Some parentDef \<Rightarrow> Parent parentDef visited))
     else Continue visited)"

text \<open>The loop; the second component of the result is the set \<open>visited\<close> after the call, which the
  caller shares.\<close>

function actorMatchesOwners ::
  "mgmtDb \<Rightarrow> string \<Rightarrow> tagActor \<Rightarrow> string list \<Rightarrow> string list \<Rightarrow> bool \<times> string list" where
  "actorMatchesOwners db organizationId actor [] visited = (False, visited)"
| "actorMatchesOwners db organizationId actor (owner # owners) visited =
    (case owner_step db organizationId actor owner visited of
       Match visited' \<Rightarrow> (True, visited')
     | Continue visited' \<Rightarrow> actorMatchesOwners db organizationId actor owners visited'
     | Parent parentDef visited' \<Rightarrow>
         (case actorMatchesOwners db organizationId actor (td_owners parentDef) visited' of
            (True, visited'') \<Rightarrow> (True, visited'')
          | (False, visited'') \<Rightarrow> actorMatchesOwners db organizationId actor owners visited''))"
  by pat_completeness auto

definition open_names :: "mgmtDb \<Rightarrow> string list \<Rightarrow> nat" where
  "open_names db visited = card (td_name ` set (mg_tagDefinitions db) - set visited)"

lemma find_def_SomeD:
  "find_def db organizationId name = Some d \<Longrightarrow>
   d \<in> set (mg_tagDefinitions db) \<and> td_organizationId d = organizationId \<and> td_name d = name"
  unfolding find_def_def by (drule find_SomeD) simp

lemma open_names_mono: "set visited \<subseteq> set visited' \<Longrightarrow> open_names db visited' \<le> open_names db visited"
  unfolding open_names_def by (intro card_mono) auto

lemma open_names_less:
  assumes "find_def db organizationId name = Some d" "name \<notin> set visited"
  shows "open_names db (visited @ [name]) < open_names db visited"
  unfolding open_names_def using find_def_SomeD [OF assms(1)] assms(2) by (intro psubset_card_mono) auto

lemma owner_step_visited:
  "owner_step db organizationId actor owner visited = Match visited' \<Longrightarrow> set visited \<subseteq> set visited'"
  "owner_step db organizationId actor owner visited = Continue visited' \<Longrightarrow> set visited \<subseteq> set visited'"
  "owner_step db organizationId actor owner visited = Parent d visited' \<Longrightarrow>
     set visited \<subseteq> set visited' \<and> open_names db visited' < open_names db visited"
  by (auto simp: owner_step_def Let_def open_names_less split: if_splits option.splits)

lemma visited_grows:
  "actorMatchesOwners_dom (db, organizationId, actor, owners, visited) \<Longrightarrow>
   set visited \<subseteq> set (snd (actorMatchesOwners db organizationId actor owners visited))"
proof (induction db organizationId actor owners visited rule: actorMatchesOwners.pinduct)
  case (1 db organizationId actor visited)
  then show ?case by (simp add: actorMatchesOwners.psimps)
next
  case (2 db organizationId actor owner owners visited)
  note eq = actorMatchesOwners.psimps(2) [OF 2(1)]
  show ?case
  proof (cases "owner_step db organizationId actor owner visited")
    case (Match v)
    then show ?thesis using owner_step_visited(1) by (simp add: eq)
  next
    case (Continue v)
    then show ?thesis using owner_step_visited(2) [OF Continue] 2(2) [OF Continue] by (simp add: eq)
  next
    case (Parent d v)
    obtain b v' where r: "actorMatchesOwners db organizationId actor (td_owners d) v = (b, v')" by fastforce
    have "set visited \<subseteq> set v" "set v \<subseteq> set v'"
      using owner_step_visited(3) [OF Parent] 2(3) [OF Parent] r by simp_all
    then show ?thesis using 2(4) [OF Parent] by (cases b) (auto simp: eq Parent r)
  qed
qed

termination actorMatchesOwners
proof (relation "inv_image (less_than <*lex*> less_than)
    (\<lambda>(db, organizationId, actor, owners, visited). (open_names db visited, length owners))", goal_cases)
  case (2 db organizationId actor owner owners visited visited')
  then show ?case using open_names_mono [OF owner_step_visited(2)] by (auto simp: le_less)
next
  case (3 db organizationId actor owner owners visited d visited')
  then show ?case using owner_step_visited(3) by auto
next
  case (4 db organizationId actor owner owners visited d visited' found visited'')
  then have "set visited' \<subseteq> set visited''" using visited_grows [of db organizationId actor "td_owners d" visited'] by (metis snd_conv)
  then have "open_names db visited'' \<le> open_names db visited'" by (rule open_names_mono)
  then show ?case using owner_step_visited(3) [OF 4(1)] by simp
qed auto

definition canAssignTag :: "mgmtDb \<Rightarrow> string \<Rightarrow> string \<Rightarrow> tagActor \<Rightarrow> bool" where
  "canAssignTag db organizationId tagName actor =
    (if ta_isOrgAdmin actor then True
     else (case find_def db organizationId (normalizeTagName tagName) of
         None \<Rightarrow> False
       | Some d \<Rightarrow> fst (actorMatchesOwners db organizationId actor (td_owners d) [])))"

definition unique_names :: "string list \<Rightarrow> string list" where
  "unique_names tagNames = uniq (filter (\<lambda>t. t \<noteq> []) (map normalizeTagName tagNames))"

text \<open>The first tag that may not be assigned, if there is one.\<close>

definition assertCanAssignTags :: "mgmtDb \<Rightarrow> string \<Rightarrow> string list \<Rightarrow> tagActor \<Rightarrow> string option" where
  "assertCanAssignTags db organizationId tagNames actor =
    find (\<lambda>tag. \<not> canAssignTag db organizationId tag actor) (unique_names tagNames)"

definition ensureTagDefinitionsExist :: "mgmtDb \<Rightarrow> string \<Rightarrow> string list \<Rightarrow> string list" where
  "ensureTagDefinitionsExist db organizationId tagNames = (let unique = unique_names tagNames;
       found = map td_name (filter (\<lambda>d. td_organizationId d = organizationId \<and> td_name d \<in> set unique)
         (mg_tagDefinitions db))
     in filter (\<lambda>name. name \<notin> set found) unique)"

section \<open>Tags of devices\<close>

definition listDeviceTags :: "mgmtDb \<Rightarrow> string \<Rightarrow> string list" where
  "listDeviceTags db endpointId =
    sort (map dt_tag (filter (\<lambda>r. dt_endpointId r = endpointId) (mg_deviceTags db)))"

text \<open>The grouping of all rows at once, as the list view does it.\<close>

definition listDeviceTagsForEndpoints :: "mgmtDb \<Rightarrow> string list \<Rightarrow> (string \<times> string list) list" where
  "listDeviceTagsForEndpoints db endpointIds =
    (if endpointIds = [] then []
     else map (\<lambda>(ep, tags). (ep, sort tags))
       (foldl (\<lambda>m row. map_push (dt_endpointId row) (dt_tag row) m) [] (filter (\<lambda>r. dt_endpointId r \<in> set endpointIds) (mg_deviceTags db))))"

definition delete_tag :: "string \<Rightarrow> string \<Rightarrow> mgmtDb \<Rightarrow> mgmtDb" where
  "delete_tag endpointId tag db = db\<lparr>mg_deviceTags :=
     filter (\<lambda>r. \<not> (dt_endpointId r = endpointId \<and> dt_tag r = tag)) (mg_deviceTags db)\<rparr>"

text \<open>An insert that does nothing when the primary key is taken.\<close>

definition insert_tag :: "string \<Rightarrow> string \<Rightarrow> mgmtDb \<Rightarrow> mgmtDb" where
  "insert_tag endpointId tag db = (let row = \<lparr>dt_endpointId = endpointId, dt_tag = tag\<rparr> in
     if row \<in> set (mg_deviceTags db) then db
     else db\<lparr>mg_deviceTags := mg_deviceTags db @ [row]\<rparr>)"

definition applyDeviceTagChanges :: "string \<Rightarrow> string list \<Rightarrow> string list \<Rightarrow> mgmtDb \<Rightarrow> string list \<times> mgmtDb" where
  "applyDeviceTagChanges endpointId adds removes db = (let toAdd = unique_names adds; toRemove = unique_names removes;
       db1 = foldl (\<lambda>d tag. delete_tag endpointId tag d) db toRemove;
       db2 = foldl (\<lambda>d tag. insert_tag endpointId tag d) db1 toAdd
     in (listDeviceTags db2 endpointId, db2))"

text \<open>The rows of the device are deleted first, and the names are unique, so no insert meets its
  primary key.\<close>

definition replaceDeviceTags :: "string \<Rightarrow> string list \<Rightarrow> mgmtDb \<Rightarrow> string list \<times> mgmtDb" where
  "replaceDeviceTags endpointId tags db = (let nxt = unique_names tags;
       db1 = db\<lparr>mg_deviceTags := filter (\<lambda>r. dt_endpointId r \<noteq> endpointId) (mg_deviceTags db)\<rparr>;
       db2 = foldl (\<lambda>d tag. d\<lparr>mg_deviceTags := mg_deviceTags d @ [\<lparr>dt_endpointId = endpointId, dt_tag = tag\<rparr>]\<rparr>) db1 nxt
     in (sort nxt, db2))"

section \<open>Ownership as a relation\<close>

inductive owner_grants :: "mgmtDb \<Rightarrow> string \<Rightarrow> tagActor \<Rightarrow> string \<Rightarrow> bool" for db organizationId actor where
  admin: "ta_isOrgAdmin actor \<Longrightarrow> owner_grants db organizationId actor ''autogroup:admin''"
| user: "identity_matches actor identity \<Longrightarrow> owner_grants db organizationId actor (''user:'' @ identity)"
| held: "device_holds db actor (normalizeTagName name) \<Longrightarrow> owner_grants db organizationId actor (''tag:'' @ name)"
| parent: "find_def db organizationId (normalizeTagName name) = Some d \<Longrightarrow> owner \<in> set (td_owners d) \<Longrightarrow>
    owner_grants db organizationId actor owner \<Longrightarrow> owner_grants db organizationId actor (''tag:'' @ name)"

lemma owner_step_Match:
  assumes "owner_step db organizationId actor owner visited = Match visited'"
  shows "owner_grants db organizationId actor owner"
  using assms by (auto simp: owner_step_def Let_def startsWith_iff intro: owner_grants.intros [simplified]
      split: if_splits option.splits)

lemma owner_step_Parent:
  assumes "owner_step db organizationId actor owner visited = Parent d visited'"
  shows "\<exists>name. owner = ''tag:'' @ name \<and> find_def db organizationId (normalizeTagName name) = Some d \<and>
     visited' = visited @ [normalizeTagName name] \<and> \<not> device_holds db actor (normalizeTagName name)"
  using assms by (auto simp: owner_step_def Let_def startsWith_iff split: if_splits option.splits)

lemma match_sound:
  "fst (actorMatchesOwners db organizationId actor owners visited) \<Longrightarrow>
   \<exists>owner \<in> set owners. owner_grants db organizationId actor owner"
proof (induction db organizationId actor owners visited rule: actorMatchesOwners.induct)
  case (1 db organizationId actor visited)
  then show ?case by simp
next
  case (2 db organizationId actor owner owners visited)
  show ?case
  proof (cases "owner_step db organizationId actor owner visited")
    case (Match v)
    then show ?thesis using owner_step_Match by auto
  next
    case (Continue v)
    then show ?thesis using 2(1) [OF Continue] 2(4) by auto
  next
    case (Parent d v)
    obtain b v' where r: "actorMatchesOwners db organizationId actor (td_owners d) v = (b, v')" by fastforce
    show ?thesis
    proof (cases b)
      case True
      then have "\<exists>o' \<in> set (td_owners d). owner_grants db organizationId actor o'" using 2(2) [OF Parent] r by simp
      then show ?thesis using owner_step_Parent [OF Parent] owner_grants.parent by force
    next
      case False
      then show ?thesis using 2(3) [OF Parent] r 2(4) Parent by auto
    qed
  qed
qed

text \<open>An owner is dead when it matches nothing and, if it is a tag, the tag has been visited; a visited
  tag is settled when the device does not hold it and every owner of its definition is dead.\<close>

definition dead :: "tagActor \<Rightarrow> string set \<Rightarrow> string \<Rightarrow> bool" where
  "dead actor V owner \<longleftrightarrow> (owner = ''autogroup:admin'' \<longrightarrow> \<not> ta_isOrgAdmin actor) \<and>
    (\<forall>identity. owner = ''user:'' @ identity \<longrightarrow> \<not> identity_matches actor identity) \<and>
    (\<forall>name. owner = ''tag:'' @ name \<longrightarrow> normalizeTagName name \<in> V)"

definition settled :: "mgmtDb \<Rightarrow> string \<Rightarrow> tagActor \<Rightarrow> string set \<Rightarrow> string \<Rightarrow> bool" where
  "settled db organizationId actor V tag \<longleftrightarrow> \<not> device_holds db actor tag \<and>
    (\<forall>d. find_def db organizationId tag = Some d \<longrightarrow> (\<forall>owner \<in> set (td_owners d). dead actor V owner))"

lemma dead_mono: "dead actor V owner \<Longrightarrow> V \<subseteq> W \<Longrightarrow> dead actor W owner"
  by (auto simp: dead_def)

lemma settled_mono: "settled db organizationId actor V tag \<Longrightarrow> V \<subseteq> W \<Longrightarrow> settled db organizationId actor W tag"
  unfolding settled_def using dead_mono by blast

lemma owner_step_Continue:
  assumes "owner_step db organizationId actor owner visited = Continue visited'"
  shows "dead actor (set visited') owner \<and> (\<forall>t \<in> set visited' - set visited. settled db organizationId actor {} t)"
  using assms by (auto simp: owner_step_def dead_def settled_def Let_def startsWith_iff split: if_splits option.splits)

lemma match_complete:
  "actorMatchesOwners db organizationId actor owners visited = (False, visited') \<Longrightarrow>
   set visited \<subseteq> set visited' \<and> (\<forall>owner \<in> set owners. dead actor (set visited') owner) \<and>
   (\<forall>t \<in> set visited' - set visited. settled db organizationId actor (set visited') t)"
proof (induction db organizationId actor owners visited arbitrary: visited' rule: actorMatchesOwners.induct)
  case (1 db organizationId actor visited)
  then show ?case by simp
next
  case (2 db organizationId actor owner owners visited)
  show ?case
  proof (cases "owner_step db organizationId actor owner visited")
    case (Match v)
    then show ?thesis using 2(4) by simp
  next
    case (Continue v)
    have IH: "set v \<subseteq> set visited'" "\<forall>owner \<in> set owners. dead actor (set visited') owner"
      "\<forall>t \<in> set visited' - set v. settled db organizationId actor (set visited') t"
      using 2(1) [OF Continue, of visited'] 2(4) Continue by simp_all
    show ?thesis
      using IH owner_step_Continue [OF Continue] owner_step_visited(2) [OF Continue]
      by (auto intro: dead_mono settled_mono)
  next
    case (Parent d v)
    obtain name where name: "owner = ''tag:'' @ name" "find_def db organizationId (normalizeTagName name) = Some d"
      "v = visited @ [normalizeTagName name]" "\<not> device_holds db actor (normalizeTagName name)"
      using owner_step_Parent [OF Parent] by blast
    obtain v' where r: "actorMatchesOwners db organizationId actor (td_owners d) v = (False, v')"
      "actorMatchesOwners db organizationId actor owners v' = (False, visited')"
      using 2(4) Parent by (auto split: prod.splits bool.splits)
    note up = 2(2) [OF Parent r(1)]
    note rest = 2(3) [OF Parent r(1) [symmetric] refl r(2)]
    have "dead actor (set visited') owner" using up rest name by (auto simp: dead_def)
    moreover have "settled db organizationId actor (set visited') (normalizeTagName name)"
      using up rest name by (auto simp: settled_def intro: dead_mono)
    ultimately show ?thesis using up rest name by (auto intro: settled_mono)
  qed
qed

lemma settled_grants_nothing:
  assumes "owner_grants db organizationId actor owner" "\<forall>t \<in> V. settled db organizationId actor V t"
  shows "\<not> dead actor V owner"
  using assms by (induction rule: owner_grants.induct) (auto simp: dead_def settled_def)

lemma actorMatchesOwners_iff:
  "fst (actorMatchesOwners db organizationId actor owners []) \<longleftrightarrow>
   (\<exists>owner \<in> set owners. owner_grants db organizationId actor owner)"
proof
  assume "\<exists>owner \<in> set owners. owner_grants db organizationId actor owner"
  then obtain owner where owner: "owner \<in> set owners" "owner_grants db organizationId actor owner" by blast
  show "fst (actorMatchesOwners db organizationId actor owners [])"
  proof (rule ccontr)
    assume "\<not> ?thesis"
    then obtain v where "actorMatchesOwners db organizationId actor owners [] = (False, v)"
      by (cases "actorMatchesOwners db organizationId actor owners []") simp
    note fin = match_complete [OF this]
    have "\<forall>t \<in> set v. settled db organizationId actor (set v) t" using fin by simp
    then show False using settled_grants_nothing [OF owner(2)] fin owner(1) by blast
  qed
qed (rule match_sound)

text \<open>C36: the search through the owners decides ownership, however the definitions refer to one another.
  An actor may assign a tag exactly when the actor is an administrator, or the tag is defined in the
  organization and one of its owners grants it: as a user that the actor is, as a tag that the actor's
  device holds, or as a tag that is defined and granted in turn by one of its own owners.\<close>

theorem canAssignTag_decides_ownership:
  "canAssignTag db organizationId tagName actor \<longleftrightarrow>
    ta_isOrgAdmin actor \<or>
    (\<exists>d. find_def db organizationId (normalizeTagName tagName) = Some d \<and>
      (\<exists>owner. owner \<in> set (td_owners d) \<and> owner_grants db organizationId actor owner))"
  unfolding canAssignTag_def by (auto simp: actorMatchesOwners_iff split: option.split)

section \<open>The effect of the changes\<close>

abbreviation tag_row :: "string \<Rightarrow> string \<Rightarrow> deviceTagRow" where
  "tag_row endpointId tag \<equiv> \<lparr>dt_endpointId = endpointId, dt_tag = tag\<rparr>"

lemma set_unique_names: "set (unique_names ts) = normalizeTagName ` set ts - {[]}"
  by (auto simp: unique_names_def)

lemma distinct_unique_names [simp]: "distinct (unique_names ts)"
  by (simp add: unique_names_def)

lemma foldl_delete_tag:
  "foldl (\<lambda>d tag. delete_tag ep tag d) db ts =
   db\<lparr>mg_deviceTags := filter (\<lambda>r. \<not> (dt_endpointId r = ep \<and> dt_tag r \<in> set ts)) (mg_deviceTags db)\<rparr>"
proof (induction ts arbitrary: db)
  case Nil
  then show ?case by simp
next
  case (Cons t ts)
  show ?case unfolding foldl_Cons Cons.IH
    by (auto simp: delete_tag_def intro!: arg_cong [of _ _ "\<lambda>rows. mg_deviceTags_update (\<lambda>_. rows) db"] filter_cong)
qed

lemma foldl_insert_tag:
  "distinct ts \<Longrightarrow> foldl (\<lambda>d tag. insert_tag ep tag d) db ts =
   db\<lparr>mg_deviceTags := mg_deviceTags db @ map (tag_row ep) (filter (\<lambda>t. tag_row ep t \<notin> set (mg_deviceTags db)) ts)\<rparr>"
proof (induction ts arbitrary: db)
  case Nil
  then show ?case by simp
next
  case (Cons t ts)
  have "filter (\<lambda>t'. tag_row ep t' \<notin> set (mg_deviceTags db) \<and> t' \<noteq> t) ts =
      filter (\<lambda>t'. tag_row ep t' \<notin> set (mg_deviceTags db)) ts"
    using Cons.prems by (auto intro: filter_cong)
  then show ?case using Cons by (auto simp: insert_tag_def Let_def conj_commute)
qed

lemma foldl_append_tag:
  "foldl (\<lambda>d tag. d\<lparr>mg_deviceTags := mg_deviceTags d @ [tag_row ep tag]\<rparr>) db ts =
   db\<lparr>mg_deviceTags := mg_deviceTags db @ map (tag_row ep) ts\<rparr>"
  by (induction ts arbitrary: db) simp_all

text \<open>A change of the tags of one device, on the table.\<close>

definition changed_rows :: "string \<Rightarrow> string list \<Rightarrow> string list \<Rightarrow> deviceTagRow list \<Rightarrow> deviceTagRow list" where
  "changed_rows ep adds removes rows =
    (let kept = filter (\<lambda>r. \<not> (dt_endpointId r = ep \<and> dt_tag r \<in> set removes)) rows
     in kept @ map (tag_row ep) (filter (\<lambda>t. tag_row ep t \<notin> set kept) adds))"

lemma applyDeviceTagChanges_eq:
  "applyDeviceTagChanges ep adds removes db =
    (let db' = db\<lparr>mg_deviceTags := changed_rows ep (unique_names adds) (unique_names removes) (mg_deviceTags db)\<rparr>
     in (listDeviceTags db' ep, db'))"
  by (simp add: applyDeviceTagChanges_def foldl_delete_tag foldl_insert_tag changed_rows_def Let_def)

lemma replaceDeviceTags_eq:
  "replaceDeviceTags ep tags db = (sort (unique_names tags),
     db\<lparr>mg_deviceTags := filter (\<lambda>r. dt_endpointId r \<noteq> ep) (mg_deviceTags db) @ map (tag_row ep) (unique_names tags)\<rparr>)"
  by (simp add: replaceDeviceTags_def foldl_append_tag Let_def)

lemma set_changed_rows:
  "set (changed_rows ep adds removes rows) =
   {r \<in> set rows. \<not> (dt_endpointId r = ep \<and> dt_tag r \<in> set removes)} \<union> tag_row ep ` set adds"
  by (auto simp: changed_rows_def Let_def)

lemma distinct_changed_rows:
  "distinct rows \<Longrightarrow> distinct adds \<Longrightarrow> distinct (changed_rows ep adds removes rows)"
  by (auto simp: changed_rows_def Let_def distinct_map inj_on_def)

lemma tag_row_iff: "r = tag_row ep t \<longleftrightarrow> dt_endpointId r = ep \<and> dt_tag r = t"
  by (cases r) auto

lemma mem_listDeviceTags: "t \<in> set (listDeviceTags db ep) \<longleftrightarrow> tag_row ep t \<in> set (mg_deviceTags db)"
proof -
  have "t \<in> set (listDeviceTags db ep) \<longleftrightarrow> (\<exists>r. r = tag_row ep t \<and> r \<in> set (mg_deviceTags db))"
    unfolding tag_row_iff by (auto simp: listDeviceTags_def)
  then show ?thesis by simp
qed

lemma sort_eq_Nil [simp]: "sort xs = [] \<longleftrightarrow> xs = []"
  by (metis set_empty set_sort)

lemma listDeviceTagsForEndpoints_agrees:
  "map_of (listDeviceTagsForEndpoints db eps) ep =
   (if ep \<in> set eps \<and> listDeviceTags db ep \<noteq> [] then Some (listDeviceTags db ep) else None)"
proof (cases "ep \<in> set eps")
  case True
  then have "filter (\<lambda>r. dt_endpointId r = ep \<and> dt_endpointId r \<in> set eps) (mg_deviceTags db) =
      filter (\<lambda>r. dt_endpointId r = ep) (mg_deviceTags db)"
    by (auto intro: filter_cong)
  then show ?thesis using True
    by (auto simp: listDeviceTagsForEndpoints_def listDeviceTags_def map_of_map map_of_foldl_push Let_def conj_commute)
next
  case False
  then show ?thesis
    by (auto simp: listDeviceTagsForEndpoints_def map_of_map map_of_foldl_push Let_def filter_empty_conv)
qed

end
