(* ===== verification/Api_Access.thy ===== *)
theory Api_Access
  imports Mgmt_Store License_Token
begin

text \<open>
  Who gets through to a handler: secrets of API keys (apps/management/src/lib/api-key-secret.ts),
  their verification and that of OAuth access tokens (api-key-auth.ts), the routes that create and
  revoke them (api/v1/api-keys.ts, auth-oauth.ts), the organization context of a session
  (middleware/session.ts) and the guards in front of the handlers (middleware/api-key-auth.ts,
  policy-auth.ts, authz.ts).

  Three things come from elsewhere and are arguments: the hash functions (\<open>crypto\<close>), the calls to
  the authentication library (\<open>authApi\<close>, in which \<^const>\<open>Inl\<close> is a call that throws), and the random
  bytes. The clock is an argument as well.
\<close>

section \<open>Secrets\<close>

definition API_KEY_PREFIX :: string where
  "API_KEY_PREFIX = ''tt_''"

definition PREFIX_SEGMENT_LEN :: nat where
  "PREFIX_SEGMENT_LEN = 8"

text \<open>The arguments are the six and the twenty-four random bytes; the result is the secret and the
  prefix that is stored in clear.\<close>

definition generateApiKeySecret :: "nat list \<Rightarrow> nat list \<Rightarrow> string \<times> string" where
  "generateApiKeySecret random6 random24 = (let segment = take PREFIX_SEGMENT_LEN (b64uEncode random6);
       body = b64uEncode random24
     in (API_KEY_PREFIX @ segment @ ''_'' @ body, segment))"

definition parseApiKeyPrefix :: "string \<Rightarrow> string option" where
  "parseApiKeyPrefix secret =
    (if \<not> startsWith secret API_KEY_PREFIX then None
     else let rest = drop (length API_KEY_PREFIX) secret in
       if CHR ''_'' \<notin> set rest \<or> hd rest = CHR ''_'' then None
       else Some (takeWhile (\<lambda>c. c \<noteq> CHR ''_'') rest))"

section \<open>Verification\<close>

record crypto =
  cr_sha256 :: "string \<Rightarrow> string"
  cr_argon2_hash :: "string \<Rightarrow> string"
  cr_argon2_verify :: "string \<Rightarrow> string \<Rightarrow> bool"

record verifiedApiKey =
  vk_id :: string
  vk_organizationId :: string
  vk_scopes :: "string list"
  vk_networkIds :: "string list option"

definition hasScope :: "string list \<Rightarrow> string \<Rightarrow> bool" where
  "hasScope scopes required \<longleftrightarrow> required \<in> set scopes"

definition canAccessNetwork :: "verifiedApiKey \<Rightarrow> string \<Rightarrow> bool" where
  "canAccessNetwork apiKey networkId = (case vk_networkIds apiKey of
     None \<Rightarrow> True | Some ids \<Rightarrow> networkId \<in> set ids)"

definition in_org :: "string option \<Rightarrow> string \<Rightarrow> bool" where
  "in_org organizationId orgId \<longleftrightarrow> (case nonempty organizationId of Some o' \<Rightarrow> orgId = o' | None \<Rightarrow> True)"

definition verifyOauthAccessToken :: "crypto \<Rightarrow> int \<Rightarrow> mgmtDb \<Rightarrow> string \<Rightarrow> string option \<Rightarrow> verifiedApiKey option" where
  "verifyOauthAccessToken cr now db secret organizationId =
    (if \<not> startsWith secret ''tt_oauth_'' then None
     else (case find (\<lambda>(t, c). ot_clientId t = oc_id c \<and> ot_tokenHash t = cr_sha256 cr secret \<and> now < ot_expiresAt t \<and>
                oc_revokedAt c = None \<and> in_org organizationId (ot_organizationId t))
              (List.product (mg_oauthTokens db) (mg_oauthClients db)) of
         None \<Rightarrow> None
       | Some (t, c) \<Rightarrow> Some \<lparr>vk_id = ot_id t, vk_organizationId = ot_organizationId t, vk_scopes = ot_scopes t,
           vk_networkIds = oc_networkIds c\<rparr>))"

definition verified_row :: "apiKeyRow \<Rightarrow> verifiedApiKey" where
  "verified_row row = \<lparr>vk_id = ak_id row, vk_organizationId = ak_organizationId row, vk_scopes = ak_scopes row,
     vk_networkIds = ak_networkIds row\<rparr>"

definition expired :: "int \<Rightarrow> apiKeyRow \<Rightarrow> bool" where
  "expired now row \<longleftrightarrow> (case ak_expiresAt row of Some t \<Rightarrow> t \<le> now | None \<Rightarrow> False)"

text \<open>The first row that has not expired and whose hash accepts the secret.\<close>

definition first_matching :: "crypto \<Rightarrow> int \<Rightarrow> string \<Rightarrow> apiKeyRow list \<Rightarrow> verifiedApiKey option" where
  "first_matching cr now secret rows = map_option verified_row
     (find (\<lambda>row. \<not> expired now row \<and> cr_argon2_verify cr (ak_hashedSecret row) secret) rows)"

definition candidates :: "mgmtDb \<Rightarrow> string option \<Rightarrow> string option \<Rightarrow> apiKeyRow list" where
  "candidates db organizationId prefix = filter (\<lambda>row. ak_revokedAt row = None \<and>
       in_org organizationId (ak_organizationId row) \<and>
       (case nonempty prefix of
          Some p \<Rightarrow> ak_secretPrefix row = Some p
        | None \<Rightarrow> ak_secretPrefix row = None \<or> ak_secretPrefix row = Some [])) (mg_apiKeys db)"

definition legacy_rows :: "mgmtDb \<Rightarrow> string \<Rightarrow> apiKeyRow list" where
  "legacy_rows db orgId = filter (\<lambda>row. ak_organizationId row = orgId \<and> ak_revokedAt row = None \<and>
     ak_secretPrefix row = None) (mg_apiKeys db)"

definition verifyApiKeySecret :: "crypto \<Rightarrow> int \<Rightarrow> mgmtDb \<Rightarrow> string \<Rightarrow> string option \<Rightarrow> verifiedApiKey option" where
  "verifyApiKeySecret cr now db secret organizationId =
    (case verifyOauthAccessToken cr now db secret organizationId of
       Some oauth \<Rightarrow> Some oauth
     | None \<Rightarrow> (let prefix = parseApiKeyPrefix secret in
         case first_matching cr now secret (candidates db organizationId prefix) of
           Some k \<Rightarrow> Some k
         | None \<Rightarrow> (case (nonempty prefix, nonempty organizationId) of
               (Some _, Some orgId) \<Rightarrow> first_matching cr now secret (legacy_rows db orgId)
             | _ \<Rightarrow> None)))"

section \<open>Sessions\<close>

type_synonym headers = "(string \<times> string) list"

record sessionResult =
  sr_userId :: string
  sr_userName :: string
  sr_email :: string
  sr_sessionId :: string
  sr_activeOrganizationId :: "string option"

record activeMember =
  am_organizationId :: string
  am_role :: string

record fullOrganization =
  fo_deletedAt :: "int option"
  fo_members :: "(string \<times> string) list option"

record authApi =
  api_getSession :: "headers \<Rightarrow> sessionResult option"
  api_getActiveMember :: "headers \<Rightarrow> unit + activeMember option"
  api_getFullOrganization :: "headers \<Rightarrow> string \<Rightarrow> unit + fullOrganization option"
  api_hasPermission :: "headers \<Rightarrow> string \<Rightarrow> (string \<times> string list) list \<Rightarrow> bool"
  api_userHasPermission :: "string \<Rightarrow> (string \<times> string list) list \<Rightarrow> bool"

record authContext =
  cx_userId :: string
  cx_userName :: string
  cx_email :: string
  cx_sessionId :: string
  cx_organizationId :: string
  cx_memberRole :: string

record request =
  rq_headers :: headers
  rq_pathname :: string
  rq_orgId :: "string option"

definition orgIdFromParams :: "request \<Rightarrow> string" where
  "orgIdFromParams rq = (case rq_orgId rq of Some orgId \<Rightarrow> orgId | None \<Rightarrow> [])"

text \<open>The first place where the path continues \<open>/organizations/\<close> with a nonempty segment.\<close>

fun orgIdFromPath :: "string \<Rightarrow> string" where
  "orgIdFromPath [] = []"
| "orgIdFromPath (c # s) =
    (let seg = takeWhile (\<lambda>x. x \<notin> {CHR ''/'', CHR ''?'', CHR ''#''}) (drop 14 s) in
     if startsWith (c # s) ''/organizations/'' \<and> seg \<noteq> [] then seg else orgIdFromPath s)"

definition first_nonempty :: "string option \<Rightarrow> string option \<Rightarrow> string option" where
  "first_nonempty a b = (case nonempty a of Some s \<Rightarrow> Some s | None \<Rightarrow> nonempty b)"

definition active_role :: "authApi \<Rightarrow> headers \<Rightarrow> sessionResult \<Rightarrow> string \<Rightarrow> string option" where
  "active_role api hs s organizationId =
    (if sr_activeOrganizationId s = Some organizationId then
       (case api_getActiveMember api hs of
          Inr (Some m) \<Rightarrow> if am_organizationId m = organizationId then nonempty (Some (am_role m)) else None
        | _ \<Rightarrow> None)
     else None)"

definition listed_role :: "authApi \<Rightarrow> headers \<Rightarrow> sessionResult \<Rightarrow> string \<Rightarrow> string option" where
  "listed_role api hs s organizationId = (case api_getFullOrganization api hs organizationId of
       Inr (Some org) \<Rightarrow>
         if fo_deletedAt org \<noteq> None then None
         else nonempty (Option.bind (fo_members org) (\<lambda>ms. map_option snd (find (\<lambda>(u, _). u = sr_userId s) ms)))
     | _ \<Rightarrow> None)"

definition resolveOrgContext :: "authApi \<Rightarrow> headers \<Rightarrow> string \<Rightarrow> authContext option" where
  "resolveOrgContext api hs orgIdParam = (case api_getSession api hs of
       None \<Rightarrow> None
     | Some s \<Rightarrow>
         (case first_nonempty (Some orgIdParam) (first_nonempty (map_of hs ''x-organization-id'') (sr_activeOrganizationId s)) of
            None \<Rightarrow> None
          | Some organizationId \<Rightarrow>
              (case (case active_role api hs s organizationId of
                       Some role \<Rightarrow> Some role
                     | None \<Rightarrow> listed_role api hs s organizationId) of
                 None \<Rightarrow> None
               | Some memberRole \<Rightarrow> Some \<lparr>cx_userId = sr_userId s, cx_userName = sr_userName s, cx_email = sr_email s,
                   cx_sessionId = sr_sessionId s, cx_organizationId = organizationId, cx_memberRole = memberRole\<rparr>)))"

definition session_context :: "authApi \<Rightarrow> request \<Rightarrow> authContext option" where
  "session_context api rq = resolveOrgContext api (rq_headers rq)
     (if orgIdFromParams rq \<noteq> [] then orgIdFromParams rq else orgIdFromPath (rq_pathname rq))"

definition requireAuth :: "authApi \<Rightarrow> request \<Rightarrow> httpError + authContext" where
  "requireAuth api rq = (case session_context api rq of None \<Rightarrow> Inl unauthorized | Some cx \<Rightarrow> Inr cx)"

definition requirePermission :: "authApi \<Rightarrow> (string \<times> string list) list \<Rightarrow> request \<Rightarrow> authContext option \<Rightarrow> httpError + authContext" where
  "requirePermission api permissions rq authContext = (case authContext of
       None \<Rightarrow> Inl unauthorized
     | Some cx \<Rightarrow> if api_hasPermission api (rq_headers rq) (cx_organizationId cx) permissions then Inr cx else Inl forbidden)"

definition requireCloudAccess :: "authApi \<Rightarrow> request \<Rightarrow> httpError + string" where
  "requireCloudAccess api rq = (case api_getSession api (rq_headers rq) of
       None \<Rightarrow> Inl unauthorized
     | Some s \<Rightarrow> if api_userHasPermission api (sr_userId s) [(''cloud'', [''access''])] then Inr (sr_userId s) else Inl forbidden)"

section \<open>API keys in requests\<close>

definition bearer :: "request \<Rightarrow> string option" where
  "bearer rq = (case map_of (rq_headers rq) ''authorization'' of
       Some h \<Rightarrow> if startsWith h ''Bearer '' then Some (trim (drop 7 h)) else None
     | None \<Rightarrow> None)"

definition apiKeyAuthPlugin :: "crypto \<Rightarrow> int \<Rightarrow> mgmtDb \<Rightarrow> request \<Rightarrow> verifiedApiKey option" where
  "apiKeyAuthPlugin cr now db rq = (case nonempty (bearer rq) of
       None \<Rightarrow> None
     | Some secret \<Rightarrow> verifyApiKeySecret cr now db secret (rq_orgId rq))"

definition requireApiKeyScope :: "string \<Rightarrow> verifiedApiKey option \<Rightarrow> httpError + verifiedApiKey" where
  "requireApiKeyScope scope apiKeyAuth = (case apiKeyAuth of
       None \<Rightarrow> Inl unauthorized
     | Some k \<Rightarrow> if hasScope (vk_scopes k) scope then Inr k else Inl forbidden)"

section \<open>Access to policies\<close>

datatype policyAuthMode = PolicyRead | PolicyWrite | PolicyApply

fun policy_session_permissions :: "policyAuthMode \<Rightarrow> string list" where
  "policy_session_permissions PolicyRead = [''read'']"
| "policy_session_permissions PolicyWrite = [''create'', ''update'', ''delete'']"
| "policy_session_permissions PolicyApply = [''update'']"

fun policy_scope :: "policyAuthMode \<Rightarrow> string" where
  "policy_scope PolicyRead = ''policy:read''"
| "policy_scope PolicyWrite = ''policy:write''"
| "policy_scope PolicyApply = ''policy:apply''"

datatype caller = ByKey verifiedApiKey | BySession authContext

definition requirePolicyAccess :: "authApi \<Rightarrow> crypto \<Rightarrow> int \<Rightarrow> mgmtDb \<Rightarrow> policyAuthMode \<Rightarrow> request \<Rightarrow> httpError + caller" where
  "requirePolicyAccess api cr now db mode rq = (let orgId = orgIdFromParams rq in
     case apiKeyAuthPlugin cr now db rq of
       Some k \<Rightarrow>
         if orgId = [] \<or> vk_organizationId k \<noteq> orgId then Inl forbidden
         else if \<not> hasScope (vk_scopes k) (policy_scope mode) then Inl forbidden
         else Inr (ByKey k)
     | None \<Rightarrow> (case session_context api rq of
           None \<Rightarrow> Inl unauthorized
         | Some cx \<Rightarrow>
             if orgId = [] \<or> cx_organizationId cx \<noteq> orgId then Inl forbidden
             else if \<not> api_hasPermission api (rq_headers rq) (cx_organizationId cx)
                 [(''policy'', policy_session_permissions mode)] then Inl forbidden
             else Inr (BySession cx)))"

text \<open>The organization, the user and the key of a caller.\<close>

fun getPolicyActor :: "caller \<Rightarrow> string \<times> string option \<times> string option" where
  "getPolicyActor (ByKey k) = (vk_organizationId k, None, Some (vk_id k))"
| "getPolicyActor (BySession cx) = (cx_organizationId cx, Some (cx_userId cx), None)"

section \<open>Routes for API keys\<close>

record createApiKeyBody =
  cb_name :: string
  cb_scopes :: "string list"
  cb_networkIds :: "string list option"
  cb_expiresAt :: "int option"

definition API_KEY_SCOPE_VALUES :: "string list" where
  "API_KEY_SCOPE_VALUES = [''sdk:enroll'', ''sdk:manage'', ''policy:read'', ''policy:write'', ''policy:apply'',
     ''tag:read'', ''tag:write'', ''tag:assign'']"

definition body_ok :: "createApiKeyBody \<Rightarrow> bool" where
  "body_ok b \<longleftrightarrow> 1 \<le> length (cb_name b) \<and> length (cb_name b) \<le> 128 \<and> cb_scopes b \<noteq> [] \<and>
    set (cb_scopes b) \<subseteq> set API_KEY_SCOPE_VALUES \<and>
    (case cb_networkIds b of None \<Rightarrow> True | Some ids \<Rightarrow> ids \<noteq> [] \<and> distinct ids)"

definition resolveNetworkIds :: "database \<Rightarrow> string \<Rightarrow> string list option \<Rightarrow> string + string list option" where
  "resolveNetworkIds db organizationId networkIds = (case networkIds of
       None \<Rightarrow> Inr None
     | Some ids \<Rightarrow>
         if length (filter (\<lambda>n. nw_organizationId n = organizationId \<and> nw_id n \<in> set ids) (db_networks db)) \<noteq> length ids
         then Inl ''One or more networks were not found in this organization'' else Inr (Some ids))"

text \<open>The body is parsed already; \<open>newId\<close> is the identifier that the database gives to the row.\<close>

definition createApiKey ::
  "crypto \<Rightarrow> string \<Rightarrow> nat list \<Rightarrow> nat list \<Rightarrow> authContext \<Rightarrow> createApiKeyBody \<Rightarrow> mgmtDb \<Rightarrow> httpError + (string \<times> apiKeyRow) \<times> mgmtDb" where
  "createApiKey cr newId random6 random24 auth b db =
    (case requirePlanFeature (mg_tables db) (cx_organizationId auth) ApiAccess of
       Inl e \<Rightarrow> Inl (Thrown (planError_message e))
     | Inr _ \<Rightarrow>
         if \<not> body_ok b then Inl (Thrown ''invalid body'')
         else (let (secret, secretPrefix) = generateApiKeySecret random6 random24 in
           case resolveNetworkIds (mg_tables db) (cx_organizationId auth) (cb_networkIds b) of
             Inl msg \<Rightarrow> Inl (badRequest msg)
           | Inr networkIds \<Rightarrow>
               (let row = \<lparr>ak_id = newId, ak_organizationId = cx_organizationId auth, ak_name = cb_name b,
                    ak_secretPrefix = Some secretPrefix, ak_hashedSecret = cr_argon2_hash cr secret,
                    ak_scopes = cb_scopes b, ak_networkIds = networkIds, ak_expiresAt = cb_expiresAt b, ak_revokedAt = None\<rparr>
                in Inr ((secret, row),
                     writeAudit \<lparr>in_organizationId = cx_organizationId auth, in_actor = cx_userId auth,
                         in_action = ''api_key.created'', in_target = Some newId,
                         in_metadata = [(''name'', JStr (cb_name b)), (''scopes'', strs (cb_scopes b)),
                           (''networkIds'', case networkIds of None \<Rightarrow> JNull | Some ids \<Rightarrow> strs ids)], in_traceId = None\<rparr>
                       (db\<lparr>mg_apiKeys := mg_apiKeys db @ [row]\<rparr>)))))"

definition to_revoke :: "authContext \<Rightarrow> string \<Rightarrow> apiKeyRow \<Rightarrow> bool" where
  "to_revoke auth keyId row \<longleftrightarrow> ak_id row = keyId \<and> ak_organizationId row = cx_organizationId auth \<and> ak_revokedAt row = None"

definition revokeApiKey :: "int \<Rightarrow> authContext \<Rightarrow> string \<Rightarrow> mgmtDb \<Rightarrow> httpError + apiKeyRow \<times> mgmtDb" where
  "revokeApiKey now auth keyId db = (case find (to_revoke auth keyId) (mg_apiKeys db) of
       None \<Rightarrow> Inl (Thrown ''API key not found'')
     | Some row \<Rightarrow> Inr (row\<lparr>ak_revokedAt := Some now\<rparr>,
         writeAudit \<lparr>in_organizationId = cx_organizationId auth, in_actor = cx_userId auth, in_action = ''api_key.revoked'',
             in_target = Some (ak_id row), in_metadata = [], in_traceId = None\<rparr>
           (db\<lparr>mg_apiKeys := map (\<lambda>r. if to_revoke auth keyId r then r\<lparr>ak_revokedAt := Some now\<rparr> else r) (mg_apiKeys db)\<rparr>)))"

section \<open>Client credentials\<close>

definition TOKEN_TTL_SECS :: int where
  "TOKEN_TTL_SECS = 3600"

record tokenRequest =
  tr_client_id :: string
  tr_client_secret :: string
  tr_scope :: "string option"

fun split_ws :: "string \<Rightarrow> string \<Rightarrow> string list" where
  "split_ws acc [] = [rev acc]"
| "split_ws acc (c # s) = (if js_ws c then rev acc # split_ws [] s else split_ws (c # acc) s)"

text \<open>Splitting at runs of white space and dropping the empty parts is splitting at every white space
  character and dropping the empty parts.\<close>

definition issueToken ::
  "crypto \<Rightarrow> int \<Rightarrow> string \<Rightarrow> nat list \<Rightarrow> tokenRequest \<Rightarrow> mgmtDb \<Rightarrow> httpError + (string \<times> int \<times> string) \<times> mgmtDb" where
  "issueToken cr now newId random32 rq db =
    (case find (\<lambda>c. oc_clientId c = tr_client_id rq \<and> oc_revokedAt c = None) (mg_oauthClients db) of
       None \<Rightarrow> Inl (HttpError 401 ''invalid_client'')
     | Some client \<Rightarrow>
         if \<not> cr_argon2_verify cr (oc_hashedSecret client) (tr_client_secret rq) then Inl (HttpError 401 ''invalid_client'')
         else (let scopes = (case nonempty (tr_scope rq) of
                    None \<Rightarrow> oc_scopes client
                  | Some sc \<Rightarrow> filter (\<lambda>s. s \<in> set (oc_scopes client)) (filter (\<lambda>s. s \<noteq> []) (split_ws [] sc)));
                accessToken = ''tt_oauth_'' @ b64uEncode random32;
                row = \<lparr>ot_id = newId, ot_clientId = oc_id client, ot_organizationId = oc_organizationId client,
                  ot_tokenHash = cr_sha256 cr accessToken, ot_scopes = scopes, ot_expiresAt = now + TOKEN_TTL_SECS * 1000\<rparr>
              in Inr ((accessToken, TOKEN_TTL_SECS, join '' '' scopes),
                   db\<lparr>mg_oauthTokens := mg_oauthTokens db @ [row]\<rparr>)))"

section \<open>Secrets read back\<close>

lemma takeWhile_stop: "\<not> P y \<Longrightarrow> takeWhile P (xs @ y # ys) = takeWhile P xs"
  by (induction xs) auto

lemma parse_prefix_rest:
  "parseApiKeyPrefix (''tt_'' @ r) =
    (if CHR ''_'' \<notin> set r \<or> hd r = CHR ''_'' then None else Some (takeWhile (\<lambda>c. c \<noteq> CHR ''_'') r))"
  unfolding parseApiKeyPrefix_def API_KEY_PREFIX_def Let_def by simp

lemma parse_generated_prefix:
  "parseApiKeyPrefix (''tt_'' @ segment @ ''_'' @ body) =
    (if segment = [] \<or> hd segment = CHR ''_'' then None else Some (takeWhile (\<lambda>c. c \<noteq> CHR ''_'') segment))"
  unfolding parse_prefix_rest by (cases segment) (simp_all add: takeWhile_stop)

lemma takeWhile_neq: "CHR ''_'' \<in> set segment \<Longrightarrow> takeWhile (\<lambda>c. c \<noteq> CHR ''_'') segment \<noteq> segment"
  using set_takeWhileD [of "CHR ''_''" "\<lambda>c. c \<noteq> CHR ''_''" segment] by auto

text \<open>A verified key is backed by a row that is live: an API key that is neither revoked nor expired
  and whose hash accepts the secret, or an access token that has not expired of a client that is not
  revoked.\<close>

definition key_row_backs :: "crypto \<Rightarrow> int \<Rightarrow> mgmtDb \<Rightarrow> string \<Rightarrow> verifiedApiKey \<Rightarrow> bool" where
  "key_row_backs cr now db secret k \<longleftrightarrow> (\<exists>row. row \<in> set (mg_apiKeys db) \<and> k = verified_row row \<and>
     ak_revokedAt row = None \<and> \<not> expired now row \<and> cr_argon2_verify cr (ak_hashedSecret row) secret)"

definition token_row_backs :: "crypto \<Rightarrow> int \<Rightarrow> mgmtDb \<Rightarrow> string \<Rightarrow> verifiedApiKey \<Rightarrow> bool" where
  "token_row_backs cr now db secret k \<longleftrightarrow> (\<exists>t c. t \<in> set (mg_oauthTokens db) \<and> c \<in> set (mg_oauthClients db) \<and>
     ot_clientId t = oc_id c \<and> ot_tokenHash t = cr_sha256 cr secret \<and> now < ot_expiresAt t \<and> oc_revokedAt c = None \<and>
     k = \<lparr>vk_id = ot_id t, vk_organizationId = ot_organizationId t, vk_scopes = ot_scopes t, vk_networkIds = oc_networkIds c\<rparr>)"

lemma first_matching_backed:
  assumes "first_matching cr now secret rows = Some k" "\<And>row. row \<in> set rows \<Longrightarrow> row \<in> set (mg_apiKeys db) \<and> ak_revokedAt row = None"
  shows "key_row_backs cr now db secret k"
proof -
  obtain row where "find (\<lambda>row. \<not> expired now row \<and> cr_argon2_verify cr (ak_hashedSecret row) secret) rows = Some row"
    "k = verified_row row" using assms(1) by (auto simp: first_matching_def)
  note found = find_SomeD [OF this(1)] this(2)
  show ?thesis unfolding key_row_backs_def using found assms(2) [of row] by (intro exI [of _ row]) simp
qed

lemma oauth_backed:
  assumes "verifyOauthAccessToken cr now db secret organizationId = Some k"
  shows "token_row_backs cr now db secret k \<and> in_org organizationId (vk_organizationId k)"
  using assms by (auto simp: verifyOauthAccessToken_def token_row_backs_def split: if_splits option.splits dest!: find_SomeD) blast

lemma verify_backed:
  assumes "verifyApiKeySecret cr now db secret organizationId = Some k"
  shows "key_row_backs cr now db secret k \<or> token_row_backs cr now db secret k"
proof -
  have c: "row \<in> set (candidates db organizationId prefix) \<Longrightarrow> row \<in> set (mg_apiKeys db) \<and> ak_revokedAt row = None" for row prefix
    by (auto simp: candidates_def)
  have l: "row \<in> set (legacy_rows db orgId) \<Longrightarrow> row \<in> set (mg_apiKeys db) \<and> ak_revokedAt row = None" for row orgId
    by (auto simp: legacy_rows_def)
  show ?thesis
    using assms oauth_backed first_matching_backed [OF _ c] first_matching_backed [OF _ l]
    by (auto simp: verifyApiKeySecret_def Let_def split: option.splits)
qed

lemma created_key_effect:
  assumes "createApiKey cr newId random6 random24 auth b db = Inr ((secret, row), db')"
  shows "secret = ''tt_'' @ take 8 (b64uEncode random6) @ ''_'' @ b64uEncode random24"
    "mg_apiKeys db' = mg_apiKeys db @ [row]" "mg_oauthTokens db' = mg_oauthTokens db"
    "ak_secretPrefix row = Some (take 8 (b64uEncode random6))" "ak_hashedSecret row = cr_argon2_hash cr secret"
    "ak_organizationId row = cx_organizationId auth" "ak_revokedAt row = None" "ak_scopes row = cb_scopes b"
  using assms unfolding createApiKey_def generateApiKeySecret_def API_KEY_PREFIX_def PREFIX_SEGMENT_LEN_def Let_def
  by (auto split: sum.splits if_splits)

lemma find_none_but_last:
  "(\<And>x. x \<in> set xs \<Longrightarrow> \<not> P x) \<Longrightarrow> find P (xs @ [y]) = (if P y then Some y else None)"
  by (induction xs) auto

lemma first_matching_new:
  assumes "\<And>k. k \<in> set ks \<Longrightarrow> \<not> cr_argon2_verify cr (ak_hashedSecret k) secret"
    and "cr_argon2_verify cr (ak_hashedSecret row) secret" "\<not> expired now row"
  shows "first_matching cr now secret (filter Q (ks @ [row])) = (if Q row then Some (verified_row row) else None)"
proof -
  let ?P = "\<lambda>r. \<not> expired now r \<and> cr_argon2_verify cr (ak_hashedSecret r) secret"
  have none: "\<not> ?P k" if "k \<in> set (filter Q ks)" for k using assms(1) that by simp
  then have "find ?P (filter Q ks) = None" unfolding find_None_iff by blast
  then show ?thesis
    using find_none_but_last [of "filter Q ks" ?P row, OF none] assms(2,3) by (simp add: first_matching_def)
qed

lemma no_oauth:
  "(\<And>t. t \<in> set (mg_oauthTokens db) \<Longrightarrow> ot_tokenHash t \<noteq> cr_sha256 cr secret) \<Longrightarrow>
   verifyOauthAccessToken cr now db secret organizationId = None"
  using oauth_backed [of cr now db secret organizationId] unfolding token_row_backs_def
  by (cases "verifyOauthAccessToken cr now db secret organizationId") blast+

lemma segment_complete:
  assumes "length bs = 6" "\<forall>b \<in> set bs. b < 256"
  shows "length (b64uEncode bs) = 8"
proof -
  obtain x1 x2 x3 x4 x5 x6 where "bs = [x1, x2, x3, x4, x5, x6]"
    using assms(1) by (auto simp: eval_nat_numeral length_Suc_conv)
  then have "length (enc64 bs) = 8" by simp
  then show ?thesis by (simp add: b64uEncode_chars [OF assms(2)])
qed

definition prefix_selects :: "string option \<Rightarrow> string option \<Rightarrow> bool" where
  "prefix_selects prefix stored \<longleftrightarrow>
    (case nonempty prefix of Some p \<Rightarrow> stored = Some p | None \<Rightarrow> stored = None \<or> stored = Some [])"

lemma candidates_filter:
  "candidates db organizationId prefix = filter (\<lambda>row. ak_revokedAt row = None \<and>
     in_org organizationId (ak_organizationId row) \<and> prefix_selects prefix (ak_secretPrefix row)) (mg_apiKeys db)"
  by (simp add: candidates_def prefix_selects_def)

lemma generated_prefix_selects:
  assumes "segment \<noteq> []"
  shows "prefix_selects (parseApiKeyPrefix (''tt_'' @ segment @ ''_'' @ body)) (Some segment) \<longleftrightarrow> CHR ''_'' \<notin> set segment"
proof -
  define q where "q = takeWhile (\<lambda>c. c \<noteq> CHR ''_'') segment"
  have q: "segment = q \<longleftrightarrow> CHR ''_'' \<notin> set segment"
  proof
    assume "CHR ''_'' \<notin> set segment"
    then have "\<forall>c \<in> set segment. c \<noteq> CHR ''_''" by metis
    then have "q = segment" unfolding q_def takeWhile_eq_all_conv .
    then show "segment = q" by (rule sym)
  qed (use takeWhile_neq q_def in metis)
  have e: "q = [] \<longleftrightarrow> hd segment = CHR ''_''" unfolding q_def using assms by (cases segment) simp_all
  show ?thesis
    unfolding prefix_selects_def parse_generated_prefix q_def [symmetric] nonempty_def
    using assms q e hd_in_set [OF assms] by (cases "hd segment = CHR ''_''") auto
qed

section \<open>Properties\<close>

text \<open>C39: whether a key that was just issued works. The stored prefix is the first eight characters of
  the secret's random part, which are base64url and may contain an underscore, but the prefix is read
  back from a secret up to the first underscore. So as long as the key has not expired, and no other key
  or token has the same hash, the secret is verified as the key exactly when the random prefix contains
  no underscore; with one, the key can never be used.\<close>

theorem created_key_verifies_iff:
  assumes "createApiKey cr newId random6 random24 auth b db = Inr ((secret, row), db')"
    and "length random6 = 6" "\<forall>byte \<in> set random6. byte < 256" "cx_organizationId auth \<noteq> []"
    and "cr_argon2_verify cr (cr_argon2_hash cr secret) secret" "\<not> expired now row"
    and "\<forall>k \<in> set (mg_apiKeys db). \<not> cr_argon2_verify cr (ak_hashedSecret k) secret"
    and "\<forall>t \<in> set (mg_oauthTokens db). ot_tokenHash t \<noteq> cr_sha256 cr secret"
  shows "verifyApiKeySecret cr now db' secret (Some (cx_organizationId auth)) =
    (if CHR ''_'' \<in> set (b64uEncode random6) then None else Some (verified_row row))"
proof -
  note eff = created_key_effect [OF assms(1)]
  have seg: "take 8 (b64uEncode random6) = b64uEncode random6" "b64uEncode random6 \<noteq> []"
    using segment_complete [OF assms(2,3)] by auto
  have none: "\<not> cr_argon2_verify cr (ak_hashedSecret k) secret" if "k \<in> set (mg_apiKeys db)" for k
    using assms(7) that by blast
  have new: "first_matching cr now secret (filter Q (mg_apiKeys db')) = (if Q row then Some (verified_row row) else None)" for Q
    using first_matching_new [OF none _ assms(6)] assms(5) eff(2,5) by simp
  have sel: "prefix_selects (parseApiKeyPrefix secret) (ak_secretPrefix row) \<longleftrightarrow> CHR ''_'' \<notin> set (b64uEncode random6)"
    using generated_prefix_selects [OF seg(2)] eff(1,4) seg(1) by simp
  have org: "in_org (Some (cx_organizationId auth)) (ak_organizationId row)"
    using eff(6) assms(4) by (simp add: in_org_def nonempty_def)
  have cand: "first_matching cr now secret (candidates db' (Some (cx_organizationId auth)) (parseApiKeyPrefix secret)) =
      (if CHR ''_'' \<in> set (b64uEncode random6) then None else Some (verified_row row))"
    unfolding candidates_filter new using sel org eff(7) by simp
  have legacy: "first_matching cr now secret (legacy_rows db' orgId) = None" for orgId
    unfolding legacy_rows_def new using eff(4) by simp
  have "verifyOauthAccessToken cr now db' secret (Some (cx_organizationId auth)) = None"
    using assms(8) eff(3) by (intro no_oauth) simp
  then show ?thesis
    unfolding verifyApiKeySecret_def Let_def cand legacy by (auto split: option.split)
qed

definition ex_crypto :: crypto where
  "ex_crypto = \<lparr>cr_sha256 = (\<lambda>s. CHR ''s'' # s), cr_argon2_hash = (\<lambda>s. CHR ''a'' # s),
     cr_argon2_verify = (\<lambda>h s. h = CHR ''a'' # s)\<rparr>"

definition ex_auth_cx :: authContext where
  "ex_auth_cx = \<lparr>cx_userId = ''u1'', cx_userName = ''Ann'', cx_email = ''ann@x.io'', cx_sessionId = ''s1'',
     cx_organizationId = ''o1'', cx_memberRole = ''owner''\<rparr>"

definition ex_store :: mgmtDb where
  "ex_store = \<lparr>mg_tables = (ex_db None)\<lparr>db_cloudBilling := False,
       db_devices := [\<lparr>dv_organizationId = ''o1'', dv_endpointId = ''e1''\<rparr>]\<rparr>,
     mg_snapshotVersion = [(''o1'', 1)], mg_networkVersion = [], mg_memberships = [],
     mg_tagDefinitions = [], mg_deviceTags = [], mg_apiKeys = [], mg_oauthClients = [], mg_oauthTokens = [],
     mg_enrollmentTokens = [], mg_auditLog = [], mg_notified = []\<rparr>"

definition ex_body :: createApiKeyBody where
  "ex_body = \<lparr>cb_name = ''ci'', cb_scopes = [''policy:read''], cb_networkIds = None, cb_expiresAt = None\<rparr>"

theorem created_key_verifies_iff_witness:
  "\<exists>secret row db'. createApiKey ex_crypto ''k1'' [255, 255, 255, 0, 0, 0] [0] ex_auth_cx ex_body ex_store = Inr ((secret, row), db') \<and>
     verifyApiKeySecret ex_crypto 0 db' secret (Some ''o1'') = None"
proof -
  obtain secret row db' where c:
    "createApiKey ex_crypto ''k1'' [255, 255, 255, 0, 0, 0] [0] ex_auth_cx ex_body ex_store = Inr ((secret, row), db')"
    "ak_expiresAt row = None"
    by (simp add: createApiKey_def ex_store_def ex_body_def ex_auth_cx_def requirePlanFeature_def body_ok_def
        API_KEY_SCOPE_VALUES_def resolveNetworkIds_def generateApiKeySecret_def Let_def)
  have "CHR ''_'' \<in> set (b64uEncode [255, 255, 255, 0, 0, 0])" by code_simp
  then show ?thesis
    using created_key_verifies_iff [OF c(1), of 0] c
    by (auto simp: ex_crypto_def ex_auth_cx_def ex_store_def expired_def)
qed

text \<open>A session is of a member when the library vouches for the membership: as the active member, or in
  the list of the members of an organization that is not deleted.\<close>

definition session_vouched :: "authApi \<Rightarrow> headers \<Rightarrow> authContext \<Rightarrow> bool" where
  "session_vouched api hs cx \<longleftrightarrow> (\<exists>s. api_getSession api hs = Some s \<and> sr_userId s = cx_userId cx \<and>
    ((\<exists>m. api_getActiveMember api hs = Inr (Some m) \<and> am_organizationId m = cx_organizationId cx \<and> am_role m = cx_memberRole cx) \<or>
     (\<exists>org ms. api_getFullOrganization api hs (cx_organizationId cx) = Inr (Some org) \<and> fo_deletedAt org = None \<and>
        fo_members org = Some ms \<and> (cx_userId cx, cx_memberRole cx) \<in> set ms)))"

lemma nonempty_SomeD: "nonempty x = Some s \<Longrightarrow> x = Some s \<and> s \<noteq> []"
  by (auto simp: nonempty_def split: option.splits if_splits)

lemma active_role_SomeD:
  "active_role api hs s organizationId = Some role \<Longrightarrow>
   \<exists>m. api_getActiveMember api hs = Inr (Some m) \<and> am_organizationId m = organizationId \<and> am_role m = role"
  by (auto simp: active_role_def split: if_splits sum.splits option.splits dest!: nonempty_SomeD)

lemma listed_role_SomeD:
  assumes "listed_role api hs s organizationId = Some role"
  shows "\<exists>org ms. api_getFullOrganization api hs organizationId = Inr (Some org) \<and> fo_deletedAt org = None \<and>
     fo_members org = Some ms \<and> (sr_userId s, role) \<in> set ms"
proof -
  obtain org where org: "api_getFullOrganization api hs organizationId = Inr (Some org)" "fo_deletedAt org = None"
    "nonempty (Option.bind (fo_members org) (\<lambda>ms. map_option snd (find (\<lambda>(u, _). u = sr_userId s) ms))) = Some role"
    using assms unfolding listed_role_def by (auto split: sum.splits option.splits if_splits)
  then obtain ms u where ms: "fo_members org = Some ms" "find (\<lambda>(u, _). u = sr_userId s) ms = Some (u, role)"
    by (auto simp: bind_eq_Some_conv dest!: nonempty_SomeD)
  then show ?thesis using org find_SomeD [OF ms(2)] by auto
qed

lemma resolveOrgContext_vouched:
  assumes "resolveOrgContext api hs orgIdParam = Some cx"
  shows "session_vouched api hs cx"
proof -
  obtain s where s: "api_getSession api hs = Some s" "cx_userId cx = sr_userId s"
    "active_role api hs s (cx_organizationId cx) = Some (cx_memberRole cx) \<or>
     listed_role api hs s (cx_organizationId cx) = Some (cx_memberRole cx)"
    using assms unfolding resolveOrgContext_def by (auto split: option.splits)
  from s(3) show ?thesis
  proof
    assume "active_role api hs s (cx_organizationId cx) = Some (cx_memberRole cx)"
    then show ?thesis using s active_role_SomeD unfolding session_vouched_def by metis
  next
    assume "listed_role api hs s (cx_organizationId cx) = Some (cx_memberRole cx)"
    then show ?thesis using s listed_role_SomeD unfolding session_vouched_def by metis
  qed
qed

text \<open>What justifies a caller of an organization: a live key or token of the organization with the
  required scope, or a session of a member to whom the library grants the permissions.\<close>

fun caller_justified :: "authApi \<Rightarrow> crypto \<Rightarrow> int \<Rightarrow> mgmtDb \<Rightarrow> request \<Rightarrow> string \<Rightarrow> string \<Rightarrow> (string \<times> string list) list \<Rightarrow> caller \<Rightarrow> bool" where
  "caller_justified api cr now db rq orgId scope permissions (ByKey k) \<longleftrightarrow> vk_organizationId k = orgId \<and> scope \<in> set (vk_scopes k) \<and>
    (\<exists>secret. bearer rq = Some secret \<and> (key_row_backs cr now db secret k \<or> token_row_backs cr now db secret k))"
| "caller_justified api cr now db rq orgId scope permissions (BySession cx) \<longleftrightarrow> cx_organizationId cx = orgId \<and>
    session_vouched api (rq_headers rq) cx \<and> api_hasPermission api (rq_headers rq) orgId permissions"

lemma apiKeyAuthPlugin_backed:
  "apiKeyAuthPlugin cr now db rq = Some k \<Longrightarrow>
   \<exists>secret. bearer rq = Some secret \<and> (key_row_backs cr now db secret k \<or> token_row_backs cr now db secret k)"
  by (auto simp: apiKeyAuthPlugin_def split: option.splits dest!: nonempty_SomeD verify_backed)

lemma orgId_given: "orgIdFromParams rq \<noteq> [] \<Longrightarrow> rq_orgId rq = Some (orgIdFromParams rq)"
  by (auto simp: orgIdFromParams_def split: option.splits)

text \<open>C40: nobody reaches a policy route of an organization without a right to it. A caller who passes
  the guard addresses the organization of the path, and either presents the secret of a key or access
  token of that very organization that is live at the time and carries the scope of the route, or has
  the session of a member of it to whom the route's permissions are granted there.\<close>

theorem policy_access_justified:
  assumes "requirePolicyAccess api cr now db mode rq = Inr who"
  shows "rq_orgId rq = Some (fst (getPolicyActor who)) \<and> fst (getPolicyActor who) \<noteq> [] \<and>
    caller_justified api cr now db rq (fst (getPolicyActor who)) (policy_scope mode)
      [(''policy'', policy_session_permissions mode)] who"
proof (cases "apiKeyAuthPlugin cr now db rq")
  case (Some k)
  then have "who = ByKey k" "orgIdFromParams rq \<noteq> []" "vk_organizationId k = orgIdFromParams rq" "hasScope (vk_scopes k) (policy_scope mode)"
    using assms unfolding requirePolicyAccess_def Let_def by (simp_all split: if_splits)
  then show ?thesis
    using apiKeyAuthPlugin_backed [OF Some] orgId_given by (simp add: hasScope_def)
next
  case None
  then obtain cx where cx: "session_context api rq = Some cx"
    using assms unfolding requirePolicyAccess_def Let_def by (cases "session_context api rq") simp_all
  then have pass: "who = BySession cx" "orgIdFromParams rq \<noteq> []" "cx_organizationId cx = orgIdFromParams rq"
    "api_hasPermission api (rq_headers rq) (cx_organizationId cx) [(''policy'', policy_session_permissions mode)]"
    using assms None unfolding requirePolicyAccess_def Let_def by (simp_all split: if_splits)
  have "session_vouched api (rq_headers rq) cx"
    using resolveOrgContext_vouched cx unfolding session_context_def by blast
  then show ?thesis using pass orgId_given by simp
qed

definition ex_api_key :: apiKeyRow where
  "ex_api_key = \<lparr>ak_id = ''k1'', ak_organizationId = ''o1'', ak_name = ''ci'', ak_secretPrefix = Some ''p'',
     ak_hashedSecret = ''att_p_x'', ak_scopes = [''policy:read''], ak_networkIds = None, ak_expiresAt = Some 5, ak_revokedAt = None\<rparr>"

definition ex_api :: authApi where
  "ex_api = \<lparr>api_getSession = (\<lambda>_. None), api_getActiveMember = (\<lambda>_. Inr None), api_getFullOrganization = (\<lambda>_ _. Inr None),
     api_hasPermission = (\<lambda>_ _ _. False), api_userHasPermission = (\<lambda>_ _. False)\<rparr>"

definition ex_request :: request where
  "ex_request = \<lparr>rq_headers = [(''authorization'', ''Bearer tt_p_x'')], rq_pathname = ''/organizations/o1/policy'', rq_orgId = Some ''o1''\<rparr>"

lemma ex_key_verifies: "apiKeyAuthPlugin ex_crypto 0 (ex_store\<lparr>mg_apiKeys := [ex_api_key]\<rparr>) ex_request = Some (verified_row ex_api_key)"
proof -
  have b: "bearer ex_request = Some ''tt_p_x''" by code_simp
  have p: "parseApiKeyPrefix ''tt_p_x'' = Some ''p''" by code_simp
  show ?thesis
    unfolding apiKeyAuthPlugin_def verifyApiKeySecret_def b p Let_def nonempty_def
    by (simp add: verifyOauthAccessToken_def first_matching_def candidates_def in_org_def nonempty_def expired_def
        p ex_api_key_def ex_request_def ex_store_def ex_crypto_def)
qed

theorem policy_access_justified_witness:
  "requirePolicyAccess ex_api ex_crypto 0 (ex_store\<lparr>mg_apiKeys := [ex_api_key]\<rparr>) PolicyRead ex_request = Inr (ByKey (verified_row ex_api_key)) \<and>
   caller_justified ex_api ex_crypto 0 (ex_store\<lparr>mg_apiKeys := [ex_api_key]\<rparr>) ex_request ''o1'' ''policy:read'' [(''policy'', [''read''])]
     (ByKey (verified_row ex_api_key))"
proof -
  have pass: "requirePolicyAccess ex_api ex_crypto 0 (ex_store\<lparr>mg_apiKeys := [ex_api_key]\<rparr>) PolicyRead ex_request =
      Inr (ByKey (verified_row ex_api_key))"
    unfolding requirePolicyAccess_def ex_key_verifies Let_def
    by (simp add: orgIdFromParams_def ex_request_def verified_row_def ex_api_key_def hasScope_def)
  have "vk_organizationId (verified_row ex_api_key) = ''o1''" by (simp add: verified_row_def ex_api_key_def)
  then show ?thesis using pass policy_access_justified [OF pass] by simp
qed

end
