(* ===== verification/Tag_Routes.thy ===== *)
theory Tag_Routes
  imports Tag_Ownership Api_Access
begin

text \<open>
  The routes that change tags: their guard (apps/management/src/api/v1/middleware/tag-auth.ts), the tags
  of devices (devices.ts), tag definitions (policy-entities.ts), and enrollment tokens, which carry tags
  for the devices that enroll with them (enrollment-tokens.ts). A handler is a function from the store to
  an error or to its answer and the new store; request bodies are already decoded to strings and
  lists, and the checks of their schemas are part of the handler. The random token, its
  hash and the identifiers that the database generates are arguments.
\<close>

section \<open>The guard\<close>

datatype tagAuthMode = TagRead | TagWrite | TagAssign

fun tag_scope :: "tagAuthMode \<Rightarrow> string" where
  "tag_scope TagRead = ''tag:read''"
| "tag_scope TagWrite = ''tag:write''"
| "tag_scope TagAssign = ''tag:assign''"

fun tag_session_permissions :: "tagAuthMode \<Rightarrow> string list" where
  "tag_session_permissions TagRead = [''read'']"
| "tag_session_permissions TagWrite = [''create'', ''update'', ''delete'']"
| "tag_session_permissions TagAssign = [''assign'', ''update'', ''create'']"

definition tag_key_ok :: "tagAuthMode \<Rightarrow> string list \<Rightarrow> bool" where
  "tag_key_ok mode scopes \<longleftrightarrow> hasScope scopes (tag_scope mode) \<or>
    (mode = TagRead \<and> (hasScope scopes ''tag:write'' \<or> hasScope scopes ''tag:assign'')) \<or>
    (mode = TagAssign \<and> hasScope scopes ''tag:write'')"

definition requireTagAccess :: "authApi \<Rightarrow> crypto \<Rightarrow> int \<Rightarrow> mgmtDb \<Rightarrow> tagAuthMode \<Rightarrow> request \<Rightarrow> httpError + caller" where
  "requireTagAccess api cr now db mode rq = (let orgId = orgIdFromParams rq;
       (authContext, apiKeyAuth) = (case bearer rq of
          Some secret \<Rightarrow> (None, if secret = [] then None else verifyApiKeySecret cr now db secret (nonempty (Some orgId)))
        | None \<Rightarrow> (resolveOrgContext api (rq_headers rq) orgId, None))
     in case apiKeyAuth of
          Some k \<Rightarrow>
            if orgId = [] \<or> vk_organizationId k \<noteq> orgId then Inl forbidden
            else if \<not> tag_key_ok mode (vk_scopes k) then Inl forbidden
            else Inr (ByKey k)
        | None \<Rightarrow> (case authContext of
            None \<Rightarrow> Inl unauthorized
          | Some cx \<Rightarrow>
              if orgId = [] \<or> cx_organizationId cx \<noteq> orgId then Inl forbidden
              else if \<not> api_hasPermission api (rq_headers rq) (cx_organizationId cx) [(''tag'', tag_session_permissions mode)]
                \<and> mode \<noteq> TagAssign then Inl forbidden
              else Inr (BySession cx)))"

definition isOrgAdminRole :: "string \<Rightarrow> bool" where
  "isOrgAdminRole memberRole \<longleftrightarrow> ''owner'' \<in> set (parseRoleNames memberRole) \<or> ''admin'' \<in> set (parseRoleNames memberRole)"

record routeActor =
  ra_organizationId :: string
  ra_apiKeyId :: "string option"
  ra_actor :: tagActor

definition session_actor :: "authContext \<Rightarrow> tagActor" where
  "session_actor cx = \<lparr>ta_userId = Some (cx_userId cx), ta_email = Some (cx_email cx),
     ta_isOrgAdmin = isOrgAdminRole (cx_memberRole cx), ta_endpointId = None\<rparr>"

definition getTagActor :: "authContext option \<Rightarrow> verifiedApiKey option \<Rightarrow> string option \<Rightarrow> httpError + routeActor" where
  "getTagActor authContext apiKeyAuth endpointId = (case apiKeyAuth of
       Some k \<Rightarrow> Inr \<lparr>ra_organizationId = vk_organizationId k, ra_apiKeyId = Some (vk_id k),
         ra_actor = \<lparr>ta_userId = None, ta_email = None, ta_isOrgAdmin = True, ta_endpointId = endpointId\<rparr>\<rparr>
     | None \<Rightarrow> (case authContext of
         Some cx \<Rightarrow> Inr \<lparr>ra_organizationId = cx_organizationId cx, ra_apiKeyId = None,
           ra_actor = (session_actor cx)\<lparr>ta_endpointId := endpointId\<rparr>\<rparr>
       | None \<Rightarrow> Inl (Thrown ''Tag auth context missing'')))"

definition audit_actor :: "routeActor \<Rightarrow> string" where
  "audit_actor actor = (case ta_userId (ra_actor actor) of Some u \<Rightarrow> u
     | None \<Rightarrow> (case ra_apiKeyId actor of Some k \<Rightarrow> k | None \<Rightarrow> ''system''))"

section \<open>Schemas\<close>

definition tag_char :: "char \<Rightarrow> bool" where
  "tag_char c \<longleftrightarrow> (let n = code_unit c in (97 \<le> n \<and> n \<le> 122) \<or> (48 \<le> n \<and> n \<le> 57))"

definition tagNameSchema :: "string \<Rightarrow> bool" where
  "tagNameSchema s \<longleftrightarrow> 1 \<le> length s \<and> length s \<le> 64 \<and> tag_char (hd s) \<and>
    (\<forall>c \<in> set (tl s). tag_char c \<or> c = CHR ''-'' \<or> c = CHR ''_'')"

definition owner_shape :: "string \<Rightarrow> bool" where
  "owner_shape v \<longleftrightarrow> startsWith v ''user:'' \<or> startsWith v ''tag:'' \<or> v = ''autogroup:admin''"

definition tagOwnerSchema :: "string \<Rightarrow> bool" where
  "tagOwnerSchema v \<longleftrightarrow> 1 \<le> length v \<and> length v \<le> 256 \<and> owner_shape v"

definition schema_error :: httpError where
  "schema_error = Thrown ''ZodError''"

section \<open>Tags of devices\<close>

definition device_in_org :: "mgmtDb \<Rightarrow> string \<Rightarrow> string \<Rightarrow> bool" where
  "device_in_org db organizationId endpointId \<longleftrightarrow>
    find (\<lambda>d. dv_endpointId d = endpointId \<and> dv_organizationId d = organizationId) (db_devices (mg_tables db)) \<noteq> None"

text \<open>The two checks that the handlers share: the tags are defined, and the actor may assign them.\<close>

definition check_tags :: "mgmtDb \<Rightarrow> routeActor \<Rightarrow> string list \<Rightarrow> httpError + unit" where
  "check_tags db actor touched = (let missing = ensureTagDefinitionsExist db (ra_organizationId actor) touched in
     if missing \<noteq> [] then Inl (badRequest (''Unknown tag definition(s): '' @ join '', '' missing))
     else case assertCanAssignTags db (ra_organizationId actor) touched (ra_actor actor) of
         Some _ \<Rightarrow> Inl forbidden
       | None \<Rightarrow> Inr ())"

definition tags_audit :: "routeActor \<Rightarrow> string \<Rightarrow> string \<Rightarrow> (string \<times> json) list \<Rightarrow> mgmtDb \<Rightarrow> mgmtDb" where
  "tags_audit actor action target metadata db = bumpOrgAndNotify (ra_organizationId actor)
     (writeAudit \<lparr>in_organizationId = ra_organizationId actor, in_actor = audit_actor actor, in_action = action,
        in_target = Some target, in_metadata = metadata, in_traceId = None\<rparr> db)"

definition patchDeviceTags ::
  "authContext option \<Rightarrow> string \<Rightarrow> string list \<Rightarrow> string list \<Rightarrow> mgmtDb \<Rightarrow> httpError + string list \<times> mgmtDb" where
  "patchDeviceTags authContext endpointId adds removes db =
    res_bind (getTagActor authContext None None) (\<lambda>actor.
      if \<not> list_all tagNameSchema (adds @ removes) then Inl schema_error
      else if \<not> device_in_org db (ra_organizationId actor) endpointId then Inl (notFound ''Device not found'')
      else res_bind (check_tags db actor (adds @ removes)) (\<lambda>_.
        (let (tags, db1) = applyDeviceTagChanges endpointId adds removes db
         in Inr (tags, tags_audit actor ''device.tags_updated'' endpointId
              [(''add'', strs adds), (''remove'', strs removes)] db1))))"

definition putDeviceTags ::
  "authContext option \<Rightarrow> string \<Rightarrow> string list \<Rightarrow> mgmtDb \<Rightarrow> httpError + string list \<times> mgmtDb" where
  "putDeviceTags authContext endpointId tags db =
    res_bind (getTagActor authContext None None) (\<lambda>actor.
      if \<not> list_all tagNameSchema tags then Inl schema_error
      else if \<not> device_in_org db (ra_organizationId actor) endpointId then Inl (notFound ''Device not found'')
      else res_bind (check_tags db actor tags) (\<lambda>_.
        (let (nxt, db1) = replaceDeviceTags endpointId tags db
         in Inr (nxt, tags_audit actor ''device.tags_replaced'' endpointId [(''tags'', strs tags)] db1))))"

definition bulk_step :: "string \<Rightarrow> string list \<Rightarrow> string list \<Rightarrow> (string \<times> string list) list \<times> mgmtDb \<Rightarrow> string \<Rightarrow>
    (string \<times> string list) list \<times> mgmtDb" where
  "bulk_step organizationId adds removes = (\<lambda>(results, db) endpointId.
     if \<not> device_in_org db organizationId endpointId then (results, db)
     else let (tags, db') = applyDeviceTagChanges endpointId adds removes db in (results @ [(endpointId, tags)], db'))"

definition bulkDeviceTags ::
  "authContext option \<Rightarrow> string list \<Rightarrow> string list \<Rightarrow> string list \<Rightarrow> mgmtDb \<Rightarrow> httpError + (string \<times> string list) list \<times> mgmtDb" where
  "bulkDeviceTags authContext endpointIds adds removes db =
    res_bind (getTagActor authContext None None) (\<lambda>actor.
      if \<not> (list_all tagNameSchema (adds @ removes) \<and> list_all (\<lambda>e. length e = 64) endpointIds \<and>
            1 \<le> length endpointIds \<and> length endpointIds \<le> 500) then Inl schema_error
      else res_bind (check_tags db actor (adds @ removes)) (\<lambda>_.
        (let (results, db1) = foldl (bulk_step (ra_organizationId actor) adds removes) ([], db) endpointIds
         in Inr (results, tags_audit actor ''device.tags_bulk_updated'' (ra_organizationId actor)
              [(''count'', JInt (int (length results))), (''add'', strs adds), (''remove'', strs removes)] db1))))"

section \<open>Tag definitions\<close>

definition norm_owner :: "string \<Rightarrow> string" where
  "norm_owner v = (if startsWith v ''tag:'' then ''tag:'' @ normalizeTagName (drop 4 v) else v)"

definition notifyPolicyChange :: "string \<Rightarrow> string \<Rightarrow> string \<Rightarrow> string \<Rightarrow> mgmtDb \<Rightarrow> mgmtDb" where
  "notifyPolicyChange organizationId actor action target db = bumpOrgAndNotify organizationId
     (writeAudit \<lparr>in_organizationId = organizationId, in_actor = actor, in_action = action, in_target = Some target,
        in_metadata = [], in_traceId = None\<rparr> db)"

text \<open>The unique constraint on organization and name.\<close>

definition name_taken :: "mgmtDb \<Rightarrow> string \<Rightarrow> string \<Rightarrow> string \<Rightarrow> bool" where
  "name_taken db organizationId defId name \<longleftrightarrow>
    (\<exists>d \<in> set (mg_tagDefinitions db). td_organizationId d = organizationId \<and> td_name d = name \<and> td_id d \<noteq> defId)"

fun actor_of :: "caller \<Rightarrow> httpError + routeActor" where
  "actor_of (ByKey k) = getTagActor None (Some k) None"
| "actor_of (BySession cx) = getTagActor (Some cx) None None"

definition createTagDefinition ::
  "caller \<Rightarrow> string \<Rightarrow> string \<Rightarrow> string \<Rightarrow> string list \<Rightarrow> mgmtDb \<Rightarrow> httpError + tagDefRow \<times> mgmtDb" where
  "createTagDefinition who newId orgId tagName givenOwners db =
    res_bind (actor_of who) (\<lambda>actor.
      if \<not> (tagNameSchema tagName \<and> list_all tagOwnerSchema givenOwners) then Inl schema_error
      else let name = normalizeTagName tagName; owners = map norm_owner givenOwners;
               owners' = (if owners = [] then
                   (case nonempty (ta_userId (ra_actor actor)) of Some u \<Rightarrow> [defaultOwnerForUser u] | None \<Rightarrow> [])
                 else owners)
           in if owners' = [] then Inl (badRequest ''Tag definition requires at least one owner'')
              else if newId \<in> td_id ` set (mg_tagDefinitions db) \<or> name_taken db orgId newId name then Inl (Thrown ''unique constraint'')
              else let row = \<lparr>td_id = newId, td_organizationId = orgId, td_name = name, td_owners = owners'\<rparr>
                in Inr (row, notifyPolicyChange orgId (audit_actor actor) ''tag_definition.created'' newId
                     (db\<lparr>mg_tagDefinitions := mg_tagDefinitions db @ [row]\<rparr>)))"

definition the_def :: "string \<Rightarrow> string \<Rightarrow> tagDefRow \<Rightarrow> bool" where
  "the_def orgId defId d \<longleftrightarrow> td_id d = defId \<and> td_organizationId d = orgId"

definition patched_def :: "string option \<Rightarrow> string list option \<Rightarrow> tagDefRow \<Rightarrow> tagDefRow" where
  "patched_def tagName givenOwners d = d\<lparr>
     td_name := (case tagName of Some n \<Rightarrow> normalizeTagName n | None \<Rightarrow> td_name d),
     td_owners := (case givenOwners of Some os \<Rightarrow> map norm_owner os | None \<Rightarrow> td_owners d)\<rparr>"

text \<open>The arguments are the fields of the parsed body, in which \<^const>\<open>None\<close> is a field that is undefined
  after parsing.\<close>

definition patchTagDefinition ::
  "caller \<Rightarrow> string \<Rightarrow> string \<Rightarrow> string option \<Rightarrow> string list option \<Rightarrow> mgmtDb \<Rightarrow> httpError + tagDefRow \<times> mgmtDb" where
  "patchTagDefinition who orgId defId tagName givenOwners db =
    res_bind (actor_of who) (\<lambda>actor.
      if \<not> (pred_option tagNameSchema tagName \<and> pred_option (list_all tagOwnerSchema) givenOwners) then Inl schema_error
      else if givenOwners = Some [] then Inl (badRequest ''Tag definition requires at least one owner'')
      else (case find (the_def orgId defId) (mg_tagDefinitions db) of
          None \<Rightarrow> Inl (notFound ''Tag definition not found'')
        | Some d \<Rightarrow>
            (let row = patched_def tagName givenOwners d in
             if name_taken db orgId defId (td_name row) then Inl (Thrown ''unique constraint'')
             else Inr (row, notifyPolicyChange orgId (audit_actor actor) ''tag_definition.updated'' (td_id row)
                    (db\<lparr>mg_tagDefinitions := map (\<lambda>d. if the_def orgId defId d then patched_def tagName givenOwners d else d)
                       (mg_tagDefinitions db)\<rparr>)))))"

definition deleteTagDefinition :: "caller \<Rightarrow> string \<Rightarrow> string \<Rightarrow> mgmtDb \<Rightarrow> httpError + unit \<times> mgmtDb" where
  "deleteTagDefinition who orgId defId db =
    res_bind (actor_of who) (\<lambda>actor.
      case find (the_def orgId defId) (mg_tagDefinitions db) of
        None \<Rightarrow> Inl (notFound ''Tag definition not found'')
      | Some d \<Rightarrow> Inr ((), notifyPolicyChange orgId (audit_actor actor) ''tag_definition.deleted'' (td_id d)
            (db\<lparr>mg_tagDefinitions := filter (\<lambda>d. \<not> the_def orgId defId d) (mg_tagDefinitions db)\<rparr>)))"

section \<open>Enrollment tokens\<close>

definition network_in_org :: "mgmtDb \<Rightarrow> string \<Rightarrow> string \<Rightarrow> bool" where
  "network_in_org db networkId organizationId \<longleftrightarrow>
    find (\<lambda>n. nw_id n = networkId \<and> nw_organizationId n = organizationId) (db_networks (mg_tables db)) \<noteq> None"

definition listEnrollmentTokens :: "authContext \<Rightarrow> string \<Rightarrow> mgmtDb \<Rightarrow> httpError + enrollmentTokenRow list" where
  "listEnrollmentTokens auth networkId db =
    (if \<not> network_in_org db networkId (cx_organizationId auth) then Inl (notFound ''Network not found'')
     else Inr (filter (\<lambda>t. et_networkId t = networkId \<and> et_usedAt t = None) (mg_enrollmentTokens db)))"

text \<open>The first argument is the hash of the token, and the random bytes are those of the token.\<close>

definition createEnrollmentToken ::
  "(string \<Rightarrow> string) \<Rightarrow> int \<Rightarrow> nat list \<Rightarrow> authContext \<Rightarrow> string \<Rightarrow> int \<Rightarrow> string list \<Rightarrow> mgmtDb \<Rightarrow>
    httpError + (string \<times> enrollmentTokenRow) \<times> mgmtDb" where
  "createEnrollmentToken blake3 now random32 auth networkId ttlMinutes givenTags db =
    (if \<not> (1 \<le> ttlMinutes \<and> ttlMinutes \<le> 10080 \<and> list_all tagNameSchema givenTags \<and> length givenTags \<le> 64) then Inl schema_error
     else if \<not> network_in_org db networkId (cx_organizationId auth) then Inl (notFound ''Network not found'')
     else let tags = unique_names givenTags in
       res_bind (if tags = [] then Inr ()
                 else check_tags db \<lparr>ra_organizationId = cx_organizationId auth, ra_apiKeyId = None,
                   ra_actor = session_actor auth\<rparr> tags) (\<lambda>_.
         (let token = b64uEncode random32; tokenHash = blake3 token; expiresAt = now + ttlMinutes * 60000;
              row = \<lparr>et_tokenHash = tokenHash, et_organizationId = cx_organizationId auth, et_networkId = networkId,
                et_createdBy = cx_userId auth, et_tags = tags, et_expiresAt = expiresAt, et_usedAt = None\<rparr>
          in if tokenHash \<in> et_tokenHash ` set (mg_enrollmentTokens db) then Inl (Thrown ''unique constraint'')
             else Inr ((token, row),
               writeAudit \<lparr>in_organizationId = cx_organizationId auth, in_actor = cx_userId auth,
                   in_action = ''enrollment_token.created'', in_target = Some tokenHash,
                   in_metadata = [(''networkId'', JStr networkId), (''expiresAt'', JStr (toISOString expiresAt)), (''tags'', strs tags)],
                   in_traceId = None\<rparr>
                 (db\<lparr>mg_enrollmentTokens := mg_enrollmentTokens db @ [row]\<rparr>)))))"

definition deleteEnrollmentToken :: "authContext \<Rightarrow> string \<Rightarrow> string \<Rightarrow> mgmtDb \<Rightarrow> httpError + unit \<times> mgmtDb" where
  "deleteEnrollmentToken auth networkId tokenHash db =
    (if \<not> network_in_org db networkId (cx_organizationId auth) then Inl (notFound ''Network not found'')
     else if \<not> (\<exists>t \<in> set (mg_enrollmentTokens db). et_tokenHash t = tokenHash \<and> et_networkId t = networkId)
       then Inl (Thrown ''Enrollment token not found'')
     else Inr ((), writeAudit \<lparr>in_organizationId = cx_organizationId auth, in_actor = cx_userId auth,
           in_action = ''enrollment_token.deleted'', in_target = Some tokenHash, in_metadata = [], in_traceId = None\<rparr>
         (db\<lparr>mg_enrollmentTokens := filter (\<lambda>t. \<not> (et_tokenHash t = tokenHash \<and> et_networkId t = networkId))
            (mg_enrollmentTokens db)\<rparr>)))"

section \<open>Names that passed the schema\<close>

lemma tag_name_chars:
  assumes "tagNameSchema s" "c \<in> set s"
  shows "(97 \<le> code_unit c \<and> code_unit c \<le> 122) \<or> (48 \<le> code_unit c \<and> code_unit c \<le> 57) \<or> code_unit c = 45 \<or> code_unit c = 95"
proof -
  have "tag_char c \<or> c = CHR ''-'' \<or> c = CHR ''_''" using assms by (cases s) (auto simp: tagNameSchema_def)
  moreover have "code_unit (CHR ''-'') = 45" "code_unit (CHR ''_'') = 95" by (simp_all add: code_unit_def)
  ultimately show ?thesis by (auto simp: tag_char_def Let_def)
qed

lemma normalize_valid_name:
  assumes "tagNameSchema s"
  shows "normalizeTagName s = s"
proof -
  have ne: "s \<noteq> []" using assms by (auto simp: tagNameSchema_def)
  have ws: "\<not> js_ws c" if "c \<in> set s" for c
    using tag_name_chars [OF assms that] by (auto simp: js_ws_def Let_def)
  have low: "lower_char c = c" if "c \<in> set s" for c
    using tag_name_chars [OF assms that] by (auto simp: lower_char_def Let_def)
  have "trim s = s" using ws hd_in_set [OF ne] last_in_set [OF ne] by (intro trim_id) simp_all
  moreover have "toLowerCase s = s" unfolding toLowerCase_def using low by (simp add: map_idI)
  moreover have "\<not> startsWith s ''tag:''"
  proof
    assume "startsWith s ''tag:''"
    then have "CHR '':'' \<in> set s" by (auto simp: startsWith_iff)
    from tag_name_chars [OF assms this] show False by (simp add: code_unit_def)
  qed
  ultimately show ?thesis by (simp add: normalizeTagName_def)
qed

lemma unique_valid_names: "list_all tagNameSchema ts \<Longrightarrow> unique_names ts = uniq ts"
proof -
  assume v: "list_all tagNameSchema ts"
  then have "map normalizeTagName ts = ts" by (intro map_idI normalize_valid_name) (simp add: list_all_iff)
  moreover have "filter (\<lambda>t. t \<noteq> []) ts = ts"
    using v by (intro filter_True) (auto simp: list_all_iff tagNameSchema_def)
  ultimately show ?thesis by (simp add: unique_names_def)
qed

lemma set_ensure:
  "ensureTagDefinitionsExist db organizationId ts = [] \<longleftrightarrow>
   (\<forall>t \<in> set (unique_names ts). \<exists>d \<in> set (mg_tagDefinitions db). td_organizationId d = organizationId \<and> td_name d = t)"
  unfolding ensureTagDefinitionsExist_def Let_def filter_empty_conv by auto

lemma check_tags_ok:
  "check_tags db actor ts = Inr u \<longleftrightarrow>
   (\<forall>t \<in> set (unique_names ts). (\<exists>d \<in> set (mg_tagDefinitions db). td_organizationId d = ra_organizationId actor \<and> td_name d = t) \<and>
      canAssignTag db (ra_organizationId actor) t (ra_actor actor))"
proof -
  have "check_tags db actor ts = Inr u \<longleftrightarrow> ensureTagDefinitionsExist db (ra_organizationId actor) ts = [] \<and>
      assertCanAssignTags db (ra_organizationId actor) ts (ra_actor actor) = None"
    by (simp add: check_tags_def Let_def split: option.split)
  then show ?thesis unfolding set_ensure assertCanAssignTags_def find_None_iff by blast
qed

section \<open>Effects of the device routes\<close>

lemma tags_audit_frame [simp]:
  "mg_deviceTags (tags_audit actor action target md db) = mg_deviceTags db"
  "mg_tagDefinitions (tags_audit actor action target md db) = mg_tagDefinitions db"
  "mg_enrollmentTokens (tags_audit actor action target md db) = mg_enrollmentTokens db"
  by (simp_all add: tags_audit_def)

lemma notifyPolicyChange_frame [simp]:
  "mg_deviceTags (notifyPolicyChange o' actor action target db) = mg_deviceTags db"
  "mg_tagDefinitions (notifyPolicyChange o' actor action target db) = mg_tagDefinitions db"
  "mg_enrollmentTokens (notifyPolicyChange o' actor action target db) = mg_enrollmentTokens db"
  by (simp_all add: notifyPolicyChange_def)

lemma listDeviceTags_cong: "mg_deviceTags db = mg_deviceTags db' \<Longrightarrow> listDeviceTags db ep = listDeviceTags db' ep"
  by (simp add: listDeviceTags_def)

lemma filter_changed_rows:
  "ep' \<noteq> ep \<Longrightarrow> filter (\<lambda>r. dt_endpointId r = ep') (changed_rows ep adds removes rows) =
   filter (\<lambda>r. dt_endpointId r = ep') rows"
  by (auto simp: changed_rows_def Let_def filter_empty_conv intro: filter_cong)

lemma session_tag_actor:
  "getTagActor (Some cx) None None =
    Inr \<lparr>ra_organizationId = cx_organizationId cx, ra_apiKeyId = None, ra_actor = session_actor cx\<rparr>"
  by (simp add: getTagActor_def session_actor_def)

lemma res_bind_InrD: "res_bind x f = Inr y \<Longrightarrow> \<exists>z. x = Inr z \<and> f z = Inr y"
  by (cases x) simp_all

lemma patch_effect:
  assumes "patchDeviceTags (Some cx) ep adds removes db = Inr (tags, db')"
  shows "mg_deviceTags db' = changed_rows ep (uniq adds) (uniq removes) (mg_deviceTags db)"
    "tags = listDeviceTags db' ep" "list_all tagNameSchema (adds @ removes)"
    "mg_tagDefinitions db' = mg_tagDefinitions db" "mg_enrollmentTokens db' = mg_enrollmentTokens db"
    "device_in_org db (cx_organizationId cx) ep"
    "\<And>t. t \<in> set (adds @ removes) \<Longrightarrow> canAssignTag db (cx_organizationId cx) t (session_actor cx)"
proof -
  let ?a = "\<lparr>ra_organizationId = cx_organizationId cx, ra_apiKeyId = None, ra_actor = session_actor cx\<rparr>"
  have v: "list_all tagNameSchema (adds @ removes)" and "device_in_org db (cx_organizationId cx) ep"
    and c: "check_tags db ?a (adds @ removes) = Inr ()"
    and e: "(let (tags, db1) = applyDeviceTagChanges ep adds removes db in (tags, tags_audit ?a ''device.tags_updated'' ep
        [(''add'', strs adds), (''remove'', strs removes)] db1)) = (tags, db')"
    using assms unfolding patchDeviceTags_def session_tag_actor
    by (auto split: if_splits prod.splits dest!: res_bind_InrD)
  then show "list_all tagNameSchema (adds @ removes)" "device_in_org db (cx_organizationId cx) ep" by blast+
  have u: "unique_names adds = uniq adds" "unique_names removes = uniq removes" "unique_names (adds @ removes) = uniq (adds @ removes)"
    using v unique_valid_names [of adds] unique_valid_names [of removes] unique_valid_names [OF v] by simp_all
  show d: "mg_deviceTags db' = changed_rows ep (uniq adds) (uniq removes) (mg_deviceTags db)"
    "mg_tagDefinitions db' = mg_tagDefinitions db" "mg_enrollmentTokens db' = mg_enrollmentTokens db"
    using e by (auto simp: applyDeviceTagChanges_eq u Let_def)
  show "tags = listDeviceTags db' ep"
    using e unfolding applyDeviceTagChanges_eq Let_def by (auto intro: listDeviceTags_cong)
  show "canAssignTag db (cx_organizationId cx) t (session_actor cx)" if "t \<in> set (adds @ removes)" for t
    using c that unfolding check_tags_ok u by simp
qed

lemma put_effect:
  assumes "putDeviceTags (Some cx) ep ts db = Inr (tags, db')"
  shows "mg_deviceTags db' = filter (\<lambda>r. dt_endpointId r \<noteq> ep) (mg_deviceTags db) @ map (tag_row ep) (uniq ts)"
    "list_all tagNameSchema ts" "mg_tagDefinitions db' = mg_tagDefinitions db" "mg_enrollmentTokens db' = mg_enrollmentTokens db"
proof -
  have v: "list_all tagNameSchema ts"
    using assms unfolding putDeviceTags_def session_tag_actor by (auto split: if_splits)
  show "mg_deviceTags db' = filter (\<lambda>r. dt_endpointId r \<noteq> ep) (mg_deviceTags db) @ map (tag_row ep) (uniq ts)"
    "list_all tagNameSchema ts" "mg_tagDefinitions db' = mg_tagDefinitions db" "mg_enrollmentTokens db' = mg_enrollmentTokens db"
    using assms v unfolding putDeviceTags_def session_tag_actor replaceDeviceTags_eq unique_valid_names [OF v]
    by (auto split: if_splits dest!: res_bind_InrD)
qed

section \<open>Properties of the device routes\<close>

text \<open>C37: the route that patches the tags of a device does what it is asked, and only what the user may
  do. When it succeeds, the device belongs to the user's organization, the answer is the new list of its
  tags, these are the old ones without the removed and with the added ones, no other device is touched,
  and every tag that came or went is one that the user may assign.\<close>

theorem patch_changes_only_assignable_tags:
  assumes "patchDeviceTags (Some cx) ep adds removes db = Inr (tags, db')"
  shows "device_in_org db (cx_organizationId cx) ep \<and> tags = listDeviceTags db' ep \<and>
    set tags = (set (listDeviceTags db ep) - set removes) \<union> set adds \<and>
    (\<forall>ep'. ep' \<noteq> ep \<longrightarrow> listDeviceTags db' ep' = listDeviceTags db ep') \<and>
    (\<forall>t. (t \<in> set tags) \<noteq> (t \<in> set (listDeviceTags db ep)) \<longrightarrow>
      canAssignTag db (cx_organizationId cx) t (session_actor cx))"
proof -
  note eff = patch_effect [OF assms]
  have new: "set tags = (set (listDeviceTags db ep) - set removes) \<union> set adds"
    unfolding eff(2) by (auto simp: mem_listDeviceTags eff(1) set_changed_rows)
  have "listDeviceTags db' ep' = listDeviceTags db ep'" if "ep' \<noteq> ep" for ep'
    unfolding listDeviceTags_def eff(1) filter_changed_rows [OF that] ..
  moreover have "canAssignTag db (cx_organizationId cx) t (session_actor cx)"
    if "(t \<in> set tags) \<noteq> (t \<in> set (listDeviceTags db ep))" for t
    using eff(7) [of t] that unfolding new by auto
  ultimately show ?thesis using new eff(2,6) by blast
qed

definition ex_tag_store :: mgmtDb where
  "ex_tag_store = ex_store\<lparr>
     mg_tagDefinitions := [\<lparr>td_id = ''d1'', td_organizationId = ''o1'', td_name = ''web'', td_owners = [''tag:ops'']\<rparr>,
       \<lparr>td_id = ''d2'', td_organizationId = ''o1'', td_name = ''ops'', td_owners = [''tag:web'', ''user:u2'']\<rparr>],
     mg_deviceTags := [\<lparr>dt_endpointId = ''e1'', dt_tag = ''ops''\<rparr>]\<rparr>"

definition ex_member_cx :: "string \<Rightarrow> authContext" where
  "ex_member_cx user = ex_auth_cx\<lparr>cx_userId := user, cx_email := user, cx_memberRole := ''member''\<rparr>"

theorem patch_changes_only_assignable_tags_witness:
  "\<exists>db'. patchDeviceTags (Some (ex_member_cx ''u2'')) ''e1'' [''web''] [''ops''] ex_tag_store = Inr ([''web''], db') \<and>
     listDeviceTags db' ''e1'' = [''web''] \<and> canAssignTag ex_tag_store ''o1'' ''web'' (session_actor (ex_member_cx ''u2''))"
proof -
  have "(case patchDeviceTags (Some (ex_member_cx ''u2'')) ''e1'' [''web''] [''ops''] ex_tag_store of
      Inr (ts, _) \<Rightarrow> ts = [''web''] | Inl _ \<Rightarrow> False)"
    by code_simp
  then obtain db' where run: "patchDeviceTags (Some (ex_member_cx ''u2'')) ''e1'' [''web''] [''ops''] ex_tag_store = Inr ([''web''], db')"
    by (auto split: sum.splits)
  have "''web'' \<notin> set (listDeviceTags ex_tag_store ''e1'')" by code_simp
  then show ?thesis
    using run patch_changes_only_assignable_tags [OF run] by (auto simp: ex_member_cx_def ex_auth_cx_def)
qed

text \<open>C38: the route that replaces the tags of a device does not ask for the right to remove. It checks
  only the tags it is given, so with an empty list it strips any device of the organization of all its
  tags, whoever the member is; removing any one of them by the patch route is refused to a member who may
  not assign it.\<close>

theorem put_strips_unowned_tags:
  assumes "device_in_org db (cx_organizationId cx) ep"
  shows "(\<exists>db'. putDeviceTags (Some cx) ep [] db = Inr ([], db') \<and> listDeviceTags db' ep = []) \<and>
    (\<forall>t. \<not> canAssignTag db (cx_organizationId cx) t (session_actor cx) \<longrightarrow>
      (\<forall>r. patchDeviceTags (Some cx) ep [] [t] db \<noteq> Inr r))"
proof -
  have "check_tags db actor [] = Inr ()" for actor unfolding check_tags_ok by (simp add: unique_names_def)
  then obtain db' where put: "putDeviceTags (Some cx) ep [] db = Inr ([], db')"
    using assms by (simp add: putDeviceTags_def session_tag_actor replaceDeviceTags_eq unique_names_def)
  have "listDeviceTags db' ep = []" unfolding listDeviceTags_def put_effect(1) [OF put] by (simp add: filter_empty_conv)
  then show ?thesis using put patch_effect(7) by fastforce
qed

theorem put_strips_unowned_tags_witness:
  "(\<exists>db'. putDeviceTags (Some (ex_member_cx ''u3'')) ''e1'' [] ex_tag_store = Inr ([], db') \<and> listDeviceTags db' ''e1'' = []) \<and>
   listDeviceTags ex_tag_store ''e1'' = [''ops''] \<and> \<not> canAssignTag ex_tag_store ''o1'' ''ops'' (session_actor (ex_member_cx ''u3''))"
proof -
  have "device_in_org ex_tag_store (cx_organizationId (ex_member_cx ''u3'')) ''e1''"
    by (simp add: device_in_org_def ex_tag_store_def ex_store_def ex_member_cx_def ex_auth_cx_def)
  moreover have "listDeviceTags ex_tag_store ''e1'' = [''ops'']" by code_simp
  moreover have "\<not> canAssignTag ex_tag_store ''o1'' ''ops'' (session_actor (ex_member_cx ''u3''))" by code_simp
  ultimately show ?thesis using put_strips_unowned_tags by blast
qed

section \<open>What the store keeps\<close>

text \<open>The steps of the store: every route of this theory that changes it, for any caller and any body.\<close>

inductive tagStep :: "mgmtDb \<Rightarrow> mgmtDb \<Rightarrow> bool" where
  PatchTags: "patchDeviceTags (Some cx) ep adds removes db = Inr (tags, db') \<Longrightarrow> tagStep db db'"
| PutTags: "putDeviceTags (Some cx) ep ts db = Inr (tags, db') \<Longrightarrow> tagStep db db'"
| BulkTags: "bulkDeviceTags (Some cx) eps adds removes db = Inr (res, db') \<Longrightarrow> tagStep db db'"
| CreateDef: "createTagDefinition who newId orgId name owners db = Inr (row, db') \<Longrightarrow> tagStep db db'"
| PatchDef: "patchTagDefinition who orgId defId name' owners' db = Inr (row, db') \<Longrightarrow> tagStep db db'"
| DeleteDef: "deleteTagDefinition who orgId defId db = Inr (u, db') \<Longrightarrow> tagStep db db'"
| CreateToken: "createEnrollmentToken blake3 now random32 cx networkId ttl ts db = Inr (r, db') \<Longrightarrow> tagStep db db'"
| DeleteToken: "deleteEnrollmentToken cx networkId tokenHash db = Inr (u, db') \<Longrightarrow> tagStep db db'"

definition device_tags_wf :: "deviceTagRow list \<Rightarrow> bool" where
  "device_tags_wf rows \<longleftrightarrow> distinct rows \<and> (\<forall>r \<in> set rows. tagNameSchema (dt_tag r))"

definition def_wf :: "tagDefRow \<Rightarrow> bool" where
  "def_wf d \<longleftrightarrow> tagNameSchema (td_name d) \<and> td_owners d \<noteq> [] \<and> list_all owner_shape (td_owners d)"

definition defs_wf :: "tagDefRow list \<Rightarrow> bool" where
  "defs_wf defs \<longleftrightarrow> distinct (map td_id defs) \<and> distinct (map (\<lambda>d. (td_organizationId d, td_name d)) defs) \<and> list_all def_wf defs"

definition tokens_wf :: "enrollmentTokenRow list \<Rightarrow> bool" where
  "tokens_wf ts \<longleftrightarrow> distinct (map et_tokenHash ts) \<and> (\<forall>t \<in> set ts. distinct (et_tags t) \<and> list_all tagNameSchema (et_tags t))"

definition tags_wf :: "mgmtDb \<Rightarrow> bool" where
  "tags_wf db \<longleftrightarrow> device_tags_wf (mg_deviceTags db) \<and> defs_wf (mg_tagDefinitions db) \<and> tokens_wf (mg_enrollmentTokens db)"

lemma changed_rows_wf:
  "device_tags_wf rows \<Longrightarrow> list_all tagNameSchema adds \<Longrightarrow> device_tags_wf (changed_rows ep (uniq adds) removes rows)"
  unfolding device_tags_wf_def set_changed_rows by (auto simp: distinct_changed_rows list_all_iff)

lemma replaced_rows_wf:
  "device_tags_wf rows \<Longrightarrow> list_all tagNameSchema ts \<Longrightarrow>
   device_tags_wf (filter (\<lambda>r. dt_endpointId r \<noteq> ep) rows @ map (tag_row ep) (uniq ts))"
  by (auto simp: device_tags_wf_def list_all_iff distinct_map inj_on_def)

lemma bulk_fold:
  assumes "foldl (bulk_step orgId adds removes) (res, db) eps = (res', db')" "list_all tagNameSchema adds"
    "device_tags_wf (mg_deviceTags db)"
  shows "device_tags_wf (mg_deviceTags db') \<and> mg_tagDefinitions db' = mg_tagDefinitions db \<and>
    mg_enrollmentTokens db' = mg_enrollmentTokens db"
  using assms(1,3)
proof (induction eps arbitrary: res db)
  case Nil
  then show ?case by simp
next
  case (Cons ep eps)
  obtain res1 db1 where s: "bulk_step orgId adds removes (res, db) ep = (res1, db1)" by fastforce
  then have "device_tags_wf (mg_deviceTags db1) \<and> mg_tagDefinitions db1 = mg_tagDefinitions db \<and>
      mg_enrollmentTokens db1 = mg_enrollmentTokens db"
    using Cons.prems(2) changed_rows_wf [OF _ assms(2)]
    by (auto simp: bulk_step_def applyDeviceTagChanges_eq unique_valid_names [OF assms(2)] Let_def split: if_splits)
  then show ?case using Cons.IH [of res1 db1] Cons.prems(1) s by simp
qed

lemma norm_owner_shape: "owner_shape v \<Longrightarrow> owner_shape (norm_owner v)"
  by (auto simp: norm_owner_def owner_shape_def)

lemma norm_owners_shape: "list_all tagOwnerSchema vs \<Longrightarrow> list_all owner_shape (map norm_owner vs)"
  by (auto simp: list_all_iff tagOwnerSchema_def norm_owner_shape)

lemma create_def_wf:
  assumes "createTagDefinition who newId orgId name owners db = Inr (row, db')" "tags_wf db"
  shows "tags_wf db'"
proof -
  obtain actor where v: "tagNameSchema name" "list_all tagOwnerSchema owners" and row: "td_id row = newId"
    "td_organizationId row = orgId" "td_name row = name" "td_owners row \<noteq> []" "td_owners row = map norm_owner owners \<or>
      (\<exists>u. td_owners row = [defaultOwnerForUser u])"
    and fresh: "newId \<notin> td_id ` set (mg_tagDefinitions db)" "\<not> name_taken db orgId newId name"
    and db': "db' = notifyPolicyChange orgId (audit_actor actor) ''tag_definition.created'' newId
        (db\<lparr>mg_tagDefinitions := mg_tagDefinitions db @ [row]\<rparr>)"
    using assms(1) unfolding createTagDefinition_def Let_def
    by (auto simp: normalize_valid_name split: if_splits option.splits dest!: res_bind_InrD) blast
  have "def_wf row"
    using row v norm_owners_shape [OF v(2)] by (auto simp: def_wf_def defaultOwnerForUser_def owner_shape_def)
  moreover have "(orgId, name) \<notin> (\<lambda>d. (td_organizationId d, td_name d)) ` set (mg_tagDefinitions db)"
    using fresh by (auto simp: name_taken_def)
  ultimately show ?thesis using assms(2) row fresh(1) by (auto simp: tags_wf_def defs_wf_def db')
qed

lemma patched_keys:
  assumes "distinct (map td_id defs)" "distinct (map (\<lambda>d. (td_organizationId d, td_name d)) defs)"
    and new: "\<And>d d'. d \<in> set defs \<Longrightarrow> d' \<in> set defs \<Longrightarrow> the_def orgId defId d \<Longrightarrow> td_id d' \<noteq> defId \<Longrightarrow>
      (td_organizationId d', td_name d') \<noteq> (orgId, td_name (f d))"
    and f: "\<And>d. td_id (f d) = td_id d \<and> td_organizationId (f d) = td_organizationId d"
  shows "distinct (map (\<lambda>d. (td_organizationId d, td_name d)) (map (\<lambda>d. if the_def orgId defId d then f d else d) defs))"
proof -
  let ?g = "\<lambda>d. if the_def orgId defId d then f d else d"
  have ids: "td_id d = td_id d' \<Longrightarrow> d \<in> set defs \<Longrightarrow> d' \<in> set defs \<Longrightarrow> d = d'" for d d'
    using assms(1) by (simp add: distinct_map inj_on_def)
  have keys: "td_organizationId d = td_organizationId d' \<Longrightarrow> td_name d = td_name d' \<Longrightarrow> d \<in> set defs \<Longrightarrow> d' \<in> set defs \<Longrightarrow> d = d'" for d d'
    using assms(2) by (simp add: distinct_map inj_on_def)
  have "inj_on (\<lambda>d. (td_organizationId (?g d), td_name (?g d))) (set defs)"
  proof (rule inj_onI)
    fix d d'
    assume d: "d \<in> set defs" "d' \<in> set defs" "(td_organizationId (?g d), td_name (?g d)) = (td_organizationId (?g d'), td_name (?g d'))"
    consider "the_def orgId defId d" "the_def orgId defId d'" | "the_def orgId defId d" "\<not> the_def orgId defId d'"
      | "\<not> the_def orgId defId d" "the_def orgId defId d'" | "\<not> the_def orgId defId d" "\<not> the_def orgId defId d'" by blast
    then show "d = d'"
    proof cases
      case 1
      then show ?thesis using d ids by (simp add: the_def_def)
    next
      case 2
      then show ?thesis using d f [of d] new [of d d'] by (auto simp: the_def_def)
    next
      case 3
      then show ?thesis using d f [of d'] new [of d' d] by (auto simp: the_def_def)
    next
      case 4
      then show ?thesis using d keys by simp
    qed
  qed
  then show ?thesis using assms(1) by (simp add: distinct_map comp_def inj_on_def del: if_split_asm)
qed

lemma patch_def_wf:
  assumes "patchTagDefinition who orgId defId name' owners' db = Inr (row, db')" "tags_wf db"
  shows "tags_wf db'"
proof -
  let ?f = "patched_def name' owners'"
  obtain actor d where v: "pred_option tagNameSchema name'" "pred_option (list_all tagOwnerSchema) owners'" "owners' \<noteq> Some []"
    and d: "find (the_def orgId defId) (mg_tagDefinitions db) = Some d" "\<not> name_taken db orgId defId (td_name (?f d))"
    and db': "db' = notifyPolicyChange orgId (audit_actor actor) ''tag_definition.updated'' (td_id row)
        (db\<lparr>mg_tagDefinitions := map (\<lambda>d. if the_def orgId defId d then ?f d else d) (mg_tagDefinitions db)\<rparr>)"
    using assms(1) unfolding patchTagDefinition_def Let_def
    by (auto split: if_splits option.splits dest!: res_bind_InrD)
  have wf: "distinct (map td_id (mg_tagDefinitions db))"
    "distinct (map (\<lambda>d. (td_organizationId d, td_name d)) (mg_tagDefinitions db))" "list_all def_wf (mg_tagDefinitions db)"
    using assms(2) by (simp_all add: tags_wf_def defs_wf_def)
  have one: "d' = d" if "d' \<in> set (mg_tagDefinitions db)" "the_def orgId defId d'" for d'
    using that find_SomeD [OF d(1)] wf(1) by (simp add: distinct_map inj_on_def the_def_def)
  have "def_wf (?f d')" if "def_wf d'" for d'
    using that v norm_owners_shape
    by (auto simp: def_wf_def patched_def_def normalize_valid_name split: option.splits)
  then have "list_all def_wf (map (\<lambda>d. if the_def orgId defId d then ?f d else d) (mg_tagDefinitions db))"
    using wf(3) by (auto simp: list_all_iff)
  moreover have "distinct (map (\<lambda>d. (td_organizationId d, td_name d)) (map (\<lambda>d. if the_def orgId defId d then ?f d else d) (mg_tagDefinitions db)))"
  proof (rule patched_keys [OF wf(1,2)])
    fix d1 d2
    assume a: "d1 \<in> set (mg_tagDefinitions db)" "d2 \<in> set (mg_tagDefinitions db)" "the_def orgId defId d1" "td_id d2 \<noteq> defId"
    have "d1 = d" using one a by blast
    then show "(td_organizationId d2, td_name d2) \<noteq> (orgId, td_name (?f d1))" using a d(2) unfolding name_taken_def by auto
  qed (simp add: patched_def_def)
  moreover have "map td_id (map (\<lambda>d. if the_def orgId defId d then ?f d else d) (mg_tagDefinitions db)) = map td_id (mg_tagDefinitions db)"
    by (simp add: patched_def_def)
  then have "distinct (map td_id (map (\<lambda>d. if the_def orgId defId d then ?f d else d) (mg_tagDefinitions db)))"
    using wf(1) by (simp only:)
  ultimately have "defs_wf (map (\<lambda>d. if the_def orgId defId d then ?f d else d) (mg_tagDefinitions db))"
    unfolding defs_wf_def by blast
  then show ?thesis using assms(2) unfolding tags_wf_def db' by simp
qed

lemma delete_def_wf:
  assumes "deleteTagDefinition who orgId defId db = Inr (u, db')" "tags_wf db"
  shows "tags_wf db'"
  using assms unfolding deleteTagDefinition_def tags_wf_def defs_wf_def
  by (auto split: option.splits dest!: res_bind_InrD simp: list_all_iff distinct_map_filter)

lemma create_token_wf:
  assumes "createEnrollmentToken blake3 now random32 cx networkId ttl ts db = Inr (r, db')" "tags_wf db"
  shows "tags_wf db'"
proof -
  have v: "list_all tagNameSchema ts"
    using assms(1) unfolding createEnrollmentToken_def by (auto split: if_splits)
  have u: "list_all tagNameSchema (uniq ts)" using v by (simp add: list_all_iff)
  show ?thesis
    using assms u unfolding createEnrollmentToken_def unique_valid_names [OF v] Let_def tags_wf_def tokens_wf_def
    by (auto split: if_splits dest!: res_bind_InrD)
qed

lemma delete_token_wf:
  assumes "deleteEnrollmentToken cx networkId tokenHash db = Inr (u, db')" "tags_wf db"
  shows "tags_wf db'"
  using assms unfolding deleteEnrollmentToken_def tags_wf_def tokens_wf_def
  by (auto split: if_splits intro: distinct_map_filter)

lemma tagStep_wf:
  assumes "tagStep db db'" "tags_wf db"
  shows "tags_wf db'"
  using assms(1)
proof cases
  case (PatchTags cx ep adds removes tags)
  note eff = patch_effect [OF PatchTags]
  then show ?thesis using assms(2) changed_rows_wf [of "mg_deviceTags db" adds] by (simp add: tags_wf_def)
next
  case (PutTags cx ep ts tags)
  note eff = put_effect [OF PutTags]
  then show ?thesis using assms(2) replaced_rows_wf [of "mg_deviceTags db" ts] by (simp add: tags_wf_def)
next
  case (BulkTags cx eps adds removes res)
  then obtain actor db1 where "list_all tagNameSchema adds" "foldl (bulk_step (cx_organizationId cx) adds removes) ([], db) eps = (res, db1)"
    "mg_deviceTags db' = mg_deviceTags db1" "mg_tagDefinitions db' = mg_tagDefinitions db1"
    "mg_enrollmentTokens db' = mg_enrollmentTokens db1"
    unfolding bulkDeviceTags_def session_tag_actor by (auto split: if_splits prod.splits dest!: res_bind_InrD)
  then show ?thesis using assms(2) bulk_fold by (simp add: tags_wf_def)
next
  case CreateDef
  then show ?thesis using assms(2) by (rule create_def_wf)
next
  case PatchDef
  then show ?thesis using assms(2) by (rule patch_def_wf)
next
  case DeleteDef
  then show ?thesis using assms(2) by (rule delete_def_wf)
next
  case CreateToken
  then show ?thesis using assms(2) by (rule create_token_wf)
next
  case DeleteToken
  then show ?thesis using assms(2) by (rule delete_token_wf)
qed

text \<open>C34: the routes keep the tables well formed. Whatever requests are served, and in whatever order,
  every tag of a device and of an enrollment token is a name that the schema allows and is there once,
  every tag definition has an allowed name that is unique in its organization and at least one owner, every owner is a
  user, a tag or the administrators, and the identifiers of definitions and tokens stay unique.\<close>

theorem tag_tables_stay_well_formed:
  assumes "tagStep\<^sup>*\<^sup>* db db'" "tags_wf db"
  shows "tags_wf db'"
  using assms by (induction rule: rtranclp_induct) (auto intro: tagStep_wf)

theorem tag_tables_stay_well_formed_witness:
  "\<exists>db'. tagStep\<^sup>*\<^sup>* ex_tag_store db' \<and> listDeviceTags db' ''e1'' = [''web''] \<and> tags_wf db'"
proof -
  have "(case patchDeviceTags (Some (ex_member_cx ''u2'')) ''e1'' [''web''] [''ops''] ex_tag_store of
      Inr (ts, db') \<Rightarrow> listDeviceTags db' ''e1'' = [''web''] | Inl _ \<Rightarrow> False)"
    by code_simp
  then obtain ts db' where run: "patchDeviceTags (Some (ex_member_cx ''u2'')) ''e1'' [''web''] [''ops''] ex_tag_store = Inr (ts, db')"
    "listDeviceTags db' ''e1'' = [''web'']"
    by (auto split: sum.splits)
  have "tagStep\<^sup>*\<^sup>* ex_tag_store db'" using PatchTags [OF run(1)] by (rule r_into_rtranclp)
  moreover have "tags_wf ex_tag_store" by code_simp
  ultimately show ?thesis using run(2) tag_tables_stay_well_formed by blast
qed

end
