(* ===== verification/Device_Removal.thy ===== *)
theory Device_Removal
  imports Api_Access
begin

text \<open>
  Taking devices out of networks (apps/management/src/lib/remove-device-membership.ts), one at a time and
  in bulk, and the route by which API keys do it (api/v1/sdk-nodes.ts). A device that is in no network
  any more is deleted, and with it its tags, by the foreign keys of the tables.

  The audit trail leaves the process at once, while the tables are written in a transaction. A route in
  which a transaction can throw after an event was sent returns the store next to its error: its
  tables are the old ones, its audit log is not.
\<close>

record removeInput =
  ri_organizationId :: string
  ri_actor :: string
  ri_networkId :: string
  ri_endpointId :: string
  ri_auditAction :: "string option"

definition with_devices :: "(deviceRow list \<Rightarrow> deviceRow list) \<Rightarrow> mgmtDb \<Rightarrow> mgmtDb" where
  "with_devices f db = db\<lparr>mg_tables := (mg_tables db)\<lparr>db_devices := f (db_devices (mg_tables db))\<rparr>\<rparr>"

text \<open>\<open>DELETE FROM devices WHERE endpoint_id IN eps\<close>, with what the foreign keys delete.\<close>

definition delete_devices :: "string list \<Rightarrow> mgmtDb \<Rightarrow> mgmtDb" where
  "delete_devices eps db = (with_devices (filter (\<lambda>d. dv_endpointId d \<notin> set eps)) db)\<lparr>
     mg_memberships := filter (\<lambda>m. nm_endpointId m \<notin> set eps) (mg_memberships db),
     mg_deviceTags := filter (\<lambda>r. dt_endpointId r \<notin> set eps) (mg_deviceTags db)\<rparr>"

definition removeDeviceMembership :: "removeInput \<Rightarrow> mgmtDb \<Rightarrow> string + mgmtDb" where
  "removeDeviceMembership i db =
    (if find (\<lambda>d. dv_endpointId d = ri_endpointId i \<and> dv_organizationId d = ri_organizationId i) (db_devices (mg_tables db)) = None
     then Inl ''Device not found''
     else if find (\<lambda>n. nw_id n = ri_networkId i \<and> nw_organizationId n = ri_organizationId i) (db_networks (mg_tables db)) = None
     then Inl ''Network not found''
     else let gone = (\<lambda>m. nm_endpointId m = ri_endpointId i \<and> nm_networkId m = ri_networkId i);
              db1 = db\<lparr>mg_memberships := filter (\<lambda>m. \<not> gone m) (mg_memberships db)\<rparr>
          in if find gone (mg_memberships db) = None then Inl ''Device not found''
             else let remaining = filter (\<lambda>m. nm_endpointId m = ri_endpointId i) (mg_memberships db1);
                      db2 = (if remaining = []
                        then bumpOrgAndNotify (ri_organizationId i) (delete_devices [ri_endpointId i] db1) else db1);
                      db3 = writeAudit \<lparr>in_organizationId = ri_organizationId i, in_actor = ri_actor i,
                        in_action = (case ri_auditAction i of Some a \<Rightarrow> a | None \<Rightarrow> ''device.deleted''),
                        in_target = Some (ri_endpointId i), in_metadata = [(''networkId'', JStr (ri_networkId i))],
                        in_traceId = None\<rparr> db2
                  in Inr (bumpNetworkAndNotify (ri_networkId i) (ri_organizationId i) db3))"

type_synonym item = "string \<times> string"

text \<open>An item is a network and an endpoint.\<close>

definition delete_group :: "int \<times> mgmtDb \<Rightarrow> string \<times> string list \<Rightarrow> int \<times> mgmtDb" where
  "delete_group = (\<lambda>(deleted, db) (networkId, eps).
     let gone = (\<lambda>m. nm_networkId m = networkId \<and> nm_endpointId m \<in> set eps)
     in (deleted + int (length (filter gone (mg_memberships db))),
         db\<lparr>mg_memberships := filter (\<lambda>m. \<not> gone m) (mg_memberships db)\<rparr>))"

text \<open>The first occurrence of every text \<open>networkId:endpointId\<close>.\<close>

definition item_key :: "item \<Rightarrow> string" where
  "item_key it = fst it @ '':'' @ snd it"

fun first_by_key :: "string list \<Rightarrow> item list \<Rightarrow> item list" where
  "first_by_key seen [] = []"
| "first_by_key seen (it # its) = (if item_key it \<in> set seen then first_by_key seen its
     else it # first_by_key (seen @ [item_key it]) its)"

definition removeDeviceMembershipsBulk :: "string \<Rightarrow> string \<Rightarrow> item list \<Rightarrow> mgmtDb \<Rightarrow> int \<times> mgmtDb" where
  "removeDeviceMembershipsBulk organizationId actor given db =
    (if given = [] then (0, db)
     else let items = first_by_key [] given;
              endpointIds = uniq (map snd items);
              networkIds = uniq (map fst items);
              deviceSet = map dv_endpointId (filter (\<lambda>d. dv_organizationId d = organizationId \<and> dv_endpointId d \<in> set endpointIds)
                (db_devices (mg_tables db)));
              networkSet = map nw_id (filter (\<lambda>n. nw_organizationId n = organizationId \<and> nw_id n \<in> set networkIds)
                (db_networks (mg_tables db)));
              valid = filter (\<lambda>it. snd it \<in> set deviceSet \<and> fst it \<in> set networkSet) items
          in if valid = [] then (0, db)
             else let byNetwork = foldl (\<lambda>m it. map_push (fst it) (snd it) m) [] valid;
                      (deleted, db1) = foldl delete_group (0, db) byNetwork;
                      stillSet = map nm_endpointId (filter (\<lambda>m. nm_endpointId m \<in> set endpointIds) (mg_memberships db1));
                      orphans = filter (\<lambda>ep. ep \<in> set deviceSet \<and> ep \<notin> set stillSet) endpointIds;
                      db2 = (if orphans \<noteq> [] then bumpOrgAndNotify organizationId (delete_devices orphans db1) else db1);
                      db3 = writeAudit \<lparr>in_organizationId = organizationId, in_actor = actor, in_action = ''device.bulk_deleted'',
                        in_target = Some organizationId,
                        in_metadata = [(''deleted'', JInt deleted), (''networks'', strs (map fst byNetwork)),
                          (''endpointCount'', JInt (int (length valid)))], in_traceId = None\<rparr> db2
                  in (deleted, foldl (\<lambda>d networkId. bumpNetworkAndNotify networkId organizationId d) db3 (map fst byNetwork)))"

section \<open>The route for API keys\<close>

text \<open>The loop inside the transaction; on a throw it returns the audit log as it is by then.\<close>

fun remove_each :: "string \<Rightarrow> string \<Rightarrow> (string \<Rightarrow> bool) \<Rightarrow> item list \<Rightarrow> int \<times> mgmtDb \<Rightarrow> (string \<times> auditEvent list) + int \<times> mgmtDb" where
  "remove_each organizationId actor allowed [] (deleted, db) = Inr (deleted, db)"
| "remove_each organizationId actor allowed (it # its) (deleted, db) =
    (if \<not> allowed (fst it) then remove_each organizationId actor allowed its (deleted, db)
     else (case removeDeviceMembership \<lparr>ri_organizationId = organizationId, ri_actor = actor, ri_networkId = fst it,
               ri_endpointId = snd it, ri_auditAction = None\<rparr> db of
         Inl msg \<Rightarrow> Inl (msg, mg_auditLog db)
       | Inr db' \<Rightarrow> remove_each organizationId actor allowed its (deleted + 1, db')))"

definition deleteSdkNodes :: "verifiedApiKey \<Rightarrow> string \<Rightarrow> item list option \<Rightarrow> mgmtDb \<Rightarrow> (httpError + int) \<times> mgmtDb" where
  "deleteSdkNodes auth orgId items db =
    (if vk_organizationId auth \<noteq> orgId then (Inl forbidden, db)
     else (case items of
         None \<Rightarrow> (Inl (badRequest ''items required''), db)
       | Some its \<Rightarrow>
           if its = [] then (Inl (badRequest ''items required''), db)
           else if 100 < length its then (Inl (badRequest ''max 100 items''), db)
           else (case remove_each (vk_organizationId auth) (''api_key:'' @ vk_id auth) (canAccessNetwork auth) its (0, db) of
               Inl (msg, log) \<Rightarrow> (Inl (Thrown msg), db\<lparr>mg_auditLog := log\<rparr>)
             | Inr (deleted, db') \<Rightarrow> (Inr deleted, db'))))"

section \<open>What a removal leaves\<close>

definition left :: "item list \<Rightarrow> membershipRow list \<Rightarrow> membershipRow list" where
  "left items ms = filter (\<lambda>m. (nm_networkId m, nm_endpointId m) \<notin> set items) ms"

definition orphaned :: "item list \<Rightarrow> membershipRow list \<Rightarrow> string \<Rightarrow> bool" where
  "orphaned items ms ep \<longleftrightarrow> ep \<in> snd ` set items \<and> (\<forall>m \<in> set (left items ms). nm_endpointId m \<noteq> ep)"

text \<open>The tables that a removal of items leaves behind.\<close>

definition removal_leaves :: "item list \<Rightarrow> mgmtDb \<Rightarrow> mgmtDb \<Rightarrow> bool" where
  "removal_leaves items db db' \<longleftrightarrow> mg_memberships db' = left items (mg_memberships db) \<and>
    db_devices (mg_tables db') = filter (\<lambda>d. \<not> orphaned items (mg_memberships db) (dv_endpointId d)) (db_devices (mg_tables db)) \<and>
    mg_deviceTags db' = filter (\<lambda>r. \<not> orphaned items (mg_memberships db) (dt_endpointId r)) (mg_deviceTags db) \<and>
    db_networks (mg_tables db') = db_networks (mg_tables db)"

definition item_known :: "string \<Rightarrow> mgmtDb \<Rightarrow> item \<Rightarrow> bool" where
  "item_known organizationId db it \<longleftrightarrow>
    (\<exists>d \<in> set (db_devices (mg_tables db)). dv_organizationId d = organizationId \<and> dv_endpointId d = snd it) \<and>
    (\<exists>n \<in> set (db_networks (mg_tables db)). nw_organizationId n = organizationId \<and> nw_id n = fst it)"

lemma left_Cons: "left (it # its) ms = left its (left [it] ms)"
  by (auto simp: left_def intro: filter_cong)

lemma orphaned_Cons: "orphaned (it # its) ms ep \<longleftrightarrow> orphaned [it] ms ep \<or> orphaned its (left [it] ms) ep"
proof -
  have "set (left its (left [it] ms)) \<subseteq> set (left [it] ms)" by (auto simp: left_def)
  moreover have "m \<in> set (left its (left [it] ms))" if "m \<in> set (left [it] ms)" "nm_endpointId m \<notin> snd ` set its" for m
    using that by (force simp: left_def)
  ultimately show ?thesis unfolding orphaned_def left_Cons [of it its ms] by (auto; blast)
qed

lemma removed_refl: "removal_leaves [] db db"
  by (simp add: removal_leaves_def left_def orphaned_def)

lemma removed_Cons: "removal_leaves [it] db db1 \<Longrightarrow> removal_leaves its db1 db2 \<Longrightarrow> removal_leaves (it # its) db db2"
  by (simp add: removal_leaves_def left_Cons [of it its] orphaned_Cons [of it its] conj_commute)

lemma delete_devices_removed:
  assumes "set eps = {ep. orphaned items (mg_memberships db) ep}"
  shows "removal_leaves items db (delete_devices eps (db\<lparr>mg_memberships := left items (mg_memberships db)\<rparr>))"
proof -
  have "nm_endpointId m \<notin> set eps" if "m \<in> set (left items (mg_memberships db))" for m
    using that unfolding assms by (auto simp: orphaned_def)
  then show ?thesis using assms by (simp add: removal_leaves_def delete_devices_def with_devices_def)
qed

lemma nothing_orphaned:
  assumes "\<forall>ep. \<not> orphaned items (mg_memberships db) ep"
  shows "removal_leaves items db (db\<lparr>mg_memberships := left items (mg_memberships db)\<rparr>)"
  using assms by (simp add: removal_leaves_def)

lemma removed_bookkeeping [simp]:
  "removal_leaves items db (bumpOrgAndNotify o' db') = removal_leaves items db db'"
  "removal_leaves items db (writeAudit i db') = removal_leaves items db db'"
  "removal_leaves items db (bumpNetworkAndNotify n o' db') = removal_leaves items db db'"
  by (simp_all add: removal_leaves_def)

lemma removed_if_orphans:
  assumes "set eps = {ep. orphaned items (mg_memberships db) ep}"
  shows "removal_leaves items db (if eps \<noteq> [] then bumpOrgAndNotify o' (delete_devices eps (db\<lparr>mg_memberships := left items (mg_memberships db)\<rparr>))
    else db\<lparr>mg_memberships := left items (mg_memberships db)\<rparr>)"
  using delete_devices_removed [OF assms] nothing_orphaned [of items db] assms by auto

lemma removeDeviceMembership_removed:
  assumes "removeDeviceMembership i db = Inr db'"
  shows "removal_leaves [(ri_networkId i, ri_endpointId i)] db db' \<and>
    item_known (ri_organizationId i) db (ri_networkId i, ri_endpointId i)"
proof -
  let ?it = "(ri_networkId i, ri_endpointId i)"
  let ?db1 = "db\<lparr>mg_memberships := left [?it] (mg_memberships db)\<rparr>"
  let ?rem = "filter (\<lambda>m. nm_endpointId m = ri_endpointId i) (left [?it] (mg_memberships db))"
  have l: "filter (\<lambda>m. \<not> (nm_endpointId m = ri_endpointId i \<and> nm_networkId m = ri_networkId i)) (mg_memberships db) =
      left [?it] (mg_memberships db)"
    by (auto simp: left_def intro: filter_cong)
  have orph: "orphaned [?it] (mg_memberships db) ep \<longleftrightarrow> ep = ri_endpointId i \<and> ?rem = []" for ep
    by (auto simp: orphaned_def filter_empty_conv)
  have "removal_leaves [?it] db (if ?rem = [] then bumpOrgAndNotify (ri_organizationId i) (delete_devices [ri_endpointId i] ?db1) else ?db1)"
    using delete_devices_removed [of "[ri_endpointId i]" "[?it]" db] nothing_orphaned [of "[?it]" db] orph by auto
  moreover have "item_known (ri_organizationId i) db ?it"
    using assms unfolding removeDeviceMembership_def item_known_def find_None_iff by (auto split: if_splits)
  ultimately show ?thesis using assms unfolding removeDeviceMembership_def Let_def l by (auto split: if_splits)
qed

lemma item_known_removed: "removal_leaves its db db' \<Longrightarrow> item_known organizationId db' it \<Longrightarrow> item_known organizationId db it"
  by (auto simp: removal_leaves_def item_known_def)

lemma remove_each_removed:
  assumes "remove_each organizationId actor (\<lambda>_. True) items (n, db) = Inr (n', db')"
  shows "removal_leaves items db db' \<and> (\<forall>it \<in> set items. item_known organizationId db it) \<and> n' = n + int (length items)"
  using assms
proof (induction items arbitrary: n db)
  case Nil
  then show ?case by (simp add: removed_refl)
next
  case (Cons it items)
  let ?i = "\<lparr>ri_organizationId = organizationId, ri_actor = actor, ri_networkId = fst it, ri_endpointId = snd it, ri_auditAction = None\<rparr>"
  obtain db1 where s: "removeDeviceMembership ?i db = Inr db1"
    "remove_each organizationId actor (\<lambda>_. True) items (n + 1, db1) = Inr (n', db')"
    using Cons.prems by (auto split: sum.splits)
  have one: "removal_leaves [it] db db1" "item_known organizationId db it"
    using removeDeviceMembership_removed [OF s(1)] by simp_all
  show ?case using Cons.IH [OF s(2)] one removed_Cons item_known_removed [OF one(1)] by simp
qed

section \<open>The bulk routine\<close>

lemma set_first_by_key:
  "inj_on item_key (set its) \<Longrightarrow> set (first_by_key seen its) = {it \<in> set its. item_key it \<notin> set seen}"
proof (induction seen its rule: first_by_key.induct)
  case (1 seen)
  then show ?case by simp
next
  case (2 seen it its)
  have inj: "inj_on item_key (set its)" using 2(3) by (simp add: inj_on_def)
  show ?case
  proof (cases "item_key it \<in> set seen")
    case True
    then show ?thesis using 2(1) [OF True inj] by auto
  next
    case False
    have "item_key x = item_key it \<Longrightarrow> x \<in> set its \<Longrightarrow> x = it" for x using 2(3) by (simp add: inj_on_def)
    then show ?thesis using 2(2) [OF False inj] False by auto
  qed
qed

lemma foldl_delete_group:
  "foldl delete_group (n, db) groups =
   (let ms = filter (\<lambda>m. \<not> (\<exists>eps. (nm_networkId m, eps) \<in> set groups \<and> nm_endpointId m \<in> set eps)) (mg_memberships db)
    in (n + int (length (mg_memberships db)) - int (length ms), db\<lparr>mg_memberships := ms\<rparr>))"
proof (induction groups arbitrary: n db)
  case Nil
  then show ?case by simp
next
  case (Cons g groups)
  obtain nw eps where g: "g = (nw, eps)" by fastforce
  let ?P = "\<lambda>m. nm_networkId m = nw \<and> nm_endpointId m \<in> set eps"
  let ?ms = "mg_memberships db"
  let ?db1 = "db\<lparr>mg_memberships := filter (\<lambda>m. \<not> ?P m) ?ms\<rparr>"
  have st: "delete_group (n, db) g = (n + int (length (filter ?P ?ms)), ?db1)"
    by (simp add: delete_group_def g Let_def)
  have "filter (\<lambda>m. \<not> ?P m \<and> \<not> (\<exists>eps. (nm_networkId m, eps) \<in> set groups \<and> nm_endpointId m \<in> set eps)) ?ms =
      filter (\<lambda>m. \<not> (\<exists>eps. (nm_networkId m, eps) \<in> set (g # groups) \<and> nm_endpointId m \<in> set eps)) ?ms"
    unfolding g by (auto intro: filter_cong)
  then have flt: "filter (\<lambda>m. \<not> (\<exists>eps. (nm_networkId m, eps) \<in> set groups \<and> nm_endpointId m \<in> set eps)) (mg_memberships ?db1) =
      filter (\<lambda>m. \<not> (\<exists>eps. (nm_networkId m, eps) \<in> set (g # groups) \<and> nm_endpointId m \<in> set eps)) ?ms"
    by simp
  have "int (length (filter ?P ?ms)) = int (length ?ms) - int (length (mg_memberships ?db1))"
    using sum_length_filter_compl [of ?P ?ms] by simp
  then show ?case unfolding foldl_Cons st Cons.IH Let_def flt by simp
qed

lemma foldl_bump_removed [simp]:
  "removal_leaves items db (foldl (\<lambda>d networkId. bumpNetworkAndNotify networkId o' d) db' ns) = removal_leaves items db db'"
  by (induction ns arbitrary: db') simp_all

section \<open>Properties\<close>

lemma mem_pair: "(\<exists>x \<in> A. fst x = a \<and> snd x = b) \<longleftrightarrow> (a, b) \<in> A"
  by force

lemma selected:
  "x \<in> set keys \<Longrightarrow> \<exists>d \<in> set rows. P d \<and> f d = x \<Longrightarrow> x \<in> set (map f (filter (\<lambda>d. P d \<and> f d \<in> set keys) rows))"
  by auto

lemma orphans_set:
  "set E \<subseteq> set D \<Longrightarrow> set (filter (\<lambda>ep. ep \<in> set D \<and> ep \<notin> set (map f (filter (\<lambda>m. f m \<in> set E) ms))) E) =
   {ep. ep \<in> set E \<and> (\<forall>m \<in> set ms. f m \<noteq> ep)}"
  by auto

lemma bulk_orphans:
  assumes "set its = set items" "\<And>it. it \<in> set items \<Longrightarrow> snd it \<in> set dev"
  shows "set (filter (\<lambda>ep. ep \<in> set dev \<and> ep \<notin> set (map nm_endpointId (filter (\<lambda>m. nm_endpointId m \<in> set (uniq (map snd its)))
      (left items ms)))) (uniq (map snd its))) = {ep. orphaned items ms ep}"
proof -
  have eps: "set (uniq (map snd its)) = snd ` set items" using assms(1) by simp
  have "set (uniq (map snd its)) \<subseteq> set dev" unfolding eps using assms(2) by (auto simp only: image_iff)
  note orphans_set [OF this, of nm_endpointId "left items ms"]
  also have "{ep. ep \<in> set (uniq (map snd its)) \<and> (\<forall>m \<in> set (left items ms). nm_endpointId m \<noteq> ep)} = {ep. orphaned items ms ep}"
    unfolding orphaned_def eps ..
  finally show ?thesis .
qed

lemma bulk_removed:
  assumes "\<forall>it \<in> set items. item_known organizationId db it" "inj_on item_key (set items)"
    "removeDeviceMembershipsBulk organizationId actor items db = (n, db')"
  shows "removal_leaves items db db' \<and> n = int (length (mg_memberships db)) - int (length (mg_memberships db'))"
proof (cases "items = []")
  case True
  then show ?thesis using assms(3) by (simp add: removeDeviceMembershipsBulk_def removed_refl)
next
  case False
  let ?its = "first_by_key [] items"
  let ?eps = "uniq (map snd ?its)"
  let ?dev = "map dv_endpointId (filter (\<lambda>d. dv_organizationId d = organizationId \<and> dv_endpointId d \<in> set ?eps) (db_devices (mg_tables db)))"
  let ?net = "map nw_id (filter (\<lambda>n. nw_organizationId n = organizationId \<and> nw_id n \<in> set (uniq (map fst ?its))) (db_networks (mg_tables db)))"
  let ?groups = "foldl (\<lambda>m it. map_push (fst it) (snd it) m) [] ?its"
  let ?db1 = "db\<lparr>mg_memberships := left items (mg_memberships db)\<rparr>"
  let ?orphans = "filter (\<lambda>ep. ep \<in> set ?dev \<and> ep \<notin> set (map nm_endpointId (filter (\<lambda>m. nm_endpointId m \<in> set ?eps) (left items (mg_memberships db))))) ?eps"
  have its: "set ?its = set items" using set_first_by_key [OF assms(2), of "[]"] by simp
  have known: "snd it \<in> set ?dev" "fst it \<in> set ?net" if "it \<in> set items" for it
  proof -
    have "snd it \<in> set ?eps" "fst it \<in> set (uniq (map fst ?its))" using that its by simp_all
    moreover have "item_known organizationId db it" using that assms(1) by blast
    ultimately show "snd it \<in> set ?dev" "fst it \<in> set ?net" unfolding item_known_def by (intro selected; blast)+
  qed
  have valid: "filter (\<lambda>it. snd it \<in> set ?dev \<and> fst it \<in> set ?net) ?its = ?its"
    using known its by (intro filter_True) blast
  have sel: "(\<exists>eps. (nm_networkId m, eps) \<in> set ?groups \<and> nm_endpointId m \<in> set eps) \<longleftrightarrow>
      (nm_networkId m, nm_endpointId m) \<in> set items" for m
    unfolding foldl_push_mem mem_pair its ..
  have groups: "foldl delete_group (0, db) ?groups =
      (int (length (mg_memberships db)) - int (length (left items (mg_memberships db))), ?db1)"
    unfolding foldl_delete_group Let_def left_def sel by simp
  have "?its \<noteq> []" using False its by auto
  have orphans: "set ?orphans = {ep. orphaned items (mg_memberships db) ep}"
    by (rule bulk_orphans [OF its known(1)])
  have m1: "mg_memberships ?db1 = left items (mg_memberships db)" by simp
  have "removal_leaves items db (if ?orphans \<noteq> [] then bumpOrgAndNotify organizationId (delete_devices ?orphans ?db1) else ?db1)"
    using orphans by (rule removed_if_orphans)
  then have r: "removal_leaves items db db'" and n: "n = int (length (mg_memberships db)) - int (length (left items (mg_memberships db)))"
    using assms(3) False \<open>?its \<noteq> []\<close> unfolding removeDeviceMembershipsBulk_def Let_def valid groups split_conv m1 by auto
  then show ?thesis by (simp add: removal_leaves_def)
qed

text \<open>C5: removing in bulk is removing one by one. Whenever the removals of a list of items succeed one
  after the other, the bulk routine ends with the same memberships, the same devices and the same tags of
  devices, and the number it returns is the number of memberships that are gone. Network identifiers are
  UUIDs and contain no colon.\<close>

theorem bulk_removal_is_sequential_removal:
  assumes "remove_each organizationId actor (\<lambda>_. True) items (0, db) = Inr (k, db1)"
    and "removeDeviceMembershipsBulk organizationId actor' items db = (n, db2)"
    and "\<forall>it \<in> set items. CHR '':'' \<notin> set (fst it)"
  shows "mg_memberships db2 = mg_memberships db1 \<and> db_devices (mg_tables db2) = db_devices (mg_tables db1) \<and>
    mg_deviceTags db2 = mg_deviceTags db1 \<and> n = int (length (mg_memberships db)) - int (length (mg_memberships db1))"
proof -
  have "inj_on item_key (set items)"
  proof (rule inj_onI)
    fix x y
    assume a: "x \<in> set items" "y \<in> set items" "item_key x = item_key y"
    have "split_on (CHR '':'') (item_key z) = fst z # split_on (CHR '':'') (snd z)" if "z \<in> set items" for z
      using assms(3) that by (simp add: item_key_def split_on_append)
    from this [OF a(1)] this [OF a(2)] have "fst x = fst y" unfolding a(3) by simp
    then show "x = y" using a(3) by (simp add: item_key_def prod_eq_iff)
  qed
  then have "removal_leaves items db db2 \<and> n = int (length (mg_memberships db)) - int (length (mg_memberships db2))"
    using bulk_removed remove_each_removed [OF assms(1)] assms(2) by blast
  then show ?thesis using remove_each_removed [OF assms(1)] by (simp add: removal_leaves_def)
qed

definition ex_fleet :: mgmtDb where
  "ex_fleet = ex_store\<lparr>mg_tables := (mg_tables ex_store)\<lparr>
       db_devices := [\<lparr>dv_organizationId = ''o1'', dv_endpointId = ''e1''\<rparr>, \<lparr>dv_organizationId = ''o1'', dv_endpointId = ''e2''\<rparr>],
       db_networks := [\<lparr>nw_id = ''n1'', nw_organizationId = ''o1''\<rparr>, \<lparr>nw_id = ''n2'', nw_organizationId = ''o1''\<rparr>]\<rparr>,
     mg_memberships := [\<lparr>nm_networkId = ''n1'', nm_endpointId = ''e1''\<rparr>, \<lparr>nm_networkId = ''n1'', nm_endpointId = ''e2''\<rparr>,
       \<lparr>nm_networkId = ''n2'', nm_endpointId = ''e2''\<rparr>]\<rparr>"

theorem bulk_removal_is_sequential_removal_witness:
  "\<exists>k db1 n db2. remove_each ''o1'' ''u1'' (\<lambda>_. True) [(''n1'', ''e1''), (''n1'', ''e2'')] (0, ex_fleet) = Inr (k, db1) \<and>
     removeDeviceMembershipsBulk ''o1'' ''u1'' [(''n1'', ''e1''), (''n1'', ''e2'')] ex_fleet = (n, db2) \<and>
     db_devices (mg_tables db2) = db_devices (mg_tables db1)"
proof -
  have "case remove_each ''o1'' ''u1'' (\<lambda>_. True) [(''n1'', ''e1''), (''n1'', ''e2'')] (0, ex_fleet) of Inr _ \<Rightarrow> True | Inl _ \<Rightarrow> False"
    by code_simp
  then obtain k db1 where r: "remove_each ''o1'' ''u1'' (\<lambda>_. True) [(''n1'', ''e1''), (''n1'', ''e2'')] (0, ex_fleet) = Inr (k, db1)"
    by (auto split: sum.splits)
  obtain n db2 where b: "removeDeviceMembershipsBulk ''o1'' ''u1'' [(''n1'', ''e1''), (''n1'', ''e2'')] ex_fleet = (n, db2)" by fastforce
  show ?thesis using r b bulk_removal_is_sequential_removal [OF r b] by simp
qed

text \<open>An audit event outlives the transaction that it belongs to: when a later item of a request cannot be
  removed, the route answers with an error and all tables are as before, but the removals before it are in
  the audit trail.\<close>

definition ex_manage_key :: verifiedApiKey where
  "ex_manage_key = \<lparr>vk_id = ''k1'', vk_organizationId = ''o1'', vk_scopes = [''sdk:manage''], vk_networkIds = None\<rparr>"

lemma rolled_back_removal_is_audited:
  "case deleteSdkNodes ex_manage_key ''o1'' (Some [(''n1'', ''e1''), (''n2'', ''e1'')]) ex_fleet of (answer, db') \<Rightarrow>
     answer = Inl (Thrown ''Device not found'') \<and> db'\<lparr>mg_auditLog := []\<rparr> = ex_fleet \<and>
     map ev_message (mg_auditLog db') = [''device.deleted on e1 by api_key:k1'']"
  by code_simp

end
