(* ===== verification/Duration.thy ===== *)
theory Duration
  imports Js_Prelude Complex_Main
begin

text \<open>
  Durations as text (packages/api/src/management/duration.ts). The durations that a user types are read
  by a library, which is the argument \<open>parse\<close>: the number of seconds that it finds in a text, where
  \<^const>\<open>None\<close> is no number or one that is not finite. Everything else is the module's own: intervals of the
  database, the compact form such as \<open>1w2d3h\<close> and the long form. Seconds that are printed are whole.
\<close>

section \<open>Printing\<close>

definition secondsToPgInterval :: "int \<Rightarrow> string" where
  "secondsToPgInterval seconds = show_int seconds @ '' seconds''"

definition duration_units :: "(int \<times> char \<times> string) list" where
  "duration_units = [(604800, CHR ''w'', ''week''), (86400, CHR ''d'', ''day''), (3600, CHR ''h'', ''hour''),
     (60, CHR ''m'', ''minute''), (1, CHR ''s'', ''second'')]"

text \<open>The amounts of the units, largest unit first, without those that are zero.\<close>

fun unit_parts :: "int \<Rightarrow> (int \<times> 'u) list \<Rightarrow> (int \<times> int \<times> 'u) list" where
  "unit_parts rem [] = []"
| "unit_parts rem ((sz, u) # us) = (let k = rem div sz in
     if k > 0 then (k, sz, u) # unit_parts (rem mod sz) us else unit_parts rem us)"

definition formatDurationCompact :: "int \<Rightarrow> string" where
  "formatDurationCompact secs = (if secs \<le> 0 then ''0s''
     else concat (map (\<lambda>(k, _, c, _). show_int k @ [c]) (unit_parts secs duration_units)))"

definition formatDurationLong :: "int \<Rightarrow> string" where
  "formatDurationLong secs = (if secs \<le> 0 then ''0 seconds''
     else join '', '' (map (\<lambda>(k, _, _, name). show_int k @ '' '' @ name @ (if k = 1 then [] else ''s''))
       (unit_parts secs duration_units)))"

section \<open>Reading\<close>

definition parseHumanDuration :: "(string \<Rightarrow> rat option) \<Rightarrow> string \<Rightarrow> int option" where
  "parseHumanDuration parse raw = (let trimmed = trim raw in
     if trimmed = [] then None
     else case parse trimmed of
         None \<Rightarrow> None
       | Some secs \<Rightarrow> if secs \<le> 0 then None else Some \<lfloor>secs\<rfloor>)"

definition unit_size :: "char \<Rightarrow> int" where
  "unit_size c = (let u = lower_char c in
     if u = CHR ''w'' then 604800 else if u = CHR ''d'' then 86400 else if u = CHR ''h'' then 3600
     else if u = CHR ''m'' then 60 else if u = CHR ''s'' then 1 else 0)"

text \<open>The loop over the text from the current index on, with the total so far.\<close>

function compact_loop :: "int \<Rightarrow> string \<Rightarrow> int option" where
  "compact_loop acc value =
    (if value = [] then Some acc
     else let ds = takeWhile is_digit value; rest = dropWhile is_digit value in
       if ds = [] \<or> rest = [] then None
       else let amount = digits_val 0 ds; multiplier = unit_size (hd rest) in
         if amount \<le> 0 then None
         else if multiplier = 0 then None
         else compact_loop (acc + amount * multiplier) (tl rest))"
  by pat_completeness auto
termination
proof (relation "measure (\<lambda>(acc, value). length value)", goal_cases)
  case (2 acc s ds r amount multiplier)
  have "length r \<le> length s" unfolding 2(3) by (rule length_dropWhile_le)
  moreover have "0 < length s" using 2(1) by simp
  ultimately have "length (tl r) < length s" unfolding length_tl by linarith
  then show ?case by simp
qed simp

declare compact_loop.simps [simp del]

definition parseCompactDuration :: "string \<Rightarrow> int option" where
  "parseCompactDuration value = (if value = [] \<or> 64 < length value then None
     else case compact_loop 0 value of
         None \<Rightarrow> None
       | Some t \<Rightarrow> if 0 < t then Some t else None)"

text \<open>A run of digits, and a run of white space.\<close>

definition lex_digits :: "string \<Rightarrow> (int \<times> nat \<times> string) option" where
  "lex_digits s = (let ds = takeWhile is_digit s in
     if ds = [] then None else Some (digits_val 0 ds, length ds, dropWhile is_digit s))"

definition lex_ws :: "string \<Rightarrow> string option" where
  "lex_ws s = (if s \<noteq> [] \<and> js_ws (hd s) then Some (dropWhile js_ws s) else None)"

text \<open>\<open>:mm\<close> with one or two digits, and an optional fraction at the end.\<close>

definition lex_two :: "string \<Rightarrow> (int \<times> string) option" where
  "lex_two s = (if s \<noteq> [] \<and> hd s = CHR '':'' then
       (case lex_digits (tl s) of Some (n, len, r) \<Rightarrow> if len \<le> 2 then Some (n, r) else None | None \<Rightarrow> None)
     else None)"

definition fraction_end :: "string \<Rightarrow> bool" where
  "fraction_end s \<longleftrightarrow> s = [] \<or> (hd s = CHR ''.'' \<and> tl s \<noteq> [] \<and> (\<forall>c \<in> set (tl s). is_digit c))"

definition clock_time :: "int \<Rightarrow> string \<Rightarrow> int option" where
  "clock_time base s = (case lex_two s of
       Some (minutes, r) \<Rightarrow> (case lex_two r of
           Some (seconds, r') \<Rightarrow> if fraction_end r' then Some (base + minutes * 60 + seconds) else None
         | None \<Rightarrow> None)
     | None \<Rightarrow> None)"

text \<open>\<open>[days ]hours:minutes:seconds[.fraction]\<close>; the result is the total before its sign is looked at.\<close>

definition dayTime :: "string \<Rightarrow> int option" where
  "dayTime value = (case lex_digits value of
       None \<Rightarrow> None
     | Some (n, _, r) \<Rightarrow> (case lex_ws r of
           None \<Rightarrow> clock_time (n * 3600) r
         | Some r' \<Rightarrow> (case lex_digits r' of
               Some (hours, _, r'') \<Rightarrow> clock_time (n * 86400 + hours * 3600) r''
             | None \<Rightarrow> None)))"

definition secondsOnly :: "string \<Rightarrow> int option" where
  "secondsOnly value = (case lex_digits value of
       Some (n, _, r) \<Rightarrow> (case lex_ws r of
           Some w \<Rightarrow> if toLowerCase w = ''second'' \<or> toLowerCase w = ''seconds'' then Some n else None
         | None \<Rightarrow> None)
     | None \<Rightarrow> None)"

definition positive :: "int option \<Rightarrow> int option" where
  "positive x = (case x of Some n \<Rightarrow> if 0 < n then Some n else None | None \<Rightarrow> None)"

definition parsePostgresIntervalTime :: "string \<Rightarrow> int option" where
  "parsePostgresIntervalTime value = (case dayTime value of
       Some t \<Rightarrow> positive (Some t)
     | None \<Rightarrow> positive (secondsOnly value))"

definition pgIntervalToSeconds :: "(string \<Rightarrow> rat option) \<Rightarrow> string \<Rightarrow> int option" where
  "pgIntervalToSeconds parse value = (let trimmed = trim value in
     if trimmed = [] then None
     else case parsePostgresIntervalTime trimmed of
         Some n \<Rightarrow> Some n
       | None \<Rightarrow> (case Option.bind (parse trimmed) (\<lambda>secs. if 0 < secs then positive (Some \<lfloor>secs\<rfloor>) else None) of
             Some n \<Rightarrow> Some n
           | None \<Rightarrow> parseCompactDuration trimmed))"

definition expiresAtFromDuration :: "(string \<Rightarrow> rat option) \<Rightarrow> string \<Rightarrow> int \<Rightarrow> string + int" where
  "expiresAtFromDuration parse duration from_time = (case parseHumanDuration parse duration of
       None \<Rightarrow> Inl ''Invalid duration''
     | Some secs \<Rightarrow> Inr (from_time + secs * 1000))"

text \<open>The schema of the field \<open>expiresIn\<close>: null, or a text of one to a hundred characters after trimming
  that is \<open>never\<close> or a duration. The result is the value that the schema passes on.\<close>

definition expiresInInputSchema :: "(string \<Rightarrow> rat option) \<Rightarrow> string option \<Rightarrow> unit + string option" where
  "expiresInInputSchema parse value = (case value of
       None \<Rightarrow> Inr None
     | Some s \<Rightarrow> (let t = trim s in
         if t = [] \<or> 100 < length t then Inl ()
         else if toLowerCase t = ''never'' \<or> parseHumanDuration parse t \<noteq> None then Inr (Some t)
         else Inl ()))"

section \<open>Reading what was printed\<close>

lemma show_int_pos: "0 \<le> k \<Longrightarrow> show_int k = show_nat (nat k)"
  by (simp add: show_int_def)

lemma lex_show_int:
  assumes "0 \<le> k" "\<not> is_digit c"
  shows "takeWhile is_digit (show_int k @ c # r) = show_int k" "dropWhile is_digit (show_int k @ c # r) = c # r"
    "digits_val 0 (show_int k) = k" "show_int k \<noteq> []"
proof -
  have d: "\<forall>x \<in> set (show_int k). is_digit x" using assms(1) show_nat_digits by (auto simp: show_int_pos)
  then show "takeWhile is_digit (show_int k @ c # r) = show_int k" "dropWhile is_digit (show_int k @ c # r) = c # r"
    using assms(2) by (simp_all add: takeWhile_append dropWhile_append)
  show "digits_val 0 (show_int k) = k" "show_int k \<noteq> []" using assms(1) by (simp_all add: show_int_pos)
qed

lemma compact_step:
  assumes "0 < k" "\<not> is_digit c" "unit_size c \<noteq> 0"
  shows "compact_loop acc (show_int k @ c # r) = compact_loop (acc + k * unit_size c) r"
  using assms lex_show_int(1,2) [of k c r] lex_show_int(3,4) [of k c] by (subst compact_loop.simps) (simp add: Let_def)

definition unit_entry_ok :: "int \<times> char \<times> string \<Rightarrow> bool" where
  "unit_entry_ok = (\<lambda>(sz, c, _). 0 < sz \<and> unit_size c = sz \<and> \<not> is_digit c)"

lemma unit_parts_ok:
  "(k, sz, u) \<in> set (unit_parts rem us) \<Longrightarrow> 0 < k \<and> (sz, u) \<in> set us"
  by (induction rem us rule: unit_parts.induct) (auto simp: Let_def split: if_splits)

lemma compact_parts:
  assumes "\<forall>(k, sz, c, name) \<in> set ps. 0 < k \<and> unit_entry_ok (sz, c, name)"
  shows "compact_loop acc (concat (map (\<lambda>(k, _, c, _). show_int k @ [c]) ps)) =
    Some (acc + sum_list (map (\<lambda>(k, sz, _). k * sz) ps))"
  using assms
proof (induction ps arbitrary: acc)
  case Nil
  then show ?case by (subst compact_loop.simps) simp
next
  case (Cons p ps)
  obtain k sz c name where p: "p = (k, sz, c, name)" using prod_cases4 by blast
  then show ?case using Cons by (auto simp: unit_entry_ok_def compact_step add.assoc)
qed

fun unit_rest :: "int \<Rightarrow> (int \<times> 'u) list \<Rightarrow> int" where
  "unit_rest rem [] = rem"
| "unit_rest rem ((sz, u) # us) = unit_rest (rem mod sz) us"

lemma unit_parts_sum:
  "0 \<le> rem \<Longrightarrow> \<forall>(sz, u) \<in> set us. 0 < sz \<Longrightarrow>
   sum_list (map (\<lambda>(k, sz, _). k * sz) (unit_parts rem us)) + unit_rest rem us = rem"
proof (induction rem us rule: unit_parts.induct)
  case (1 rem)
  then show ?case by simp
next
  case (2 rem sz u us)
  have sz: "0 < sz" using 2(4) by simp
  show ?case
  proof (cases "rem div sz > 0")
    case True
    have "sum_list (map (\<lambda>(k, sz, _). k * sz) (unit_parts (rem mod sz) us)) + unit_rest (rem mod sz) us = rem mod sz"
      using 2(1) [OF refl True] sz 2(4) by simp
    moreover have "sum_list (map (\<lambda>(k, sz, _). k * sz) (unit_parts rem ((sz, u) # us))) =
        rem div sz * sz + sum_list (map (\<lambda>(k, sz, _). k * sz) (unit_parts (rem mod sz) us))"
      using True by (simp add: Let_def)
    ultimately show ?thesis using div_mult_mod_eq [of rem sz] unfolding unit_rest.simps by linarith
  next
    case False
    then have "rem mod sz = rem" using sz 2(3) by (metis div_by_0 linorder_not_less mod_pos_pos_trivial pos_imp_zdiv_pos_iff)
    then show ?thesis using False 2 by (simp add: Let_def)
  qed
qed

lemma duration_units_ok: "\<forall>e \<in> set duration_units. unit_entry_ok e"
  by code_simp

lemma compact_loop_format:
  assumes "0 < secs"
  shows "compact_loop 0 (formatDurationCompact secs) = Some secs"
proof -
  have units: "\<forall>(sz, u) \<in> set duration_units. 0 < sz" by (simp add: duration_units_def)
  have "unit_rest secs duration_units = 0" by (simp add: duration_units_def)
  then have sum: "sum_list (map (\<lambda>(k, sz, _). k * sz) (unit_parts secs duration_units)) = secs"
    using unit_parts_sum [OF _ units, of secs] assms by simp
  have "\<forall>(k, sz, c, name) \<in> set (unit_parts secs duration_units). 0 < k \<and> unit_entry_ok (sz, c, name)"
    using duration_units_ok by (auto dest!: unit_parts_ok)
  from compact_parts [OF this, of 0] show ?thesis using assms sum by (simp add: formatDurationCompact_def)
qed

lemma show_nat_length: "n < 10 ^ Suc k \<Longrightarrow> length (show_nat n) \<le> Suc k"
proof (induction k arbitrary: n)
  case 0
  then show ?case by (subst show_nat.simps) simp
next
  case (Suc k)
  then have "n div 10 < 10 ^ Suc k" by (simp add: div_less_iff_less_mult)
  then show ?case using Suc.IH [of "n div 10"] by (subst show_nat.simps) simp
qed

lemma show_int_length: "0 \<le> k \<Longrightarrow> k < 10 ^ Suc j \<Longrightarrow> length (show_int k) \<le> Suc j"
  using show_nat_length [of "nat k" j] by (simp add: show_int_pos nat_less_iff)

lemma unit_parts_le:
  "0 \<le> rem \<Longrightarrow> \<forall>(sz, u) \<in> set us. 0 < sz \<Longrightarrow> (k, e) \<in> set (unit_parts rem us) \<Longrightarrow> k \<le> rem"
proof (induction rem us rule: unit_parts.induct)
  case (1 rem)
  then show ?case by simp
next
  case (2 rem sz u us)
  have sz: "0 < sz" using 2(4) by simp
  have m: "rem mod sz \<le> rem" using 2(3) sz by (simp add: zmod_le_nonneg_dividend)
  have d: "rem div sz \<le> rem" using 2(3) sz by (metis div_by_1 linorder_not_le zdiv_mono2 zless_imp_add1_zle add_0 zero_less_one)
  show ?case
  proof (cases "rem div sz > 0")
    case True
    then show ?thesis using 2(5) d m 2(1) [OF refl True] sz 2(4) by (force simp: Let_def)
  next
    case False
    then show ?thesis using 2(5) 2(2) [OF refl False] 2(3,4) by (simp add: Let_def)
  qed
qed

lemma unit_parts_length: "length (unit_parts rem us) \<le> length us"
  by (induction rem us rule: unit_parts.induct) (auto simp: Let_def)

lemma concat_length: "(\<And>x. x \<in> set xs \<Longrightarrow> length (f x) \<le> b) \<Longrightarrow> length (concat (map f xs)) \<le> length xs * b"
proof (induction xs)
  case Nil
  then show ?case by simp
next
  case (Cons x xs)
  then have "length (f x) \<le> b" "length (concat (map f xs)) \<le> length xs * b" by simp_all
  then show ?case by simp
qed

lemma format_length:
  assumes "0 < secs" "secs < 10 ^ 11"
  shows "length (formatDurationCompact secs) \<le> 60"
proof -
  let ?f = "\<lambda>(k, _ :: int, c, _ :: string). show_int k @ [c]"
  have units: "\<forall>(sz, u) \<in> set duration_units. 0 < sz" by (simp add: duration_units_def)
  have "length (?f p) \<le> 12" if "p \<in> set (unit_parts secs duration_units)" for p
  proof -
    obtain k sz c name where p: "p = (k, sz, c, name)" using prod_cases4 by blast
    have "0 < k" "k \<le> secs"
      using that unit_parts_ok unit_parts_le [OF _ units, of secs k] assms(1) unfolding p by fastforce+
    then have "length (show_int k) \<le> 11" using show_int_length [of k 10] assms(2) by simp
    then show ?thesis by (simp add: p)
  qed
  then have "length (concat (map ?f (unit_parts secs duration_units))) \<le> length (unit_parts secs duration_units) * 12"
    by (rule concat_length)
  also have "\<dots> \<le> 5 * 12" using unit_parts_length [of secs duration_units] by (simp add: duration_units_def)
  finally show ?thesis using assms(1) by (simp add: formatDurationCompact_def)
qed

lemma pg_round_trip:
  assumes "0 < secs"
  shows "pgIntervalToSeconds parse (secondsToPgInterval secs) = Some secs"
proof -
  let ?s = "show_int secs @ '' seconds''"
  have lex: "lex_digits ?s = Some (secs, length (show_int secs), '' seconds'')"
    using assms lex_show_int(1,2) [of secs "CHR '' ''" "''seconds''"] lex_show_int(3,4) [of secs "CHR '' ''"] by (simp add: lex_digits_def is_digit_def code_unit_def)
  have ws: "lex_ws '' seconds'' = Some ''seconds''" by code_simp
  have "\<not> js_ws (hd ?s)" "\<not> js_ws (last ?s)"
  proof -
    have "is_digit (hd (show_nat (nat secs)))" by (rule show_nat_digits [of _ "nat secs"]) (simp add: hd_in_set)
    then show "\<not> js_ws (hd ?s)" using assms digit_not_ws by (simp add: show_int_pos)
    show "\<not> js_ws (last ?s)" by (simp add: js_ws_def code_unit_def)
  qed
  then have t: "trim ?s = ?s" by (rule trim_id)
  have "dayTime ?s = None" by (simp add: dayTime_def lex ws) code_simp
  moreover have "secondsOnly ?s = Some secs"
  proof -
    have "toLowerCase ''seconds'' = ''seconds''" by code_simp
    then show ?thesis by (simp add: secondsOnly_def lex ws)
  qed
  ultimately have "parsePostgresIntervalTime ?s = Some secs"
    using assms by (simp add: parsePostgresIntervalTime_def positive_def)
  then show ?thesis unfolding pgIntervalToSeconds_def secondsToPgInterval_def t Let_def by simp
qed

text \<open>C14: durations survive being written and read. The interval that is written to the database for a
  positive number of seconds is read back as that number, whatever the library for durations does with
  the text, and up to \<open>10 ^ 11\<close> seconds, which is more than three thousand years, so is the compact form.\<close>

theorem durations_round_trip:
  assumes "0 < secs" "secs < 10 ^ 11"
  shows "pgIntervalToSeconds parse (secondsToPgInterval secs) = Some secs \<and>
    parseCompactDuration (formatDurationCompact secs) = Some secs"
proof -
  have "formatDurationCompact secs \<noteq> []"
    using compact_loop_format [OF assms(1)] assms(1) by (auto simp: compact_loop.simps [of 0 "[]"])
  then show ?thesis
    using pg_round_trip [OF assms(1)] format_length [OF assms] compact_loop_format [OF assms(1)] assms(1)
    by (simp add: parseCompactDuration_def)
qed

theorem durations_round_trip_witness:
  "formatDurationCompact 788645 = ''1w2d3h4m5s'' \<and> parseCompactDuration (formatDurationCompact 788645) = Some 788645 \<and>
   pgIntervalToSeconds (\<lambda>_. None) (secondsToPgInterval 788645) = Some 788645"
proof -
  have "formatDurationCompact 788645 = ''1w2d3h4m5s''"
    by code_simp
  then show ?thesis using durations_round_trip [of 788645 "\<lambda>_. None"] by simp
qed

text \<open>A positive duration below one second is accepted and becomes the interval of zero seconds, which is
  not read back.\<close>

lemma subsecond_duration_is_zero:
  assumes "parse t = Some secs" "0 < secs" "secs < 1" "trim t = t" "t \<noteq> []"
  shows "parseHumanDuration parse t = Some 0 \<and> parsePostgresIntervalTime (secondsToPgInterval 0) = None"
proof -
  have "\<lfloor>secs\<rfloor> = 0" using assms(2,3) by (simp add: floor_eq_iff)
  moreover have "parsePostgresIntervalTime (secondsToPgInterval 0) = None" by code_simp
  ultimately show ?thesis using assms by (simp add: parseHumanDuration_def)
qed

end
