(* ===== verification/Spec2Isabelle.thy ===== *)
theory Spec2Isabelle
  imports Policy_Simulate Policy_Merge Policy_Rows License_Issuer License_Manager Org_Auth Tag_Routes Device_Removal Duration
begin

text \<open>
  A verification library for Tunnet's TypeScript control software.
\<close>

end
